(* ===== verification/Prelude.thy ===== *)
theory Prelude
  imports Main "HOL-Library.Char_ord" "HOL-Library.List_Lexorder" "HOL-Library.Product_Lexorder"
begin

text \<open>
  Shared vocabulary of the development: the Python exceptions the generator can raise, a
  result type with its bind and loop combinators, and Python's insertion-ordered
  \<open>dict\<close> as an association list. The lemmas proved here are the ones every component
  proof leans on; the \<open>result_iff\<close> collection characterises successful results, the
  \<open>pydict_simps\<close> collection the dictionary operations.
\<close>

named_theorems result_iff "characterisations of a successful result"
named_theorems pydict_simps "simplification rules for Python dictionaries"

section \<open>Exceptions and results\<close>

text \<open>
  The exceptions raised by \<open>cfggen.py\<close> or by the builtins it calls. \<open>ParserError\<close>
  is \<open>argparser.error\<close>, which prints the usage and leaves with exit status 2.
  Messages of \<open>int()\<close> failures are abstracted to a fixed text.
\<close>

datatype pyerr =
    ValueError string
  | IndexError
  | KeyError
  | TypeError
  | AttributeError
  | ParserError string
  | DuplicateOptionError string string
  | IOError string

type_synonym 'a result = "pyerr + 'a"

definition rbind :: "'a result \<Rightarrow> ('a \<Rightarrow> 'b result) \<Rightarrow> 'b result" where
  "rbind m f = (case m of Inl e \<Rightarrow> Inl e | Inr x \<Rightarrow> f x)"

lemma rbind_Inl [simp]: "rbind (Inl e) f = Inl e"
  by (simp add: rbind_def)

lemma rbind_Inr [simp]: "rbind (Inr x) f = f x"
  by (simp add: rbind_def)

lemma rbind_eq_Inr [result_iff]: "rbind m f = Inr y \<longleftrightarrow> (\<exists>x. m = Inr x \<and> f x = Inr y)"
  by (cases m) auto

lemma rbind_eq_Inl: "rbind m f = Inl e \<longleftrightarrow> m = Inl e \<or> (\<exists>x. m = Inr x \<and> f x = Inl e)"
  by (cases m) auto

lemma rbind_split: "P (rbind m f) \<longleftrightarrow> (\<forall>e. m = Inl e \<longrightarrow> P (Inl e)) \<and> (\<forall>x. m = Inr x \<longrightarrow> P (f x))"
  by (cases m) auto

lemma rbind_split_asm: "P (rbind m f) \<longleftrightarrow> \<not> ((\<exists>e. m = Inl e \<and> \<not> P (Inl e)) \<or> (\<exists>x. m = Inr x \<and> \<not> P (f x)))"
  by (cases m) auto

lemmas rbind_splits = rbind_split rbind_split_asm

text \<open>A \<open>for\<close> loop whose body may raise: the first exception ends the loop.\<close>

fun rfold :: "('a \<Rightarrow> 's \<Rightarrow> 's result) \<Rightarrow> 'a list \<Rightarrow> 's \<Rightarrow> 's result" where
  "rfold f [] s = Inr s"
| "rfold f (x # xs) s = rbind (f x s) (rfold f xs)"

lemma rfold_append: "rfold f (xs @ ys) s = rbind (rfold f xs s) (rfold f ys)"
  by (induction xs arbitrary: s) (auto split: sum.splits simp: rbind_def)

lemma rfold_total:
  "(\<And>x s. x \<in> set xs \<Longrightarrow> \<exists>s'. f x s = Inr s') \<Longrightarrow> \<exists>s'. rfold f xs s = Inr s'"
proof (induction xs arbitrary: s)
  case (Cons x xs)
  then obtain s1 where "f x s = Inr s1" by fastforce
  with Cons show ?case by simp
qed simp

lemma rfold_invariant:
  assumes "\<And>x s s'. x \<in> set xs \<Longrightarrow> P s \<Longrightarrow> f x s = Inr s' \<Longrightarrow> P s'"
    and "P s" and "rfold f xs s = Inr s'"
  shows "P s'"
  using assms
proof (induction xs arbitrary: s)
  case Nil
  then show ?case by simp
next
  case (Cons x xs)
  from Cons.prems(3) obtain s1 where s1: "f x s = Inr s1" and rest: "rfold f xs s1 = Inr s'"
    by (auto simp: result_iff)
  have "P s1" using Cons.prems(1)[OF _ Cons.prems(2) s1] by simp
  then show ?case using Cons.IH[OF _ _ rest] Cons.prems(1) by auto
qed

lemma map_of_map_keyed:
  "map_of (map (\<lambda>(k, x). (k, g k x)) d) k = map_option (g k) (map_of d k)"
  by (induction d) auto

text \<open>A step that commutes with a state map \<open>g\<close> makes the whole loop commute with it.\<close>

lemma rfold_commute:
  assumes "\<And>x s. f x (g s) = map_sum id g (f x s)"
  shows "rfold f xs (g s) = map_sum id g (rfold f xs s)"
proof (induction xs arbitrary: s)
  case (Cons x xs)
  show ?case by (cases "f x s") (simp_all add: assms Cons.IH)
qed simp

section \<open>Python dictionaries\<close>

text \<open>
  A Python \<open>dict\<close> keeps its keys in insertion order; assigning to an existing key
  changes the value in place and keeps the position, a new key goes last. It is an
  association list whose keys are distinct (\<open>distinct (map fst d)\<close>), which every
  operation below keeps.
\<close>

type_synonym ('k, 'v) pydict = "('k \<times> 'v) list"

fun dict_set :: "('k, 'v) pydict \<Rightarrow> 'k \<Rightarrow> 'v \<Rightarrow> ('k, 'v) pydict" where
  "dict_set [] k v = [(k, v)]"
| "dict_set ((k', v') # d) k v = (if k' = k then (k, v) # d else (k', v') # dict_set d k v)"

definition dict_del :: "('k, 'v) pydict \<Rightarrow> 'k \<Rightarrow> ('k, 'v) pydict" where
  "dict_del d k = filter (\<lambda>(k', _). k' \<noteq> k) d"

text \<open>\<open>d.update(e)\<close>: the entries of \<open>e\<close> assigned in \<open>e\<close>'s order.\<close>

definition dict_update :: "('k, 'v) pydict \<Rightarrow> ('k, 'v) pydict \<Rightarrow> ('k, 'v) pydict" where
  "dict_update d e = fold (\<lambda>(k, v) d. dict_set d k v) e d"

abbreviation dict_keys :: "('k, 'v) pydict \<Rightarrow> 'k list" where
  "dict_keys d \<equiv> map fst d"

lemma map_of_dict_set [simp, pydict_simps]: "map_of (dict_set d k v) = (map_of d)(k \<mapsto> v)"
  by (induction d) (auto simp: fun_eq_iff)

lemma set_keys_dict_set [simp, pydict_simps]:
  "fst ` set (dict_set d k v) = insert k (fst ` set d)"
  by (induction d) force+

lemma keys_dict_set [pydict_simps]:
  "dict_keys (dict_set d k v) = (if k \<in> set (dict_keys d) then dict_keys d else dict_keys d @ [k])"
  by (induction d) force+

lemma distinct_dict_set [simp, pydict_simps]:
  "distinct (dict_keys d) \<Longrightarrow> distinct (dict_keys (dict_set d k v))"
  by (simp add: keys_dict_set)

lemma set_dict_set [pydict_simps]: "set (dict_set d k v) \<subseteq> insert (k, v) (set d)"
  by (induction d) (auto split: if_split_asm)

lemma dict_set_same [pydict_simps]:
  "map_of d k = Some v \<Longrightarrow> distinct (dict_keys d) \<Longrightarrow> dict_set d k v = d"
  by (induction d) auto

lemma dict_set_idem [simp, pydict_simps]: "dict_set (dict_set d k v) k v = dict_set d k v"
  by (induction d) auto

lemma map_of_dict_del [simp, pydict_simps]: "map_of (dict_del d k) = (map_of d)(k := None)"
  by (induction d) (auto simp: dict_del_def fun_eq_iff)

lemma fold_dict_del [pydict_simps]:
  "fold (\<lambda>k d. dict_del d k) ks d = filter (\<lambda>(k, _). k \<notin> set ks) d"
  by (induction ks arbitrary: d) (auto simp: dict_del_def intro: filter_cong)

lemma set_keys_dict_update [simp, pydict_simps]:
  "fst ` set (dict_update d e) = fst ` set d \<union> fst ` set e"
proof (induction e arbitrary: d)
  case Nil
  then show ?case by (simp add: dict_update_def)
next
  case (Cons x e)
  obtain k v where x: "x = (k, v)" by fastforce
  have "fst ` set (dict_update d (x # e)) = fst ` set (dict_set d k v) \<union> fst ` set e"
    using Cons.IH [of "dict_set d k v"] x by (simp add: dict_update_def)
  then show ?case using x by auto
qed

lemma distinct_dict_update [simp, pydict_simps]:
  "distinct (dict_keys d) \<Longrightarrow> distinct (dict_keys (dict_update d e))"
  by (induction e arbitrary: d) (auto simp: dict_update_def)

lemma map_of_dict_update [pydict_simps]:
  "distinct (dict_keys e) \<Longrightarrow> map_of (dict_update d e) = map_of d ++ map_of e"
proof (induction e arbitrary: d rule: rev_induct)
  case Nil
  then show ?case by (simp add: dict_update_def)
next
  case (snoc x e)
  obtain k v where x: "x = (k, v)" by fastforce
  from snoc.prems have "distinct (dict_keys e)" by simp
  with snoc.IH have "map_of (dict_update d e) = map_of d ++ map_of e" .
  moreover from snoc.prems x have "map_of e k = None" by (simp add: map_of_eq_None_iff)
  ultimately show ?case using x
    by (auto simp: dict_update_def fun_eq_iff map_add_def split: option.splits)
qed

lemma dict_update_Nil [simp]: "dict_update d [] = d"
  by (simp add: dict_update_def)

lemma dict_update_Cons [simp]: "dict_update d ((k, v) # e) = dict_update (dict_set d k v) e"
  by (simp add: dict_update_def)


section \<open>Lists of pairs and nested loops\<close>

lemma dict_set_new: "k \<notin> fst ` set d \<Longrightarrow> dict_set d k v = d @ [(k, v)]"
  by (induction d) auto

lemma fold_add_new:
  "distinct (ks @ ns) \<Longrightarrow> fold (\<lambda>k ks. if k \<in> set ks then ks else ks @ [k]) ns ks = ks @ ns"
  by (induction ns arbitrary: ks) auto

lemma fold_add_old:
  "set ns \<subseteq> set ks \<Longrightarrow> fold (\<lambda>k ks. if k \<in> set ks then ks else ks @ [k]) ns ks = ks"
  by (induction ns) auto

lemma sorted_fst_sort: "sorted (map fst (sort (xs :: ('a::linorder \<times> 'b::linorder) list)))"
proof -
  have "sorted_wrt (\<le>) (sort xs)" using sorted_sort [of xs] by simp
  then have "sorted_wrt (\<lambda>x y. fst x \<le> fst y) (sort xs)"
    by (rule sorted_wrt_mono_rel [rotated]) (auto simp: less_eq_prod_def)
  then show ?thesis by (simp add: sorted_wrt_map)
qed

lemma sort_dict:
  assumes "distinct (dict_keys xs)"
  shows "distinct (dict_keys (sort xs)) \<and> sorted (dict_keys (sort xs)) \<and> map_of (sort xs) = map_of xs"
proof -
  have d: "distinct (dict_keys (sort xs))"
    using assms by (simp add: distinct_map)
  then show ?thesis using assms sorted_fst_sort [of xs] by (simp add: map_of_inject_set)
qed

lemma product_Nil2 [simp]: "List.product xs [] = []"
  by (induction xs) auto

lemma product_upt_0:
  "0 < n \<Longrightarrow> List.product [0..<n] xs = map (Pair 0) xs @ List.product [1..<n] xs"
  by (simp add: upt_rec)

lemma rfold_map_Pair: "rfold (f i) xs = rfold (\<lambda>(i, x). f i x) (map (Pair i) xs)"
proof (induction xs)
  case (Cons a xs)
  show ?case by (rule ext) (simp add: Cons.IH)
qed simp

lemma rfold_nested:
  "rfold (\<lambda>i. rfold (f i) xs) js = rfold (\<lambda>(i, x). f i x) (List.product js xs)"
proof (induction js)
  case (Cons a js)
  show ?case by (rule ext) (simp add: Cons.IH rfold_append rfold_map_Pair [of f a])
qed simp

end
