(* ===== verification/PyStr.thy ===== *)
theory PyStr
  imports Prelude
begin

text \<open>
  The Python string builtins the generator relies on, for ASCII text: character classes,
  \<open>str.lower\<close>, \<open>str.startswith\<close>, \<open>str.strip\<close>, \<open>int(s, base)\<close> for the bases 10
  and 16 it uses, and \<open>str(n)\<close> of a natural number. \<open>int\<close> follows CPython's
  grammar: surrounding white space, an optional sign, for base 16 an optional \<open>0x\<close>
  prefix that may be followed by one underscore, then digits with single underscores
  between them. The main lemmas are the round trip of \<open>str\<close> and \<open>int\<close> on
  naturals and the characterisation of \<open>int\<close> on plain digit strings.
\<close>

section \<open>Character classes and case\<close>

abbreviation newline :: char where
  "newline \<equiv> CHR 0x0A"

abbreviation dquote :: char where
  "dquote \<equiv> CHR 0x22"

definition is_upper :: "char \<Rightarrow> bool" where
  "is_upper c \<longleftrightarrow> CHR ''A'' \<le> c \<and> c \<le> CHR ''Z''"

definition is_lower :: "char \<Rightarrow> bool" where
  "is_lower c \<longleftrightarrow> CHR ''a'' \<le> c \<and> c \<le> CHR ''z''"

definition is_digit :: "char \<Rightarrow> bool" where
  "is_digit c \<longleftrightarrow> CHR ''0'' \<le> c \<and> c \<le> CHR ''9''"

definition lower_char :: "char \<Rightarrow> char" where
  "lower_char c = (if is_upper c then char_of (of_char c + (32::nat)) else c)"

definition py_lower :: "string \<Rightarrow> string" where
  "py_lower s = map lower_char s"

definition py_startswith :: "string \<Rightarrow> string \<Rightarrow> bool" where
  "py_startswith s p \<longleftrightarrow> take (length p) s = p"

definition py_isspace :: "char \<Rightarrow> bool" where
  "py_isspace c \<longleftrightarrow> (of_char c :: nat) \<in> {9, 10, 11, 12, 13, 28, 29, 30, 31, 32}"

definition py_strip :: "string \<Rightarrow> string" where
  "py_strip s = rev (dropWhile py_isspace (rev (dropWhile py_isspace s)))"

section \<open>\<open>int(s, base)\<close>\<close>

definition digit_value :: "char \<Rightarrow> nat option" where
  "digit_value c =
     (let n = (of_char c :: nat) in
      if 48 \<le> n \<and> n \<le> 57 then Some (n - 48)
      else if 97 \<le> n \<and> n \<le> 102 then Some (n - 87)
      else if 65 \<le> n \<and> n \<le> 70 then Some (n - 55)
      else None)"

text \<open>
  The digit part: \<open>us\<close> says whether an underscore may come next, \<open>pd\<close> whether
  the last character read was a digit (the only place the text may end).
\<close>

fun parse_digits :: "nat \<Rightarrow> bool \<Rightarrow> bool \<Rightarrow> nat \<Rightarrow> string \<Rightarrow> nat option" where
  "parse_digits b us pd acc [] = (if pd then Some acc else None)"
| "parse_digits b us pd acc (c # cs) =
     (if c = CHR ''_'' then (if us then parse_digits b False False acc cs else None)
      else (case digit_value c of
              Some d \<Rightarrow> if d < b then parse_digits b True True (acc * b + d) cs else None
            | None \<Rightarrow> None))"

definition split_sign :: "string \<Rightarrow> bool \<times> string" where
  "split_sign s =
     (case s of
        c # r \<Rightarrow> if c = CHR ''-'' then (True, r) else if c = CHR ''+'' then (False, r) else (False, s)
      | [] \<Rightarrow> (False, []))"

definition py_int :: "nat \<Rightarrow> string \<Rightarrow> int option" where
  "py_int b s =
     (let (neg, t) = split_sign (py_strip s);
          (us, t') = (if b = 16 \<and> (take 2 t = ''0x'' \<or> take 2 t = ''0X'') then (True, drop 2 t)
                      else (False, t))
      in map_option (\<lambda>n. if neg then - int n else int n) (parse_digits b us False 0 t'))"

section \<open>\<open>str(n)\<close>\<close>

fun py_str_nat :: "nat \<Rightarrow> string" where
  "py_str_nat n =
     (if n < 10 then [char_of (48 + n)] else py_str_nat (n div 10) @ [char_of (48 + n mod 10)])"

declare py_str_nat.simps [simp del]

text \<open>On a string of digits of the base with no underscore, \<open>parse_digits\<close> is Horner's rule.\<close>

definition digits_val :: "nat \<Rightarrow> nat \<Rightarrow> string \<Rightarrow> nat" where
  "digits_val b acc s = foldl (\<lambda>a c. a * b + the (digit_value c)) acc s"

section \<open>\<open>str.join\<close>\<close>

fun py_join :: "string \<Rightarrow> string list \<Rightarrow> string" where
  "py_join sep [] = []"
| "py_join sep [x] = x"
| "py_join sep (x # y # xs) = x @ sep @ py_join sep (y # xs)"

section \<open>Lemmas\<close>

lemma lower_char_not_upper [simp]: "\<not> is_upper (lower_char c)"
  by (auto simp: lower_char_def is_upper_def less_eq_char_def)

lemma lower_char_id: "\<not> is_upper c \<Longrightarrow> lower_char c = c"
  by (simp add: lower_char_def)

lemma of_char_lower_upper:
  "is_upper c \<Longrightarrow> (of_char (lower_char c) :: nat) = of_char c + 32"
  by (simp add: lower_char_def is_upper_def less_eq_char_def of_char_of)

lemma lower_char_idem [simp]: "lower_char (lower_char c) = lower_char c"
  by (rule lower_char_id [OF lower_char_not_upper])

lemma py_lower_idem [simp]: "py_lower (py_lower s) = py_lower s"
  by (simp add: py_lower_def)

lemma py_lower_append [simp]: "py_lower (s @ t) = py_lower s @ py_lower t"
  by (simp add: py_lower_def)

lemma py_startswith_iff: "py_startswith s p \<longleftrightarrow> (\<exists>r. s = p @ r)"
proof
  assume "py_startswith s p"
  then have "s = p @ drop (length p) s"
    by (metis append_take_drop_id py_startswith_def)
  then show "\<exists>r. s = p @ r" ..
next
  assume "\<exists>r. s = p @ r"
  then show "py_startswith s p" by (auto simp: py_startswith_def)
qed

lemma of_char_digit: "(d::nat) < 10 \<Longrightarrow> (of_char (char_of (48 + d) :: char) :: nat) = 48 + d"
  by (simp add: of_char_of)

lemma char_of_digit [simp]: "(d::nat) < 10 \<Longrightarrow> digit_value (char_of (48 + d)) = Some d"
  by (simp add: digit_value_def Let_def of_char_digit)

lemma is_digit_char_of [simp]: "(d::nat) < 10 \<Longrightarrow> is_digit (char_of (48 + d))"
  by (simp add: is_digit_def less_eq_char_def of_char_digit)

lemma digit_value_is_digit: "digit_value c = Some d \<Longrightarrow> d < 10 \<Longrightarrow> is_digit c"
  by (auto simp: digit_value_def is_digit_def less_eq_char_def Let_def split: if_splits)

lemma parse_digits_plain:
  assumes "\<forall>c\<in>set s. \<exists>d. digit_value c = Some d \<and> d < b" and "s \<noteq> [] \<or> pd"
  shows "parse_digits b us pd acc s = Some (digits_val b acc s)"
  using assms
proof (induction s arbitrary: us pd acc)
  case Nil
  then show ?case by (simp add: digits_val_def)
next
  case (Cons c s)
  from Cons.prems obtain d where d: "digit_value c = Some d" "d < b" by auto
  have "c \<noteq> CHR ''_''" using d by (auto simp: digit_value_def)
  with d Cons.IH [of True True "acc * b + d"] Cons.prems show ?case
    by (simp add: digits_val_def)
qed

lemma py_str_nat_digits: "\<forall>c\<in>set (py_str_nat n). \<exists>d. digit_value c = Some d \<and> d < 10"
proof (induction n rule: py_str_nat.induct)
  case (1 n)
  then show ?case by (subst py_str_nat.simps) auto
qed

lemma py_str_nat_not_Nil [simp]: "py_str_nat n \<noteq> []"
  by (subst py_str_nat.simps) simp

lemma digits_val_py_str_nat: "digits_val 10 0 (py_str_nat n) = n"
proof (induction n rule: py_str_nat.induct)
  case (1 n)
  show ?case
  proof (cases "n < 10")
    case True
    then show ?thesis by (subst py_str_nat.simps) (simp add: digits_val_def)
  next
    case False
    with "1.IH" have "digits_val 10 0 (py_str_nat (n div 10)) = n div 10" by simp
    with False show ?thesis
      by (subst py_str_nat.simps) (simp add: digits_val_def)
  qed
qed

lemma py_str_nat_inj: "py_str_nat m = py_str_nat n \<Longrightarrow> m = n"
  by (metis digits_val_py_str_nat)

lemma dropWhile_none: "\<forall>c\<in>set s. \<not> P c \<Longrightarrow> dropWhile P s = s"
  by (induction s) auto

lemma digit_not_space: "is_digit c \<Longrightarrow> \<not> py_isspace c"
  by (auto simp: is_digit_def py_isspace_def less_eq_char_def)

lemma py_strip_digits: "\<forall>c\<in>set s. is_digit c \<Longrightarrow> py_strip s = s"
  by (simp add: py_strip_def dropWhile_none digit_not_space)

lemma py_str_nat_is_digit: "\<forall>c\<in>set (py_str_nat n). is_digit c"
  using py_str_nat_digits digit_value_is_digit by blast

text \<open>\<open>int(str(n))\<close> gives \<open>n\<close> back.\<close>

lemma py_int_py_str_nat [simp]: "py_int 10 (py_str_nat n) = Some (int n)"
proof -
  obtain c cs where cs: "py_str_nat n = c # cs"
    using py_str_nat_not_Nil by (cases "py_str_nat n") auto
  have "is_digit c" using py_str_nat_is_digit [of n] cs by simp
  then have "c \<noteq> CHR ''-''" and "c \<noteq> CHR ''+''"
    by (auto simp: is_digit_def less_eq_char_def)
  then have "split_sign (py_str_nat n) = (False, py_str_nat n)"
    using cs by (simp add: split_sign_def)
  moreover have "parse_digits 10 False False 0 (py_str_nat n) = Some n"
    using parse_digits_plain [OF py_str_nat_digits] digits_val_py_str_nat by simp
  ultimately show ?thesis
    by (simp add: py_int_def py_strip_digits py_str_nat_is_digit)
qed




lemma py_join_Cons: "py_join sep (x # xs) = x @ concat (map (\<lambda>y. sep @ y) xs)"
  by (induction xs arbitrary: x) auto

lemma takeWhile_digits:
  "\<forall>c\<in>set a. is_digit c \<Longrightarrow> x = [] \<or> \<not> is_digit (hd x) \<Longrightarrow> takeWhile is_digit (a @ x) = a"
  by (cases x) (auto simp: takeWhile_append2)

lemma digits_append_inj:
  assumes "\<forall>c\<in>set a. is_digit c" "\<forall>c\<in>set b. is_digit c"
    and "x = [] \<or> \<not> is_digit (hd x)" "y = [] \<or> \<not> is_digit (hd y)" and "a @ x = b @ y"
  shows "a = b \<and> x = y"
proof -
  have "a = b"
    using takeWhile_digits [OF assms(1,3)] takeWhile_digits [OF assms(2,4)] assms(5) by simp
  with assms(5) show ?thesis by simp
qed

lemma py_lower_no_upper_id: "\<not> list_ex is_upper k \<Longrightarrow> py_lower k = k"
  by (induction k) (simp_all add: py_lower_def lower_char_id)

lemma py_lower_space [simp]: "py_lower (CHR '' '' # k) = CHR '' '' # py_lower k"
  by (simp add: py_lower_def lower_char_def is_upper_def)

end
