(* ===== verification/Hjson.thy ===== *)
theory Hjson
  imports PyStr
begin

text \<open>
  The values the HJSON loader hands to the generator, and the Python operations the
  generator applies to them: truthiness, \<open>dict.get\<close>, subscription, iteration and
  \<open>isinstance(_, dict)\<close>. A mapping is an association list in document order; the
  loader's \<open>None\<close> is \<open>HNull\<close>. Operations that Python rejects on a value of the
  wrong type raise the same exception here (\<open>AttributeError\<close> for \<open>.get\<close> on a
  non-mapping, \<open>TypeError\<close> for iterating a number, \<open>KeyError\<close> for a missing key).
\<close>

datatype hval =
    HNull
  | HBool bool
  | HNum int
  | HStr string
  | HList "hval list"
  | HDict "(string \<times> hval) list"

fun py_truthy :: "hval \<Rightarrow> bool" where
  "py_truthy HNull = False"
| "py_truthy (HBool b) = b"
| "py_truthy (HNum n) = (n \<noteq> 0)"
| "py_truthy (HStr s) = (s \<noteq> [])"
| "py_truthy (HList xs) = (xs \<noteq> [])"
| "py_truthy (HDict d) = (d \<noteq> [])"

text \<open>\<open>v.get(k, default)\<close>; \<open>v.get(k)\<close> is the default \<open>HNull\<close>.\<close>

fun hget_default :: "hval \<Rightarrow> string \<Rightarrow> hval \<Rightarrow> hval result" where
  "hget_default (HDict d) k dflt = Inr (case map_of d k of None \<Rightarrow> dflt | Some v \<Rightarrow> v)"
| "hget_default _ k dflt = Inl AttributeError"

abbreviation hget :: "hval \<Rightarrow> string \<Rightarrow> hval result" where
  "hget v k \<equiv> hget_default v k HNull"

text \<open>\<open>v[k]\<close> on a mapping.\<close>

fun hsubscript :: "hval \<Rightarrow> string \<Rightarrow> hval result" where
  "hsubscript (HDict d) k = (case map_of d k of None \<Rightarrow> Inl KeyError | Some v \<Rightarrow> Inr v)"
| "hsubscript _ k = Inl TypeError"

text \<open>\<open>for x in v\<close>: a list yields its items, a mapping its keys, a string its characters.\<close>

fun hiter :: "hval \<Rightarrow> hval list result" where
  "hiter (HList xs) = Inr xs"
| "hiter (HDict d) = Inr (map (\<lambda>(k, _). HStr k) d)"
| "hiter (HStr s) = Inr (map (\<lambda>c. HStr [c]) s)"
| "hiter _ = Inl TypeError"

fun is_hdict :: "hval \<Rightarrow> bool" where
  "is_hdict (HDict _) = True"
| "is_hdict _ = False"

lemma hget_HDict [simp]: "hget_default (HDict d) k dflt = Inr (case map_of d k of None \<Rightarrow> dflt | Some v \<Rightarrow> v)"
  by simp

lemma hget_not_dict: "\<not> is_hdict v \<Longrightarrow> hget_default v k dflt = Inl AttributeError"
  by (cases v) auto

end
