(* ===== verification/Config.thy ===== *)
theory Config
  imports Hjson
begin

text \<open>
  The state of the generator: class \<open>OtConfiguration\<close> of \<open>cfggen.py\<close>, one record field
  per attribute set in \<open>__init__\<close>. The four ranges are pairs of raw keys, \<open>('', '')\<close>
  until a load sets them; \<open>roms\<close> maps an optional bank index to that bank's fields;
  \<open>otp\<close> and \<open>lc\<close> are the OTP and life-cycle field maps.
\<close>

type_synonym table = "(string, string) pydict"
type_synonym romtab = "(nat option, table) pydict"

record ot_configuration =
  lc_states :: "string \<times> string"
  lc_transitions :: "string \<times> string"
  socdbg :: "string \<times> string"
  ownership :: "string \<times> string"
  roms :: romtab
  otp :: table
  lc :: table
  top_name :: hval

definition OtConfiguration :: ot_configuration where
  "OtConfiguration =
     \<lparr>lc_states = ('''', ''''), lc_transitions = ('''', ''''), socdbg = ('''', ''''),
      ownership = ('''', ''''), roms = [], otp = [], lc = [], top_name = HNull\<rparr>"

text \<open>
  The parts of the state each load writes: the life-cycle part (ranges and tokens) is
  written by \<open>load_lifecycle\<close> only, the top part (ROM banks, OTP fields, top name) by
  \<open>load_top_config\<close> and \<open>load_otp_constants\<close>.
\<close>

definition lc_part :: "ot_configuration \<Rightarrow> (string \<times> string) list \<times> table" where
  "lc_part c = ([lc_states c, lc_transitions c, socdbg c, ownership c], lc c)"

definition top_part :: "ot_configuration \<Rightarrow> romtab \<times> table \<times> hval" where
  "top_part c = (roms c, otp c, top_name c)"

end
