(* ===== verification/Lifecycle.thy ===== *)
theory Lifecycle
  imports Config
begin

text \<open>
  The Range Extractor: \<open>OtConfiguration.load_lifecycle\<close> (\<open>cfggen.py\<close> lines 80-121).
  The life-cycle RTL reader \<open>OtpLifecycle\<close> lives outside \<open>src/\<close>; the generator only
  sees the tables it returns, so the reader is the record \<open>lc_ext\<close> of its answers:
  \<open>get_configuration name\<close> (a key-ordered table, or \<open>None\<close>) and the token map of
  \<open>get_tokens(False, False)\<close>. The four ranges share one block of code, modelled once
  as \<open>lc_range\<close>: drop every key whose base-16 value is zero, then take the first and the
  last remaining key in table order. Logging reads \<open>int()\<close> of the two transition
  values, which raises on a non-decimal value; that is part of the model.
\<close>

record lc_ext =
  get_configuration :: "string \<Rightarrow> table option"
  lc_tokens :: table

text \<open>Python's \<open>not t\<close> on a table that may be \<open>None\<close>: \<open>py_table t = []\<close>.\<close>

definition py_table :: "table option \<Rightarrow> table" where
  "py_table t = (case t of None \<Rightarrow> [] | Some d \<Rightarrow> d)"

text \<open>\<open>{s for s in t if int(s, 16) == 0}\<close>, raising on the first key that is not hexadecimal.\<close>

fun zero_keys :: "table \<Rightarrow> string list result" where
  "zero_keys [] = Inr []"
| "zero_keys ((k, v) # d) =
     (case py_int 16 k of
        None \<Rightarrow> Inl (ValueError ''invalid literal for int()'')
      | Some n \<Rightarrow> rbind (zero_keys d) (\<lambda>zs. Inr (if n = 0 then k # zs else zs)))"

text \<open>\<open>for raw in ...: del t[raw]\<close>\<close>

definition drop_zero_keys :: "table \<Rightarrow> table result" where
  "drop_zero_keys t = rbind (zero_keys t) (\<lambda>zs. Inr (fold (\<lambda>k d. dict_del d k) zs t))"

text \<open>\<open>o = list(t); (o[0], o[-1])\<close>: \<open>IndexError\<close> on an empty table.\<close>

definition first_last :: "table \<Rightarrow> (string \<times> string) result" where
  "first_last t = (if t = [] then Inl IndexError else Inr (fst (hd t), fst (last t)))"

definition lc_range :: "table \<Rightarrow> (table \<times> (string \<times> string)) result" where
  "lc_range t = rbind (drop_zero_keys t) (\<lambda>t'. rbind (first_last t') (\<lambda>r. Inr (t', r)))"

text \<open>The log line of the transitions: \<open>int(trans[first])\<close>, \<open>int(trans[last])\<close>.\<close>

definition log_int_values :: "table \<Rightarrow> string \<times> string \<Rightarrow> unit result" where
  "log_int_values t r =
     (case (map_of t (fst r), map_of t (snd r)) of
        (Some a, Some b) \<Rightarrow>
          if py_int 10 a = None \<or> py_int 10 b = None
          then Inl (ValueError ''invalid literal for int()'') else Inr ()
      | _ \<Rightarrow> Inl KeyError)"

text \<open>\<open>socdbg\<close> and \<open>ownership\<close>: \<open>if t: ...\<close>, the range unchanged otherwise.\<close>

definition load_optional_range :: "table option \<Rightarrow> string \<times> string \<Rightarrow> (string \<times> string) result" where
  "load_optional_range t cur =
     (if py_table t = [] then Inr cur else rbind (lc_range (py_table t)) (\<lambda>(_, r). Inr r))"

definition load_lifecycle :: "lc_ext \<Rightarrow> ot_configuration \<Rightarrow> ot_configuration result" where
  "load_lifecycle lcext c =
     (let states = py_table (get_configuration lcext ''LC_STATE'') in
      if states = [] then Inl (ValueError ''Cannot obtain LifeCycle states'') else
      rbind (lc_range states) (\<lambda>(_, st).
      let c1 = c\<lparr>lc_states := st\<rparr>;
          trans = py_table (get_configuration lcext ''LC_TRANSITION_CNT'') in
      if trans = [] then Inl (ValueError ''Cannot obtain LifeCycle transitions'') else
      rbind (lc_range trans) (\<lambda>(trans', tr).
      rbind (log_int_values trans' tr) (\<lambda>_.
      let c2 = c1\<lparr>lc_transitions := tr, lc := dict_update (lc c1) (lc_tokens lcext)\<rparr> in
      rbind (load_optional_range (get_configuration lcext ''SOCDBG'') (socdbg c2)) (\<lambda>sd.
      let c3 = c2\<lparr>socdbg := sd\<rparr> in
      rbind (load_optional_range (get_configuration lcext ''OWNERSHIP'') (ownership c3)) (\<lambda>ow.
      Inr (c3\<lparr>ownership := ow\<rparr>)))))))"

section \<open>The zero filter\<close>

definition hex_valid :: "string \<Rightarrow> bool" where
  "hex_valid k \<longleftrightarrow> py_int 16 k \<noteq> None"

definition hex_nonzero :: "string \<Rightarrow> bool" where
  "hex_nonzero k \<longleftrightarrow> py_int 16 k \<noteq> Some 0"

text \<open>A table a range can be read from: hexadecimal keys, one of them non-zero.\<close>

definition range_ok :: "table \<Rightarrow> bool" where
  "range_ok t \<longleftrightarrow> (\<forall>k\<in>set (dict_keys t). hex_valid k) \<and> (\<exists>k\<in>set (dict_keys t). hex_nonzero k)"

text \<open>Reader answers used by the examples below: a small life-cycle package.\<close>

definition demo_lc_ext :: lc_ext where
  "demo_lc_ext =
     \<lparr>get_configuration = (\<lambda>n.
        if n = ''LC_STATE'' then Some [(''0'', ''RAW''), (''1'', ''TEST_UNLOCKED0''), (''2'', ''PROD'')]
        else if n = ''LC_TRANSITION_CNT'' then Some [(''0'', ''0''), (''1'', ''1''), (''18'', ''24'')]
        else if n = ''OWNERSHIP'' then Some []
        else None),
      lc_tokens = [(''test_unlock_token'', ''0x1234'')]\<rparr>"

lemma zero_keys_Inr:
  "\<forall>k\<in>set (dict_keys t). hex_valid k \<Longrightarrow>
   \<exists>zs. zero_keys t = Inr zs \<and> set zs = {k \<in> set (dict_keys t). \<not> hex_nonzero k}"
proof (induction t)
  case Nil
  then show ?case by simp
next
  case (Cons e t)
  obtain k v where e: "e = (k, v)" by fastforce
  from Cons.prems e obtain n where n: "py_int 16 k = Some n" by (auto simp: hex_valid_def)
  from Cons obtain zs where zs: "zero_keys t = Inr zs"
    and set_zs: "set zs = {k \<in> set (dict_keys t). \<not> hex_nonzero k}" by auto
  show ?case using e n zs set_zs by (auto simp: hex_nonzero_def)
qed

lemma zero_keys_invalid:
  "\<exists>k\<in>set (dict_keys t). \<not> hex_valid k \<Longrightarrow> zero_keys t = Inl (ValueError ''invalid literal for int()'')"
proof (induction t)
  case Nil
  then show ?case by simp
next
  case (Cons e t)
  obtain k v where e: "e = (k, v)" by fastforce
  show ?case
  proof (cases "py_int 16 k")
    case None
    with e show ?thesis by simp
  next
    case (Some n)
    with Cons.prems e have "\<exists>k\<in>set (dict_keys t). \<not> hex_valid k" by (auto simp: hex_valid_def)
    with Cons.IH Some e show ?thesis by simp
  qed
qed

lemma drop_zero_keys_valid:
  "\<forall>k\<in>set (dict_keys t). hex_valid k \<Longrightarrow>
   drop_zero_keys t = Inr (filter (\<lambda>(k, _). hex_nonzero k) t)"
proof -
  assume "\<forall>k\<in>set (dict_keys t). hex_valid k"
  then obtain zs where zs: "zero_keys t = Inr zs"
    and set_zs: "set zs = {k \<in> set (dict_keys t). \<not> hex_nonzero k}"
    using zero_keys_Inr by blast
  have "filter (\<lambda>(k, _). k \<notin> set zs) t = filter (\<lambda>(k, _). hex_nonzero k) t"
    using set_zs by (intro filter_cong) force+
  then show ?thesis by (simp add: drop_zero_keys_def zs fold_dict_del)
qed

lemma drop_zero_keys_invalid:
  "\<exists>k\<in>set (dict_keys t). \<not> hex_valid k \<Longrightarrow>
   drop_zero_keys t = Inl (ValueError ''invalid literal for int()'')"
  by (simp add: drop_zero_keys_def zero_keys_invalid)

lemma lc_range_Inr_iff [result_iff]:
  "lc_range t = Inr (t', r) \<longleftrightarrow>
     (\<forall>k\<in>set (dict_keys t). hex_valid k) \<and> t' = filter (\<lambda>(k, _). hex_nonzero k) t \<and>
     t' \<noteq> [] \<and> r = (fst (hd t'), fst (last t'))"
proof (cases "\<forall>k\<in>set (dict_keys t). hex_valid k")
  case True
  then show ?thesis
    by (auto simp: lc_range_def drop_zero_keys_valid first_last_def)
next
  case False
  then show ?thesis
    by (auto simp: lc_range_def drop_zero_keys_invalid)
qed

lemma lc_range_keys:
  assumes "lc_range t = Inr (t', (a, b))"
  shows "hex_nonzero a \<and> hex_nonzero b \<and> a \<in> set (dict_keys t') \<and> b \<in> set (dict_keys t')"
proof -
  from assms have t': "t' = filter (\<lambda>(k, _). hex_nonzero k) t" and ne: "t' \<noteq> []"
    and ab: "a = fst (hd t')" "b = fst (last t')"
    by (auto simp: result_iff)
  from ne have "hd t' \<in> set t'" "last t' \<in> set t'" by auto
  with t' ab show ?thesis by auto
qed

lemma log_int_values_Inr [result_iff]:
  "log_int_values t (a, b) = Inr u \<longleftrightarrow>
     (\<exists>x y. map_of t a = Some x \<and> map_of t b = Some y \<and> py_int 10 x \<noteq> None \<and> py_int 10 y \<noteq> None)"
  by (auto simp: log_int_values_def split: option.splits)

lemma load_optional_range_Inr [result_iff]:
  "load_optional_range t cur = Inr r \<longleftrightarrow>
     (py_table t = [] \<and> r = cur) \<or> (py_table t \<noteq> [] \<and> (\<exists>t'. lc_range (py_table t) = Inr (t', r)))"
  by (auto simp: load_optional_range_def result_iff split: prod.splits)

section \<open>The whole load\<close>

text \<open>
  The successful runs of \<open>load_lifecycle\<close>, step by step: the lemma every property of the
  load is read from.
\<close>

lemma load_lifecycle_Inr:
  "load_lifecycle e c = Inr c' \<longleftrightarrow>
     (\<exists>t1 st t2 tr sd ow.
        py_table (get_configuration e ''LC_STATE'') \<noteq> [] \<and>
        lc_range (py_table (get_configuration e ''LC_STATE'')) = Inr (t1, st) \<and>
        py_table (get_configuration e ''LC_TRANSITION_CNT'') \<noteq> [] \<and>
        lc_range (py_table (get_configuration e ''LC_TRANSITION_CNT'')) = Inr (t2, tr) \<and>
        log_int_values t2 tr = Inr () \<and>
        load_optional_range (get_configuration e ''SOCDBG'') (socdbg c) = Inr sd \<and>
        load_optional_range (get_configuration e ''OWNERSHIP'') (ownership c) = Inr ow \<and>
        c' = c\<lparr>lc_states := st, lc_transitions := tr, lc := dict_update (lc c) (lc_tokens e),
               socdbg := sd, ownership := ow\<rparr>)"
  by (auto simp: load_lifecycle_def Let_def rbind_eq_Inr split: prod.splits)

lemma load_lifecycle_frame:
  "load_lifecycle e c = Inr c' \<Longrightarrow>
   roms c' = roms c \<and> otp c' = otp c \<and> top_name c' = top_name c \<and>
   lc c' = dict_update (lc c) (lc_tokens e)"
  by (auto simp: load_lifecycle_Inr)

lemma range_ok_lc_range:
  assumes "range_ok t"
  shows "\<exists>a b. lc_range t = Inr (filter (\<lambda>(k, _). hex_nonzero k) t, (a, b))"
proof -
  from assms have v: "\<forall>k\<in>set (dict_keys t). hex_valid k" and "\<exists>k\<in>set (dict_keys t). hex_nonzero k"
    by (simp_all add: range_ok_def)
  then have "filter (\<lambda>(k, _). hex_nonzero k) t \<noteq> []"
    by (auto simp: filter_empty_conv)
  with v show ?thesis by (simp add: lc_range_Inr_iff)
qed

lemma log_int_values_ok:
  assumes "a \<in> set (dict_keys t)" and "b \<in> set (dict_keys t)"
    and "\<forall>(_, v)\<in>set t. py_int 10 v \<noteq> None"
  shows "log_int_values t (a, b) = Inr ()"
proof -
  from assms(1,2) have "map_of t a \<noteq> None" "map_of t b \<noteq> None"
    by (simp_all add: map_of_eq_None_iff)
  then obtain x y where "map_of t a = Some x" "map_of t b = Some y" by blast
  moreover from this have "(a, x) \<in> set t" "(b, y) \<in> set t" by (auto dest: map_of_SomeD)
  ultimately show ?thesis using assms(3) by (auto simp: log_int_values_Inr)
qed

lemma load_optional_range_ok:
  assumes "py_table t = [] \<or> range_ok (py_table t)"
  shows "\<exists>r. load_optional_range t cur = Inr r"
proof (cases "py_table t = []")
  case True
  then show ?thesis by (simp add: load_optional_range_def)
next
  case False
  with assms obtain t' a b where "lc_range (py_table t) = Inr (t', (a, b))"
    using range_ok_lc_range by blast
  with False show ?thesis by (auto simp: load_optional_range_def)
qed

section \<open>Properties of the Range Extractor\<close>

text \<open>
  C1. On a table whose keys are all hexadecimal and one of which is non-zero, the range
  extractor returns: the keys with a non-zero value, in table order, and the first and the
  last of them. It is neither a numeric minimum nor a maximum.
\<close>

theorem lc_range_total:
  assumes "\<forall>k\<in>set (dict_keys t). hex_valid k" and "\<exists>k\<in>set (dict_keys t). hex_nonzero k"
  shows "lc_range t =
           Inr (filter (\<lambda>(k, _). hex_nonzero k) t,
                (fst (hd (filter (\<lambda>(k, _). hex_nonzero k) t)),
                 fst (last (filter (\<lambda>(k, _). hex_nonzero k) t))))"
proof -
  from assms(2) have "filter (\<lambda>(k, _). hex_nonzero k) t \<noteq> []"
    by (auto simp: filter_empty_conv)
  with assms(1) show ?thesis by (simp add: lc_range_Inr_iff)
qed

theorem lc_range_total_witness:
  "list_all hex_valid (dict_keys [(''0'', ''x''), (''3'', ''LAST''), (''1'', ''FIRST'')]) \<and>
   (\<exists>k\<in>set (dict_keys [(''0'', ''x''), (''3'', ''LAST''), (''1'', ''FIRST'')]). hex_nonzero k) \<and>
   lc_range [(''0'', ''x''), (''3'', ''LAST''), (''1'', ''FIRST'')] =
     Inr ([(''3'', ''LAST''), (''1'', ''FIRST'')], (''3'', ''1''))"
proof -
  have h1: "\<forall>k\<in>set (dict_keys [(''0'', ''x''), (''3'', ''LAST''), (''1'', ''FIRST'')]). hex_valid k"
    by code_simp
  have h2: "\<exists>k\<in>set (dict_keys [(''0'', ''x''), (''3'', ''LAST''), (''1'', ''FIRST'')]). hex_nonzero k"
    by code_simp
  have f: "filter (\<lambda>(k, _). hex_nonzero k) [(''0'', ''x''), (''3'', ''LAST''), (''1'', ''FIRST'')] =
           [(''3'', ''LAST''), (''1'', ''FIRST'')]"
    by code_simp
  show ?thesis using h1 h2 lc_range_total [OF h1 h2] f by (simp add: list_all_iff)
qed

text \<open>
  C2. Whatever table the extractor succeeds on, both ends of the range are keys of the
  table with a non-zero hexadecimal value.
\<close>

theorem lc_range_ends_nonzero:
  assumes "lc_range t = Inr (t', (a, b))"
  shows "hex_nonzero a \<and> hex_nonzero b \<and> a \<in> set (dict_keys t) \<and> b \<in> set (dict_keys t)"
proof -
  from assms have "set t' \<subseteq> set t" by (auto simp: result_iff)
  then show ?thesis using lc_range_keys [OF assms] by auto
qed

theorem lc_range_ends_nonzero_witness:
  "lc_range [(''0'', ''x''), (''2'', ''MID'')] = Inr ([(''2'', ''MID'')], (''2'', ''2'')) \<and>
   hex_nonzero ''2'' \<and> ''2'' \<in> set (dict_keys [(''0'', ''x''), (''2'', ''MID'')])"
proof -
  have h: "lc_range [(''0'', ''x''), (''2'', ''MID'')] = Inr ([(''2'', ''MID'')], (''2'', ''2''))"
    by code_simp
  show ?thesis using h lc_range_ends_nonzero [OF h] by simp
qed

text \<open>
  C3. A table whose keys are all hexadecimal zero (the reset encodings only) makes the
  extractor fail with \<open>IndexError\<close> from \<open>ostates[0]\<close>, not with the missing-data error
  the specification names; a key that is not hexadecimal makes it fail with \<open>ValueError\<close>.
\<close>

theorem lc_range_no_nonzero_key:
  assumes "t \<noteq> []" and "\<forall>k\<in>set (dict_keys t). hex_valid k \<and> \<not> hex_nonzero k"
  shows "lc_range t = Inl IndexError"
proof -
  from assms(2) have "drop_zero_keys t = Inr []"
    by (simp add: drop_zero_keys_valid filter_empty_conv split_def)
  then show ?thesis by (simp add: lc_range_def first_last_def)
qed

theorem lc_range_no_nonzero_key_witness:
  "[(''0'', ''RAW''), (''0x00'', ''RESET'')] \<noteq> [] \<and>
   list_all (\<lambda>k. hex_valid k \<and> \<not> hex_nonzero k) (dict_keys [(''0'', ''RAW''), (''0x00'', ''RESET'')]) \<and>
   lc_range [(''0'', ''RAW''), (''0x00'', ''RESET'')] = Inl IndexError"
proof -
  have h: "\<forall>k\<in>set (dict_keys [(''0'', ''RAW''), (''0x00'', ''RESET'')]). hex_valid k \<and> \<not> hex_nonzero k"
    by code_simp
  show ?thesis using h lc_range_no_nonzero_key [OF _ h] by (simp add: list_all_iff)
qed

text \<open>
  C4. A successful life-cycle load stores the state range and the transition-count range
  the extractor reads from the \<open>LC_STATE\<close> and \<open>LC_TRANSITION_CNT\<close> tables, merges
  the reader's tokens into the life-cycle map, and leaves the ROM, OTP and top-name
  fields as they were.
\<close>

theorem load_lifecycle_result:
  assumes "load_lifecycle e c = Inr c'"
  shows "(\<exists>t. lc_range (py_table (get_configuration e ''LC_STATE'')) = Inr (t, lc_states c')) \<and>
         (\<exists>t. lc_range (py_table (get_configuration e ''LC_TRANSITION_CNT'')) = Inr (t, lc_transitions c')) \<and>
         lc c' = dict_update (lc c) (lc_tokens e) \<and>
         roms c' = roms c \<and> otp c' = otp c \<and> top_name c' = top_name c"
  using assms by (auto simp: load_lifecycle_Inr)

theorem load_lifecycle_result_witness:
  "load_lifecycle demo_lc_ext OtConfiguration =
     Inr (OtConfiguration\<lparr>lc_states := (''1'', ''2''), lc_transitions := (''1'', ''18''),
                           lc := [(''test_unlock_token'', ''0x1234'')]\<rparr>) \<and>
   (\<exists>t. lc_range [(''0'', ''RAW''), (''1'', ''TEST_UNLOCKED0''), (''2'', ''PROD'')] =
     Inr (t, (''1'', ''2'')))"
proof -
  have h: "load_lifecycle demo_lc_ext OtConfiguration =
     Inr (OtConfiguration\<lparr>lc_states := (''1'', ''2''), lc_transitions := (''1'', ''18''),
                           lc := [(''test_unlock_token'', ''0x1234'')]\<rparr>)"
    by code_simp
  have s: "py_table (get_configuration demo_lc_ext ''LC_STATE'') =
           [(''0'', ''RAW''), (''1'', ''TEST_UNLOCKED0''), (''2'', ''PROD'')]"
    by (simp add: demo_lc_ext_def py_table_def)
  from load_lifecycle_result [OF h] have
    "\<exists>t. lc_range (py_table (get_configuration demo_lc_ext ''LC_STATE'')) = Inr (t, (''1'', ''2''))"
    by simp
  then show ?thesis using h s by simp
qed

text \<open>
  C5. Without a \<open>LC_STATE\<close> table (absent or empty) the load fails with the
  \<open>ValueError\<close> 'Cannot obtain LifeCycle states' before any state is changed.
\<close>

theorem load_lifecycle_no_states:
  assumes "py_table (get_configuration e ''LC_STATE'') = []"
  shows "load_lifecycle e c = Inl (ValueError ''Cannot obtain LifeCycle states'')"
  using assms by (simp add: load_lifecycle_def)

theorem load_lifecycle_no_states_witness:
  "py_table (get_configuration \<lparr>get_configuration = (\<lambda>_. None), lc_tokens = []\<rparr> ''LC_STATE'') = [] \<and>
   load_lifecycle \<lparr>get_configuration = (\<lambda>_. None), lc_tokens = []\<rparr> OtConfiguration =
     Inl (ValueError ''Cannot obtain LifeCycle states'')"
proof -
  have h: "py_table (get_configuration \<lparr>get_configuration = (\<lambda>_. None), lc_tokens = []\<rparr> ''LC_STATE'') = []"
    by (simp add: py_table_def)
  show ?thesis using h load_lifecycle_no_states [OF h] by simp
qed

text \<open>
  C6. The load returns a configuration whenever the reader's tables allow it: the state and
  transition tables have hexadecimal keys with a non-zero one, the transition values are
  decimal (they are logged through \<open>int()\<close>), and the optional \<open>SOCDBG\<close> and
  \<open>OWNERSHIP\<close> tables are empty or have the same shape.
\<close>

theorem load_lifecycle_succeeds:
  assumes "range_ok (py_table (get_configuration e ''LC_STATE''))"
    and "range_ok (py_table (get_configuration e ''LC_TRANSITION_CNT''))"
    and "\<forall>(_, v)\<in>set (py_table (get_configuration e ''LC_TRANSITION_CNT'')). py_int 10 v \<noteq> None"
    and "py_table (get_configuration e ''SOCDBG'') = [] \<or> range_ok (py_table (get_configuration e ''SOCDBG''))"
    and "py_table (get_configuration e ''OWNERSHIP'') = [] \<or> range_ok (py_table (get_configuration e ''OWNERSHIP''))"
  shows "\<exists>c'. load_lifecycle e c = Inr c'"
proof -
  let ?S = "py_table (get_configuration e ''LC_STATE'')"
  let ?T = "py_table (get_configuration e ''LC_TRANSITION_CNT'')"
  let ?T' = "filter (\<lambda>(k, _). hex_nonzero k) ?T"
  obtain a b where S: "lc_range ?S = Inr (filter (\<lambda>(k, _). hex_nonzero k) ?S, (a, b))"
    using range_ok_lc_range [OF assms(1)] by blast
  obtain x y where T: "lc_range ?T = Inr (?T', (x, y))"
    using range_ok_lc_range [OF assms(2)] by blast
  have "x \<in> set (dict_keys ?T')" "y \<in> set (dict_keys ?T')"
    using lc_range_keys [OF T] by auto
  moreover have "\<forall>(_, v)\<in>set ?T'. py_int 10 v \<noteq> None" using assms(3) by auto
  ultimately have L: "log_int_values ?T' (x, y) = Inr ()" by (rule log_int_values_ok)
  obtain sd where SD: "load_optional_range (get_configuration e ''SOCDBG'') (socdbg c) = Inr sd"
    using load_optional_range_ok [OF assms(4)] by blast
  obtain ow where OW: "load_optional_range (get_configuration e ''OWNERSHIP'') (ownership c) = Inr ow"
    using load_optional_range_ok [OF assms(5)] by blast
  have "?S \<noteq> []" "?T \<noteq> []" using assms(1,2) by (auto simp: range_ok_def)
  with S T L SD OW show ?thesis by (auto simp: load_lifecycle_Inr)
qed

theorem load_lifecycle_succeeds_witness:
  "range_ok (py_table (get_configuration demo_lc_ext ''LC_STATE'')) \<and>
   range_ok (py_table (get_configuration demo_lc_ext ''LC_TRANSITION_CNT'')) \<and>
   list_all (\<lambda>(_, v). py_int 10 v \<noteq> None) (py_table (get_configuration demo_lc_ext ''LC_TRANSITION_CNT'')) \<and>
   py_table (get_configuration demo_lc_ext ''SOCDBG'') = [] \<and>
   py_table (get_configuration demo_lc_ext ''OWNERSHIP'') = [] \<and>
   (\<exists>c'. load_lifecycle demo_lc_ext OtConfiguration = Inr c')"
proof -
  have h1: "range_ok (py_table (get_configuration demo_lc_ext ''LC_STATE''))"
    by code_simp
  have h2: "range_ok (py_table (get_configuration demo_lc_ext ''LC_TRANSITION_CNT''))"
    by code_simp
  have h3: "\<forall>(_, v)\<in>set (py_table (get_configuration demo_lc_ext ''LC_TRANSITION_CNT'')). py_int 10 v \<noteq> None"
    by code_simp
  have h4: "py_table (get_configuration demo_lc_ext ''SOCDBG'') = []"
    by (simp add: demo_lc_ext_def py_table_def)
  have h5: "py_table (get_configuration demo_lc_ext ''OWNERSHIP'') = []"
    by (simp add: demo_lc_ext_def py_table_def)
  show ?thesis
    using h1 h2 h3 h4 h5 load_lifecycle_succeeds [OF h1 h2 h3, of OtConfiguration] by (simp add: list_all_iff)
qed

text \<open>
  C7. The log statement at line 101 converts the two transition values with a decimal
  \<open>int()\<close> before the log level is consulted: when the state and transition tables give
  ranges and either end of the transition range holds a value that is not a decimal
  literal, the load raises \<open>ValueError\<close>, whatever the other tables hold.
\<close>

theorem load_lifecycle_log_int_error:
  assumes "py_table (get_configuration e ''LC_STATE'') \<noteq> []"
    and "lc_range (py_table (get_configuration e ''LC_STATE'')) = Inr (t1, st)"
    and "py_table (get_configuration e ''LC_TRANSITION_CNT'') \<noteq> []"
    and "lc_range (py_table (get_configuration e ''LC_TRANSITION_CNT'')) = Inr (t2, (a, b))"
    and "map_of t2 a = Some va" and "map_of t2 b = Some vb"
    and "py_int 10 va = None \<or> py_int 10 vb = None"
  shows "load_lifecycle e c = Inl (ValueError ''invalid literal for int()'')"
  using assms by (auto simp: load_lifecycle_def log_int_values_def Let_def)

text \<open>The reader of the specification's scenario: states \<open>{0, 1, 2, 3}\<close>, transitions
  \<open>{0: 'y', 5: 'T5', 9: 'T9'}\<close>.\<close>

theorem load_lifecycle_log_int_error_witness:
  "load_lifecycle
     \<lparr>get_configuration = (\<lambda>n.
        if n = ''LC_STATE'' then Some [(''0'', ''x''), (''1'', ''FIRST''), (''2'', ''MID''), (''3'', ''LAST'')]
        else if n = ''LC_TRANSITION_CNT'' then Some [(''0'', ''y''), (''5'', ''T5''), (''9'', ''T9'')]
        else None),
      lc_tokens = []\<rparr> OtConfiguration =
   Inl (ValueError ''invalid literal for int()'')"
proof -
  let ?e = "\<lparr>get_configuration = (\<lambda>n.
        if n = ''LC_STATE'' then Some [(''0'', ''x''), (''1'', ''FIRST''), (''2'', ''MID''), (''3'', ''LAST'')]
        else if n = ''LC_TRANSITION_CNT'' then Some [(''0'', ''y''), (''5'', ''T5''), (''9'', ''T9'')]
        else None),
      lc_tokens = []\<rparr> :: lc_ext"
  have s: "py_table (get_configuration ?e ''LC_STATE'') = [(''0'', ''x''), (''1'', ''FIRST''), (''2'', ''MID''), (''3'', ''LAST'')]"
    and t: "py_table (get_configuration ?e ''LC_TRANSITION_CNT'') = [(''0'', ''y''), (''5'', ''T5''), (''9'', ''T9'')]"
    by (simp_all add: py_table_def)
  have rs: "lc_range [(''0'', ''x''), (''1'', ''FIRST''), (''2'', ''MID''), (''3'', ''LAST'')] =
      Inr ([(''1'', ''FIRST''), (''2'', ''MID''), (''3'', ''LAST'')], (''1'', ''3''))"
    and rt: "lc_range [(''0'', ''y''), (''5'', ''T5''), (''9'', ''T9'')] = Inr ([(''5'', ''T5''), (''9'', ''T9'')], (''5'', ''9''))"
    and bad: "py_int 10 ''T5'' = None"
    by code_simp+
  show ?thesis
    using load_lifecycle_log_int_error [of ?e, OF _ _ _ _ _ _ disjI1 [OF bad]] s t rs rt by simp
qed

end
