(* ===== verification/TopConfig.thy ===== *)
theory TopConfig
  imports Config
begin

text \<open>
  The Parameter Correlator: \<open>OtConfiguration.load_top_config\<close> and
  \<open>OtConfiguration._load_top_values\<close> (\<open>cfggen.py\<close> lines 63-78 and 153-178). It walks
  the HJSON top description, and for every \<open>rom_ctrl\<close> or \<open>otp_ctrl\<close> module matches the
  name of each parameter against the module's regular expression, shortens the captured
  group with \<open>camel_to_snake_case\<close>, strips a \<open>0x\<close> prefix from the default value and
  stores the pair, per ROM bank (the trailing number of the module name) or in the flat
  OTP map. The two regular expressions the code uses have the shape \<open>prefix(.*)suffix\<close>
  and are modelled as that pair of strings with Python's \<open>re.match\<close> semantics (match at
  the start, \<open>.*\<close> greedy and stopping at a newline). \<open>camel_to_snake_case\<close> comes
  from \<open>ot.util.misc\<close>, outside \<open>src/\<close>, and is modelled from the specification.
\<close>

section \<open>Regular expressions \<open>prefix(.*)suffix\<close>\<close>

type_synonym ot_param_regex = "string \<times> string"

definition rom_regex :: ot_param_regex where
  "rom_regex = (''RndCnstScr'', '''')"

definition otp_regex :: ot_param_regex where
  "otp_regex = (''RndCnst'', ''Init'')"

text \<open>
  \<open>re.match(prefix + '(.*)' + suffix, s).group(1)\<close>: the longest newline-free \<open>g\<close> with
  \<open>s = prefix @ g @ suffix @ rest\<close>, found by trying the lengths from the longest down.
\<close>

definition re_match_group :: "ot_param_regex \<Rightarrow> string \<Rightarrow> string option" where
  "re_match_group rx s =
     (let (pre, suf) = rx in
      if py_startswith s pre then
        (let t = drop (length pre) s;
             n = length (takeWhile (\<lambda>c. c \<noteq> newline) t)
         in map_option (\<lambda>i. take i t) (find (\<lambda>i. py_startswith (drop i t) suf) (rev [0..<Suc n])))
      else None)"

section \<open>\<open>camel_to_snake_case\<close>\<close>

text \<open>
  A separator goes before an upper-case letter that follows a lower-case letter or a
  digit, and before the last upper-case letter of a run that a lower-case letter follows;
  then the whole string is lower-cased.
\<close>

definition snake_boundary :: "char \<Rightarrow> char \<Rightarrow> char option \<Rightarrow> bool" where
  "snake_boundary p c n \<longleftrightarrow>
     is_upper c \<and> (is_lower p \<or> is_digit p \<or>
                   (is_upper p \<and> (case n of Some d \<Rightarrow> is_lower d | None \<Rightarrow> False)))"

fun snake_seps :: "char option \<Rightarrow> string \<Rightarrow> string" where
  "snake_seps p [] = []"
| "snake_seps p (c # cs) =
     (let sep = (case p of None \<Rightarrow> False
                 | Some q \<Rightarrow> snake_boundary q c (case cs of [] \<Rightarrow> None | d # _ \<Rightarrow> Some d))
      in (if sep then [CHR ''_'', c] else [c]) @ snake_seps (Some c) cs)"

definition camel_to_snake_case :: "string \<Rightarrow> string" where
  "camel_to_snake_case s = py_lower (snake_seps None s)"

section \<open>The bank index of a module name\<close>

text \<open>
  \<open>re.search(r'(\d+)$', modname)\<close> and \<open>int()\<close> of the group: the maximal run of digits
  at the end of the name (\<open>$\<close> also matches before one final newline).
\<close>

definition trailing_index :: "string \<Rightarrow> nat option" where
  "trailing_index s =
     (let s' = (if s \<noteq> [] \<and> last s = newline then butlast s else s);
          ds = rev (takeWhile is_digit (rev s'))
      in if ds = [] then None else Some (digits_val 10 0 ds))"

section \<open>Walking the top description\<close>

text \<open>
  The map \<open>_load_top_values\<close> writes into: \<open>self._roms\<close>, keyed by bank index, when
  called with \<open>multi=True\<close>, or the flat \<open>self._otp\<close> when called with
  \<open>multi=False\<close>; the constructor carries the flag, as both call sites pair them.
\<close>

datatype odict = OMulti romtab | OFlat table

text \<open>\<open>odict[idx][kname] = value\<close> (multi) or \<open>odict[kname] = value\<close> (lines 171-178).\<close>

fun store_value :: "odict \<Rightarrow> hval \<Rightarrow> string \<Rightarrow> string \<Rightarrow> odict result" where
  "store_value (OMulti r) (HStr m) kname dv =
     (let idx = trailing_index m;
          r1 = (if idx \<in> set (dict_keys r) then r else dict_set r idx []);
          tb = (case map_of r1 idx of Some tb \<Rightarrow> tb | None \<Rightarrow> [])
      in Inr (OMulti (dict_set r1 idx (dict_set tb kname dv))))"
| "store_value (OMulti r) _ kname dv = Inl TypeError"
| "store_value (OFlat t) modname kname dv = Inr (OFlat (dict_set t kname dv))"

text \<open>
  One pass of the loop over the regular expressions for a parameter record (lines
  162-178): \<open>params['name']\<close> (\<open>KeyError\<close> when missing), \<open>re.match\<close>
  (\<open>TypeError\<close> on a name that is not a string), \<open>params.get('default')\<close> and the
  store. A \<open>continue\<close> leaves the target unchanged.
\<close>

text \<open>
  The default value of a matched parameter (lines 165-178): a falsy default is skipped
  (\<open>continue\<close>), a \<open>0x\<close> prefix is stripped (\<open>startswith\<close> raises on a value that
  is not a string), and the value is stored under the shortened group.
\<close>

definition store_default :: "hval \<Rightarrow> string \<Rightarrow> hval \<Rightarrow> odict \<Rightarrow> odict result" where
  "store_default modname grp dv od =
     (if \<not> py_truthy dv then Inr od
      else (case dv of
              HStr v \<Rightarrow>
                store_value od modname (camel_to_snake_case grp)
                  (if py_startswith v ''0x'' then drop 2 v else v)
            | _ \<Rightarrow> Inl AttributeError))"

definition match_regex :: "hval \<Rightarrow> hval \<Rightarrow> ot_param_regex \<Rightarrow> odict \<Rightarrow> odict result" where
  "match_regex modname params rx od =
     rbind (hsubscript params ''name'') (\<lambda>pname.
     case pname of
       HStr pn \<Rightarrow>
         (case re_match_group rx pn of
            None \<Rightarrow> Inr od
          | Some grp \<Rightarrow>
              rbind (hget params ''default'') (\<lambda>dv. store_default modname grp dv od))
     | _ \<Rightarrow> Inl TypeError)"

text \<open>\<open>for regex in regexes: ...\<close> (line 161).\<close>

definition match_regexes :: "hval \<Rightarrow> hval \<Rightarrow> ot_param_regex list \<Rightarrow> odict \<Rightarrow> odict result" where
  "match_regexes modname params regexes od = rfold (match_regex modname params) regexes od"

text \<open>One entry of the parameter list: entries that are not mappings are skipped (159-160).\<close>

definition load_param :: "hval \<Rightarrow> ot_param_regex list \<Rightarrow> hval \<Rightarrow> odict \<Rightarrow> odict result" where
  "load_param modname regexes params od =
     (if \<not> is_hdict params then Inr od else match_regexes modname params regexes od)"

text \<open>\<open>_load_top_values(module, odict, multi, *regexes)\<close> (lines 153-178).\<close>

definition load_top_values :: "hval \<Rightarrow> ot_param_regex list \<Rightarrow> odict \<Rightarrow> odict result" where
  "load_top_values module regexes od =
     rbind (hget module ''name'') (\<lambda>modname.
     if \<not> py_truthy modname then Inr od else
     rbind (hget_default module ''param_list'' (HList [])) (\<lambda>pl.
     rbind (hiter pl) (\<lambda>plist.
     rfold (load_param modname regexes) plist od)))"

text \<open>One module of \<open>load_top_config\<close>'s loop (lines 70-78).\<close>

definition top_module :: "hval \<Rightarrow> ot_configuration \<Rightarrow> ot_configuration result" where
  "top_module module c =
     rbind (hget module ''type'') (\<lambda>modtype.
     if modtype = HStr ''rom_ctrl'' then
       rbind (load_top_values module [rom_regex] (OMulti (roms c))) (\<lambda>od.
         case od of OMulti r \<Rightarrow> Inr (c\<lparr>roms := r\<rparr>) | OFlat _ \<Rightarrow> Inr c)
     else if modtype = HStr ''otp_ctrl'' then
       rbind (load_top_values module [otp_regex] (OFlat (otp c))) (\<lambda>od.
         case od of OFlat t \<Rightarrow> Inr (c\<lparr>otp := t\<rparr>) | OMulti _ \<Rightarrow> Inr c)
     else Inr c)"

text \<open>
  \<open>load_top_config\<close> on the loaded document (lines 63-78): \<open>cfg.get('name')\<close>, then
  \<open>for module in cfg.get('module') or []\<close>.
\<close>

definition load_top_config :: "hval \<Rightarrow> ot_configuration \<Rightarrow> ot_configuration result" where
  "load_top_config cfg c =
     rbind (hget cfg ''name'') (\<lambda>name.
     rbind (hget cfg ''module'') (\<lambda>mods.
     rbind (if py_truthy mods then hiter mods else Inr []) (\<lambda>modules.
     rfold top_module modules (c\<lparr>top_name := name\<rparr>))))"

text \<open>Well-formed targets: distinct keys at both levels.\<close>

fun odict_wf :: "odict \<Rightarrow> bool" where
  "odict_wf (OMulti r) \<longleftrightarrow> distinct (dict_keys r) \<and> (\<forall>(_, t)\<in>set r. distinct (dict_keys t))"
| "odict_wf (OFlat t) \<longleftrightarrow> distinct (dict_keys t)"

fun is_multi :: "odict \<Rightarrow> bool" where
  "is_multi (OMulti _) = True"
| "is_multi (OFlat _) = False"

text \<open>A small top description used by the examples: one ROM bank and the OTP controller.\<close>

definition demo_top_doc :: hval where
  "demo_top_doc =
     HDict [(''name'', HStr ''earlgrey''),
            (''module'', HList [
               HDict [(''type'', HStr ''rom_ctrl''), (''name'', HStr ''rom_ctrl0''),
                      (''param_list'', HList [
                         HDict [(''name'', HStr ''RndCnstScrKey''), (''default'', HStr ''0x1A2B'')],
                         HDict [(''name'', HStr ''RndCnstScrNonce''), (''default'', HStr ''42'')],
                         HStr ''comment'']) ],
               HDict [(''type'', HStr ''otp_ctrl''), (''name'', HStr ''otp_ctrl''),
                      (''param_list'', HList [
                         HDict [(''name'', HStr ''RndCnstDigestInit''), (''default'', HStr ''0xCAFE'')]])]])]"

section \<open>Lemmas on the helpers\<close>

lemma snake_seps_erase:
  "filter (\<lambda>c. c \<noteq> CHR ''_'') (snake_seps p s) = filter (\<lambda>c. c \<noteq> CHR ''_'') s"
  by (induction p s rule: snake_seps.induct) (auto simp: Let_def)

lemma snake_seps_no_upper:
  "\<forall>c\<in>set s. \<not> is_upper c \<Longrightarrow> snake_seps p s = s"
  by (induction p s rule: snake_seps.induct)
    (auto simp: Let_def snake_boundary_def split: option.splits)

lemma py_lower_no_upper: "\<forall>c\<in>set (py_lower s). \<not> is_upper c"
  by (simp add: py_lower_def)

lemma filter_py_lower:
  "filter (\<lambda>c. c \<noteq> CHR ''_'') (py_lower s) = py_lower (filter (\<lambda>c. c \<noteq> CHR ''_'') s)"
proof -
  have "lower_char c = CHR ''_'' \<longleftrightarrow> c = CHR ''_''" for c
  proof (cases "is_upper c")
    case True
    then have "(of_char (lower_char c) :: nat) \<ge> 97"
      by (simp add: of_char_lower_upper is_upper_def less_eq_char_def)
    with True show ?thesis by (auto simp: is_upper_def less_eq_char_def)
  next
    case False
    then show ?thesis by (simp add: lower_char_id)
  qed
  then show ?thesis by (induction s) (auto simp: py_lower_def)
qed

lemma re_match_group_eq:
  assumes "py_startswith s pre"
  shows "re_match_group (pre, suf) s =
           map_option (\<lambda>i. take i (drop (length pre) s))
             (find (\<lambda>i. py_startswith (drop i (drop (length pre) s)) suf)
                (rev [0..<Suc (length (takeWhile (\<lambda>c. c \<noteq> newline) (drop (length pre) s)))]))"
  unfolding re_match_group_def Let_def using assms by (simp only: prod.case if_True)

lemma re_match_group_Some:
  assumes "re_match_group (pre, suf) s = Some g"
  shows "\<exists>r. s = pre @ g @ suf @ r"
proof -
  let ?t = "drop (length pre) s"
  from assms have p: "py_startswith s pre"
    by (auto simp: re_match_group_def split: if_splits)
  with assms obtain i where
    f: "find (\<lambda>i. py_startswith (drop i ?t) suf)
          (rev [0..<Suc (length (takeWhile (\<lambda>c. c \<noteq> newline) ?t))]) = Some i"
    and g: "g = take i ?t"
    by (auto simp only: re_match_group_eq map_option_eq_Some)
  from f have "py_startswith (drop i ?t) suf" by (auto simp only: find_Some_iff)
  then obtain r where "drop i ?t = suf @ r" by (auto simp: py_startswith_iff)
  moreover from p obtain u where "s = pre @ u" by (auto simp: py_startswith_iff)
  ultimately have "s = pre @ take i ?t @ suf @ r"
    by (metis append_take_drop_id append_eq_conv_conj)
  with g show ?thesis by blast
qed

lemma find_rev_upt:
  "find P (rev [0..<Suc n]) = Some i \<longleftrightarrow> i \<le> n \<and> P i \<and> (\<forall>j. i < j \<and> j \<le> n \<longrightarrow> \<not> P j)"
proof (induction n)
  case 0
  then show ?case by auto
next
  case (Suc n)
  have "rev [0..<Suc (Suc n)] = Suc n # rev [0..<Suc n]" by simp
  then show ?case using Suc by (auto simp del: upt_Suc elim: le_SucE)
qed

lemma takeWhile_prefix_length:
  assumes "t = g @ u" and "\<forall>c\<in>set g. P c"
  shows "length g \<le> length (takeWhile P t)"
  using assms by (simp add: takeWhile_append2)

lemma take_takeWhile_all:
  assumes "i \<le> length (takeWhile P t)"
  shows "\<forall>c\<in>set (take i t). P c"
proof -
  have "take i t = take i (takeWhile P t)"
    using assms by (metis min.absorb1 take_take takeWhile_eq_take)
  then show ?thesis by (auto dest: in_set_takeD set_takeWhileD)
qed


section \<open>Lemmas on the walk\<close>

lemma store_value_wf:
  assumes "store_value od m k v = Inr od'" and "odict_wf od"
  shows "odict_wf od' \<and> is_multi od' = is_multi od"
proof (cases od)
  case (OMulti r)
  with assms obtain mn where m: "m = HStr mn" by (cases m) auto
  define idx where "idx = trailing_index mn"
  define r1 where "r1 = (if idx \<in> set (dict_keys r) then r else dict_set r idx [])"
  define tb where "tb = (case map_of r1 idx of Some tb \<Rightarrow> tb | None \<Rightarrow> [])"
  have "store_value od m k v = Inr (OMulti (dict_set r1 idx (dict_set tb k v)))"
    unfolding OMulti m idx_def r1_def tb_def by (simp only: store_value.simps Let_def)
  with assms(1) have od': "od' = OMulti (dict_set r1 idx (dict_set tb k v))" by simp
  from assms(2) OMulti have dr: "distinct (dict_keys r)" and dt: "\<forall>(_, t)\<in>set r. distinct (dict_keys t)"
    by simp_all
  have d1: "distinct (dict_keys r1)" using dr by (simp add: r1_def)
  have "set r1 \<subseteq> insert (idx, []) (set r)"
    using set_dict_set [of r idx "[]"] by (auto simp: r1_def)
  with dt have t1: "\<forall>(_, t)\<in>set r1. distinct (dict_keys t)" by auto
  have "distinct (dict_keys tb)"
  proof (cases "map_of r1 idx")
    case None
    then show ?thesis by (simp add: tb_def)
  next
    case (Some t)
    then have "(idx, t) \<in> set r1" by (rule map_of_SomeD)
    with t1 Some show ?thesis by (auto simp: tb_def)
  qed
  then have "distinct (dict_keys (dict_set tb k v))" by simp
  moreover have "set (dict_set r1 idx (dict_set tb k v)) \<subseteq> insert (idx, dict_set tb k v) (set r1)"
    by (rule set_dict_set)
  ultimately have "\<forall>(_, t)\<in>set (dict_set r1 idx (dict_set tb k v)). distinct (dict_keys t)"
    using t1 by auto
  with d1 od' show ?thesis by (simp add: OMulti)
next
  case (OFlat t)
  with assms show ?thesis by auto
qed

lemma store_default_cases:
  "store_default m g dv od = Inr od' \<Longrightarrow> od' = od \<or> (\<exists>k v. store_value od m k v = Inr od')"
  by (cases dv) (auto simp: store_default_def split: if_splits)

lemma match_regex_cases:
  assumes "match_regex m params rx od = Inr od'"
  obtains "od' = od" | k v where "store_value od m k v = Inr od'"
proof -
  from assms obtain pname where
    r: "(case pname of
           HStr pn \<Rightarrow>
             (case re_match_group rx pn of
                None \<Rightarrow> Inr od
              | Some grp \<Rightarrow> rbind (hget params ''default'') (\<lambda>dv. store_default m grp dv od))
         | _ \<Rightarrow> Inl TypeError) = Inr od'"
    by (auto simp: match_regex_def rbind_eq_Inr)
  then obtain pn where pn: "pname = HStr pn" by (cases pname) auto
  show ?thesis
  proof (cases "re_match_group rx pn")
    case None
    with r pn have "od' = od" by simp
    then show ?thesis by (rule that(1))
  next
    case (Some grp)
    with r pn obtain dv where "store_default m grp dv od = Inr od'" by (auto simp: rbind_eq_Inr)
    then show ?thesis using that by (blast dest: store_default_cases)
  qed
qed

lemma match_regex_wf:
  "match_regex m params rx od = Inr od' \<Longrightarrow> odict_wf od \<Longrightarrow>
   odict_wf od' \<and> is_multi od' = is_multi od"
  by (erule match_regex_cases) (auto dest: store_value_wf)

lemma match_regexes_wf:
  "match_regexes m params rxs od = Inr od' \<Longrightarrow> odict_wf od \<Longrightarrow>
   odict_wf od' \<and> is_multi od' = is_multi od"
  unfolding match_regexes_def
  by (rule rfold_invariant [where P = "\<lambda>x. odict_wf x \<and> is_multi x = is_multi od"])
    (auto dest: match_regex_wf)

lemma load_param_wf:
  "load_param m rxs params od = Inr od' \<Longrightarrow> odict_wf od \<Longrightarrow>
   odict_wf od' \<and> is_multi od' = is_multi od"
  by (auto simp: load_param_def split: if_splits dest: match_regexes_wf)

lemma load_top_values_cases:
  assumes "load_top_values module rxs od = Inr od'"
  obtains "od' = od" | m plist where "rfold (load_param m rxs) plist od = Inr od'"
  using assms by (auto simp: load_top_values_def result_iff split: if_splits)

lemma load_top_values_wf:
  assumes "load_top_values module rxs od = Inr od'" and "odict_wf od"
  shows "odict_wf od' \<and> is_multi od' = is_multi od"
  using assms(1)
proof (cases rule: load_top_values_cases)
  case 1
  with assms(2) show ?thesis by simp
next
  case (2 m plist)
  show ?thesis
    by (rule rfold_invariant [where P = "\<lambda>x. odict_wf x \<and> is_multi x = is_multi od", OF _ _ 2])
      (use assms(2) load_param_wf in auto)
qed


lemma top_module_Inr:
  "top_module md c = Inr c' \<Longrightarrow>
   c' = c \<or>
   (\<exists>r. load_top_values md [rom_regex] (OMulti (roms c)) = Inr (OMulti r) \<and> c' = c\<lparr>roms := r\<rparr>) \<or>
   (\<exists>t. load_top_values md [otp_regex] (OFlat (otp c)) = Inr (OFlat t) \<and> c' = c\<lparr>otp := t\<rparr>)"
proof -
  assume a: "top_module md c = Inr c'"
  then obtain mt where mt: "hget md ''type'' = Inr mt" by (auto simp: top_module_def rbind_eq_Inr)
  show ?thesis
  proof (cases "mt = HStr ''rom_ctrl''")
    case True
    with a mt have "rbind (load_top_values md [rom_regex] (OMulti (roms c)))
        (\<lambda>od. case od of OMulti r \<Rightarrow> Inr (c\<lparr>roms := r\<rparr>) | OFlat _ \<Rightarrow> Inr c) = Inr c'"
      by (simp add: top_module_def)
    then show ?thesis
      by (cases "load_top_values md [rom_regex] (OMulti (roms c))") (auto split: odict.splits)
  next
    case not_rom: False
    show ?thesis
    proof (cases "mt = HStr ''otp_ctrl''")
      case True
      with not_rom a mt have "rbind (load_top_values md [otp_regex] (OFlat (otp c)))
          (\<lambda>od. case od of OFlat t \<Rightarrow> Inr (c\<lparr>otp := t\<rparr>) | OMulti _ \<Rightarrow> Inr c) = Inr c'"
        by (simp add: top_module_def)
      then show ?thesis
        by (cases "load_top_values md [otp_regex] (OFlat (otp c))") (auto split: odict.splits)
    next
      case False
      with not_rom a mt show ?thesis by (simp add: top_module_def)
    qed
  qed
qed

lemma top_module_cases:
  assumes "top_module md c = Inr c'"
  obtains "c' = c"
    | r where "load_top_values md [rom_regex] (OMulti (roms c)) = Inr (OMulti r)" "c' = c\<lparr>roms := r\<rparr>"
    | t where "load_top_values md [otp_regex] (OFlat (otp c)) = Inr (OFlat t)" "c' = c\<lparr>otp := t\<rparr>"
  using top_module_Inr [OF assms] by blast

lemma top_module_lc_part:
  "top_module md c = Inr c' \<Longrightarrow> lc_part c' = lc_part c"
  by (erule top_module_cases) (auto simp: lc_part_def)

lemma load_top_config_cases:
  assumes "load_top_config d c = Inr c'"
  obtains name modules where "hget d ''name'' = Inr name"
    and "rfold top_module modules (c\<lparr>top_name := name\<rparr>) = Inr c'"
  using assms by (auto simp: load_top_config_def result_iff)

lemma load_top_config_name:
  assumes "load_top_config d c = Inr c'"
  shows "hget d ''name'' = Inr (top_name c')"
proof -
  from assms obtain name modules where n: "hget d ''name'' = Inr name"
    and r: "rfold top_module modules (c\<lparr>top_name := name\<rparr>) = Inr c'"
    by (rule load_top_config_cases)
  have "top_name c' = name"
    by (rule rfold_invariant [where P = "\<lambda>x. top_name x = name", OF _ _ r])
      (auto elim: top_module_cases)
  with n show ?thesis by simp
qed

section \<open>Properties of the Parameter Correlator\<close>

text \<open>
  C8. The model of \<open>re.match(prefix + '(.*)' + suffix, name)\<close> finds exactly Python's
  greedy match: the captured group \<open>g\<close> puts the name in the form prefix, \<open>g\<close>,
  suffix, rest; it holds no newline; and no newline-free group of the same form is longer.
\<close>

theorem re_match_group_greedy:
  "re_match_group (pre, suf) s = Some g \<longleftrightarrow>
     (\<exists>r. s = pre @ g @ suf @ r) \<and> newline \<notin> set g \<and>
     (\<forall>g' r'. s = pre @ g' @ suf @ r' \<and> newline \<notin> set g' \<longrightarrow> length g' \<le> length g)"
  (is "?l \<longleftrightarrow> ?r")
proof
  assume l: ?l
  let ?t = "drop (length pre) s"
  let ?n = "length (takeWhile (\<lambda>c. c \<noteq> newline) ?t)"
  have nt: "?n \<le> length ?t" by (rule length_takeWhile_le)
  from l have p: "py_startswith s pre"
    by (auto simp: re_match_group_def split: if_splits)
  with l obtain i where f: "find (\<lambda>i. py_startswith (drop i ?t) suf) (rev [0..<Suc ?n]) = Some i"
    and g: "g = take i ?t"
    by (auto simp only: re_match_group_eq map_option_eq_Some)
  from find_rev_upt [THEN iffD1, OF f] have i: "i \<le> ?n"
    and best: "\<forall>j. i < j \<and> j \<le> ?n \<longrightarrow> \<not> py_startswith (drop j ?t) suf"
    by blast+
  have lg: "length g = i" using g i nt by simp
  have nl: "newline \<notin> set g"
    using take_takeWhile_all [OF i] g by auto
  have max: "length g' \<le> length g" if "s = pre @ g' @ suf @ r'" "newline \<notin> set g'" for g' r'
  proof -
    from that have t: "?t = g' @ suf @ r'" by simp
    then have "length g' \<le> ?n" using that(2)
      by (intro takeWhile_prefix_length) auto
    moreover have "py_startswith (drop (length g') ?t) suf"
      using t by (simp add: py_startswith_iff)
    ultimately have "length g' \<le> i" using best by (meson not_le)
    then show ?thesis using lg by simp
  qed
  from l have "\<exists>r. s = pre @ g @ suf @ r" by (rule re_match_group_Some)
  with nl max show ?r by blast
next
  assume r: ?r
  then obtain r0 where s: "s = pre @ g @ suf @ r0" and nl: "newline \<notin> set g" by blast
  let ?t = "drop (length pre) s"
  let ?n = "length (takeWhile (\<lambda>c. c \<noteq> newline) ?t)"
  let ?P = "\<lambda>i. py_startswith (drop i ?t) suf"
  have nt: "?n \<le> length ?t" by (rule length_takeWhile_le)
  have p: "py_startswith s pre" using s by (simp add: py_startswith_iff)
  have t: "?t = g @ suf @ r0" using s by simp
  have gn: "length g \<le> ?n" using t nl by (intro takeWhile_prefix_length) auto
  have Pg: "?P (length g)" using t by (simp add: py_startswith_iff)
  have "length g \<in> set (rev [0..<Suc ?n])" using gn by (simp only: set_rev set_upt) simp
  with Pg have "find ?P (rev [0..<Suc ?n]) \<noteq> None" by (auto simp only: find_None_iff)
  then obtain i where f: "find ?P (rev [0..<Suc ?n]) = Some i" by blast
  from find_rev_upt [THEN iffD1, OF f] have i: "i \<le> ?n" and Pi: "?P i"
    and best: "\<forall>j. i < j \<and> j \<le> ?n \<longrightarrow> \<not> ?P j"
    by blast+
  have li: "length (take i ?t) = i" using i nt by simp
  have "length g \<le> i" using best gn Pg by (meson not_le)
  obtain r1 where r1: "drop i ?t = suf @ r1" using Pi by (auto simp: py_startswith_iff)
  have "take (length pre) s = pre" using p by (simp add: py_startswith_def)
  then have "s = pre @ ?t" by (metis append_take_drop_id)
  also have "?t = take i ?t @ suf @ r1" using r1 by (metis append_take_drop_id)
  finally have s1: "s = pre @ take i ?t @ suf @ r1" .
  have "newline \<notin> set (take i ?t)" using take_takeWhile_all [OF i] by auto
  with s1 r have "length (take i ?t) \<le> length g" by blast
  with li \<open>length g \<le> i\<close> have "i = length g" by simp
  then have "take i ?t = g" using t by simp
  with p f show ?l by (simp only: re_match_group_eq option.map)
qed
theorem re_match_group_greedy_witness:
  "re_match_group otp_regex ''RndCnstDigestInit'' = Some ''Digest'' \<and>
   (\<exists>r. ''RndCnstDigestInit'' = ''RndCnst'' @ ''Digest'' @ ''Init'' @ r) \<and> newline \<notin> set ''Digest''"
proof -
  have h: "re_match_group (''RndCnst'', ''Init'') ''RndCnstDigestInit'' = Some ''Digest''" by code_simp
  show ?thesis using h re_match_group_greedy [THEN iffD1, OF h] by (simp add: otp_regex_def)
qed

text \<open>
  C9. The bank index read from a module name is the number its trailing digits spell:
  for a name that is a stem not ending in a digit followed by \<open>str(n)\<close>, the index is
  \<open>n\<close> (so \<open>rom_ctrl3\<close> is bank 3).
\<close>

theorem trailing_index_py_str_nat:
  assumes "p = [] \<or> \<not> is_digit (last p)"
  shows "trailing_index (p @ py_str_nat n) = Some n"
proof -
  let ?s = "py_str_nat n"
  have ne: "?s \<noteq> []" by simp
  have dig: "\<forall>c\<in>set ?s. is_digit c" by (rule py_str_nat_is_digit)
  have "last (p @ ?s) = last ?s" using ne by simp
  moreover have "last ?s \<in> set ?s" using ne by simp
  ultimately have "is_digit (last (p @ ?s))" using dig by simp
  then have nl: "last (p @ ?s) \<noteq> newline" by (auto simp: is_digit_def less_eq_char_def)
  have tw: "takeWhile is_digit (rev p) = []"
    using assms by (cases "rev p") (auto simp: last_rev [symmetric] hd_rev)
  have "takeWhile is_digit (rev ?s @ rev p) = rev ?s @ takeWhile is_digit (rev p)"
    by (rule takeWhile_append2) (use dig in auto)
  with tw have "takeWhile is_digit (rev (p @ ?s)) = rev ?s" by simp
  with nl ne show ?thesis
    by (simp add: trailing_index_def Let_def digits_val_py_str_nat)
qed

theorem trailing_index_py_str_nat_witness:
  "(''rom_ctrl'' = [] \<or> \<not> is_digit (last ''rom_ctrl'')) \<and> trailing_index ''rom_ctrl3'' = Some 3"
proof -
  have h: "''rom_ctrl'' = [] \<or> \<not> is_digit (last ''rom_ctrl'')" by code_simp
  have "py_str_nat 3 = ''3''" by code_simp
  then show ?thesis using h trailing_index_py_str_nat [OF h, of 3] by simp
qed

text \<open>
  C10. Storing a field for a ROM module writes it into the partition of the module's
  bank index only, creating that partition (last in order) when it is new, and leaves every
  other partition unchanged.
\<close>

theorem store_value_partition:
  "\<exists>r'. store_value (OMulti r) (HStr m) k v = Inr (OMulti r') \<and>
     map_of r' = (map_of r)(trailing_index m \<mapsto>
                   dict_set (case map_of r (trailing_index m) of None \<Rightarrow> [] | Some t \<Rightarrow> t) k v) \<and>
     dict_keys r' = (if trailing_index m \<in> set (dict_keys r) then dict_keys r
                     else dict_keys r @ [trailing_index m])"
proof -
  define idx where "idx = trailing_index m"
  define r1 where "r1 = (if idx \<in> set (dict_keys r) then r else dict_set r idx [])"
  have m1: "map_of r1 idx = Some (case map_of r idx of None \<Rightarrow> [] | Some t \<Rightarrow> t)"
  proof (cases "map_of r idx")
    case None
    then have "idx \<notin> set (dict_keys r)" by (simp add: map_of_eq_None_iff)
    with None show ?thesis by (simp add: r1_def)
  next
    case (Some t)
    then have "idx \<in> set (dict_keys r)" by (auto dest: map_of_SomeD intro: rev_image_eqI)
    with Some show ?thesis by (simp add: r1_def)
  qed
  have map: "(map_of r1)(idx \<mapsto> t') = (map_of r)(idx \<mapsto> t')" for t'
    by (simp add: r1_def)
  have keys: "dict_keys (dict_set r1 idx t') =
      (if idx \<in> set (dict_keys r) then dict_keys r else dict_keys r @ [idx])" for t'
    by (simp add: r1_def keys_dict_set)
  define t' where "t' = dict_set (case map_of r idx of None \<Rightarrow> [] | Some t \<Rightarrow> t) k v"
  have "store_value (OMulti r) (HStr m) k v = Inr (OMulti (dict_set r1 idx t'))"
    unfolding idx_def r1_def t'_def
    by (simp only: store_value.simps Let_def m1 [unfolded idx_def r1_def] option.case)
  moreover have "map_of (dict_set r1 idx t') = (map_of r)(idx \<mapsto> t')"
    using map by simp
  ultimately show ?thesis using keys [of t'] by (auto simp: idx_def t'_def)
qed

text \<open>
  C11. For a parameter record with a string name and a string default, one pass of the
  correlator over the flat OTP map: no match leaves the map, an empty default is skipped,
  otherwise the shortened group is stored with a leading \<open>0x\<close> stripped and any other
  value kept as it is.
\<close>

theorem match_regex_flat:
  assumes "map_of d ''name'' = Some (HStr pn)" and "map_of d ''default'' = Some (HStr v)"
  shows "match_regex m (HDict d) rx (OFlat t) =
     (case re_match_group rx pn of
        None \<Rightarrow> Inr (OFlat t)
      | Some g \<Rightarrow>
          Inr (if v = [] then OFlat t
               else OFlat (dict_set t (camel_to_snake_case g)
                             (if py_startswith v ''0x'' then drop 2 v else v))))"
  using assms by (simp add: match_regex_def store_default_def split: option.splits)

theorem match_regex_flat_witness:
  "match_regex (HStr ''otp_ctrl'')
     (HDict [(''name'', HStr ''RndCnstDigestInit''), (''default'', HStr ''0x1A2B'')]) otp_regex (OFlat []) =
     Inr (OFlat [(''digest'', ''1A2B'')]) \<and>
   match_regex (HStr ''otp_ctrl'')
     (HDict [(''name'', HStr ''RndCnstDigestInit''), (''default'', HStr ''42'')]) otp_regex (OFlat []) =
     Inr (OFlat [(''digest'', ''42'')])"
proof -
  have g: "re_match_group otp_regex ''RndCnstDigestInit'' = Some ''Digest''" by code_simp
  have c: "camel_to_snake_case ''Digest'' = ''digest''" by code_simp
  have p1: "py_startswith ''0x1A2B'' ''0x''" and p2: "\<not> py_startswith ''42'' ''0x''"
    by code_simp+
  show ?thesis
    using match_regex_flat [of "[(''name'', HStr ''RndCnstDigestInit''), (''default'', HStr ''0x1A2B'')]"
            "''RndCnstDigestInit''" "''0x1A2B''" "HStr ''otp_ctrl''" otp_regex "[]"]
      match_regex_flat [of "[(''name'', HStr ''RndCnstDigestInit''), (''default'', HStr ''42'')]"
            "''RndCnstDigestInit''" "''42''" "HStr ''otp_ctrl''" otp_regex "[]"]
      g c p1 p2 by simp
qed

text \<open>
  C12. A matched parameter whose default is truthy but not a string (an HJSON number,
  for instance) makes the correlator raise \<open>AttributeError\<close> from \<open>value.startswith\<close>.
\<close>

theorem match_regex_bad_default:
  assumes "map_of d ''name'' = Some (HStr pn)" and "re_match_group rx pn \<noteq> None"
    and "map_of d ''default'' = Some dv" and "py_truthy dv" and "\<not> (\<exists>s. dv = HStr s)"
  shows "match_regex m (HDict d) rx od = Inl AttributeError"
  using assms by (cases dv) (auto simp: match_regex_def store_default_def)

theorem match_regex_bad_default_witness:
  "re_match_group rom_regex ''RndCnstScrKey'' \<noteq> None \<and> py_truthy (HNum 32) \<and>
   match_regex (HStr ''rom_ctrl0'') (HDict [(''name'', HStr ''RndCnstScrKey''), (''default'', HNum 32)])
     rom_regex (OMulti []) = Inl AttributeError"
proof -
  have h: "re_match_group rom_regex ''RndCnstScrKey'' \<noteq> None" by code_simp
  show ?thesis using h match_regex_bad_default [OF _ h, of "[(''name'', HStr ''RndCnstScrKey''), (''default'', HNum 32)]" "HNum 32"]
    by simp
qed

text \<open>
  C13. Loading the top description writes only the top part of the state: the four
  life-cycle ranges and the life-cycle token map are unchanged.
\<close>

theorem load_top_config_frame:
  assumes "load_top_config d c = Inr c'"
  shows "lc_part c' = lc_part c"
proof -
  from assms obtain name modules where
    r: "rfold top_module modules (c\<lparr>top_name := name\<rparr>) = Inr c'"
    by (rule load_top_config_cases)
  have start: "lc_part (c\<lparr>top_name := name\<rparr>) = lc_part c" by (simp add: lc_part_def)
  show ?thesis
    by (rule rfold_invariant [where P = "\<lambda>x. lc_part x = lc_part c", OF _ start r])
      (auto dest: top_module_lc_part)
qed

theorem load_top_config_frame_witness:
  "load_top_config demo_top_doc OtConfiguration =
     Inr (OtConfiguration\<lparr>top_name := HStr ''earlgrey'',
            roms := [(Some 0, [(''key'', ''1A2B''), (''nonce'', ''42'')])],
            otp := [(''digest'', ''CAFE'')]\<rparr>) \<and>
   lc_part (OtConfiguration\<lparr>top_name := HStr ''earlgrey'',
            roms := [(Some 0, [(''key'', ''1A2B''), (''nonce'', ''42'')])],
            otp := [(''digest'', ''CAFE'')]\<rparr>) = lc_part OtConfiguration"
proof -
  have h: "load_top_config demo_top_doc OtConfiguration =
     Inr (OtConfiguration\<lparr>top_name := HStr ''earlgrey'',
            roms := [(Some 0, [(''key'', ''1A2B''), (''nonce'', ''42'')])],
            otp := [(''digest'', ''CAFE'')]\<rparr>)" by code_simp
  show ?thesis using h load_top_config_frame [OF h] by simp
qed

text \<open>
  C14. The loop over the regular expressions (line 161) has no \<open>break\<close>: for a parameter
  record with a string name and a non-empty string default, every expression that matches
  the name stores the value, under its own shortened group, in the order of the list. The
  specification asks the correlator to stop at the first matching expression.
\<close>

theorem match_regexes_flat:
  assumes "map_of d ''name'' = Some (HStr pn)" and "map_of d ''default'' = Some (HStr v)"
    and "v \<noteq> []"
  shows "match_regexes m (HDict d) rxs (OFlat t) =
     Inr (OFlat (fold (\<lambda>g t. dict_set t (camel_to_snake_case g)
                                (if py_startswith v ''0x'' then drop 2 v else v))
                      (List.map_filter (\<lambda>rx. re_match_group rx pn) rxs) t))"
  unfolding match_regexes_def
proof (induction rxs arbitrary: t)
  case (Cons rx rxs)
  show ?case
    using assms Cons.IH
    by (cases "re_match_group rx pn")
      (simp_all add: match_regex_def store_default_def map_filter_simps)
qed (simp add: map_filter_simps)

theorem match_regexes_flat_witness:
  "match_regexes (HStr ''otp_ctrl'')
     (HDict [(''name'', HStr ''RndCnstScrKeyInit''), (''default'', HStr ''0x1'')])
     [rom_regex, otp_regex] (OFlat []) =
   Inr (OFlat [(''key_init'', ''1''), (''scr_key'', ''1'')])"
proof -
  have g1: "re_match_group rom_regex ''RndCnstScrKeyInit'' = Some ''KeyInit''"
    and g2: "re_match_group otp_regex ''RndCnstScrKeyInit'' = Some ''ScrKey''"
    and c1: "camel_to_snake_case ''KeyInit'' = ''key_init''"
    and c2: "camel_to_snake_case ''ScrKey'' = ''scr_key''"
    and p: "py_startswith ''0x1'' ''0x''"
    by code_simp+
  show ?thesis
    using match_regexes_flat [of "[(''name'', HStr ''RndCnstScrKeyInit''), (''default'', HStr ''0x1'')]"
            "''RndCnstScrKeyInit''" "''0x1''" "HStr ''otp_ctrl''" "[rom_regex, otp_regex]" "[]"]
      g1 g2 c1 c2 p by (simp add: map_filter_simps)
qed

end
