(* ===== verification/OtpConst.thy ===== *)
theory OtpConst
  imports Config
begin

text \<open>
  The Digest/Key Extractor: \<open>OtConfiguration.load_otp_constants\<close> (\<open>cfggen.py\<close> lines
  123-129). The RTL reader \<open>OtpConstants\<close> is outside \<open>src/\<close>; the generator only asks
  it for two digest pairs, so the reader is the record of its \<open>get_digest_pair\<close> answers.
  Each answer is merged into the OTP map with \<open>dict.update\<close>, the content-integrity pair
  first and the SRAM data-key pair second, on top of what \<open>load_top_config\<close> stored.
\<close>

record otp_const_ext =
  get_digest_pair :: "string \<Rightarrow> string \<Rightarrow> table"

definition load_otp_constants :: "otp_const_ext \<Rightarrow> ot_configuration \<Rightarrow> ot_configuration" where
  "load_otp_constants otpconst c =
     (let c1 = c\<lparr>otp := dict_update (otp c) (get_digest_pair otpconst ''cnsty_digest'' ''digest'')\<rparr>
      in c1\<lparr>otp := dict_update (otp c1) (get_digest_pair otpconst ''sram_data_key'' ''sram'')\<rparr>)"

text \<open>Reader answers used by the examples: one pair of each kind.\<close>

definition demo_otp_ext :: otp_const_ext where
  "demo_otp_ext =
     \<lparr>get_digest_pair = (\<lambda>n p.
        if n = ''cnsty_digest'' then [(''digest_const'', ''BEEF''), (''digest_iv'', ''0123'')]
        else if n = ''sram_data_key'' then [(''sram_const'', ''77'')]
        else [])\<rparr>"

section \<open>Lemmas\<close>

lemma load_otp_constants_otp:
  "otp (load_otp_constants e c) =
     dict_update (dict_update (otp c) (get_digest_pair e ''cnsty_digest'' ''digest''))
       (get_digest_pair e ''sram_data_key'' ''sram'')"
  by (simp add: load_otp_constants_def Let_def)

lemma load_otp_constants_parts:
  "lc_part (load_otp_constants e c) = lc_part c \<and> roms (load_otp_constants e c) = roms c \<and>
   top_name (load_otp_constants e c) = top_name c"
  by (simp add: load_otp_constants_def Let_def lc_part_def)

section \<open>Properties of the Digest/Key Extractor\<close>

text \<open>
  C15. After \<open>load_otp_constants\<close> the OTP map is the top-level OTP values overridden by
  the content-integrity digest pair, itself overridden by the SRAM data-key pair: a key the
  reader reports wins over a value \<open>load_top_config\<close> stored, and every other OTP value is
  kept. Nothing but the OTP map changes.
\<close>

theorem load_otp_constants_merge:
  assumes "distinct (dict_keys (get_digest_pair e ''cnsty_digest'' ''digest''))"
    and "distinct (dict_keys (get_digest_pair e ''sram_data_key'' ''sram''))"
  shows "map_of (otp (OtpConst.load_otp_constants e c)) =
           map_of (otp c) ++ map_of (get_digest_pair e ''cnsty_digest'' ''digest'')
             ++ map_of (get_digest_pair e ''sram_data_key'' ''sram'') \<and>
         lc_part (OtpConst.load_otp_constants e c) = lc_part c \<and>
         roms (OtpConst.load_otp_constants e c) = roms c \<and>
         top_name (OtpConst.load_otp_constants e c) = top_name c"
  using assms by (simp add: load_otp_constants_otp load_otp_constants_parts map_of_dict_update)

theorem load_otp_constants_merge_witness:
  "map_of (otp (load_otp_constants demo_otp_ext
                  (OtConfiguration\<lparr>otp := [(''digest_iv'', ''FFFF''), (''key'', ''11'')]\<rparr>))) =
     map_of [(''digest_iv'', ''0123''), (''key'', ''11''), (''digest_const'', ''BEEF''),
             (''sram_const'', ''77'')]"
proof -
  have "distinct (dict_keys (get_digest_pair demo_otp_ext ''cnsty_digest'' ''digest''))"
    and "distinct (dict_keys (get_digest_pair demo_otp_ext ''sram_data_key'' ''sram''))"
    by (simp_all add: demo_otp_ext_def)
  from load_otp_constants_merge [OF this,
      of "OtConfiguration\<lparr>otp := [(''digest_iv'', ''FFFF''), (''key'', ''11'')]\<rparr>"]
  show ?thesis by (simp add: demo_otp_ext_def OtConfiguration_def fun_eq_iff map_add_def)
qed

end
