(* ===== verification/Render.thy ===== *)
theory Render
  imports OtpConst
begin

text \<open>
  The Configuration Assembler: \<open>OtConfiguration.save\<close>, \<open>add_pair\<close>, \<open>_generate_roms\<close>,
  \<open>_generate_otp\<close> and \<open>_generate_life_cycle\<close> (\<open>cfggen.py\<close> lines 131-151 and 180-228),
  and the part of the standard library's \<open>configparser.ConfigParser\<close> they rely on:
  \<open>cfg[section] = dict\<close> (clear the section in place, then \<open>read_dict\<close>: option names
  lower-cased by \<open>optionxform\<close>, a repeated option is \<open>DuplicateOptionError\<close>, every value
  checked by \<open>BasicInterpolation.before_set\<close>) and \<open>write\<close>. A parser is the ordered map of
  its sections; \<open>save\<close> returns the text that \<open>write\<close> sends to the output file or to
  standard output.
\<close>

section \<open>\<open>configparser.ConfigParser\<close>\<close>

type_synonym config_parser = "(string, table) pydict"

text \<open>\<open>value.replace('%%', '')\<close>: escaped percent signs, scanned left to right.\<close>

fun drop_escaped_pct :: "string \<Rightarrow> string" where
  "drop_escaped_pct (a # b # r) =
     (if a = CHR ''%'' \<and> b = CHR ''%'' then drop_escaped_pct r else a # drop_escaped_pct (b # r))"
| "drop_escaped_pct r = r"

text \<open>
  \<open>_KEYCRE.sub('', value)\<close> with \<open>_KEYCRE = %\(([^)]+)\)s\<close>: a reference \<open>%(name)s\<close>
  ends at the first closing parenthesis, so the leftmost match at a position is unique.
\<close>

function drop_interp_refs :: "string \<Rightarrow> string" where
  "drop_interp_refs (a # b # r) =
     (let name = takeWhile (\<lambda>x. x \<noteq> CHR '')'') r; rest = dropWhile (\<lambda>x. x \<noteq> CHR '')'') r in
      if a = CHR ''%'' \<and> b = CHR ''('' \<and> name \<noteq> [] \<and> take 2 rest = '')s''
      then drop_interp_refs (drop 2 rest) else a # drop_interp_refs (b # r))"
| "drop_interp_refs [] = []"
| "drop_interp_refs [a] = [a]"
  by pat_completeness auto
termination
  by (relation "measure length")
    (auto intro!: le_less_trans [OF diff_le_self] le_less_trans [OF length_dropWhile_le])

definition interp_before_set :: "string \<Rightarrow> string result" where
  "interp_before_set v =
     (if v \<noteq> [] \<and> CHR ''%'' \<in> set (drop_interp_refs (drop_escaped_pct v))
      then Inl (ValueError ''invalid interpolation syntax'') else Inr v)"

text \<open>
  One option of \<open>read_dict\<close>. The section was cleared just before, so the options
  \<open>read_dict\<close> has already added to it (its \<open>elements_added\<close>) are exactly its keys.
\<close>

definition cp_set_option :: "string \<Rightarrow> string \<times> string \<Rightarrow> table \<Rightarrow> table result" where
  "cp_set_option sec kv sect =
     (case kv of (k, v) \<Rightarrow>
        let k' = py_lower k in
        if k' \<in> set (dict_keys sect) then Inl (DuplicateOptionError sec k')
        else rbind (interp_before_set v) (\<lambda>v'. Inr (dict_set sect k' v')))"

definition cp_setitem :: "config_parser \<Rightarrow> string \<Rightarrow> table \<Rightarrow> config_parser result" where
  "cp_setitem cfg sec opts =
     rbind (rfold (cp_set_option sec) opts []) (\<lambda>sect. Inr (dict_set cfg sec sect))"

text \<open>When \<open>read_dict\<close> accepts a section: no two option names equal once lower-cased and
  every value passes the interpolation check.\<close>

definition options_ok :: "table \<Rightarrow> bool" where
  "options_ok opts \<longleftrightarrow>
     distinct (map (py_lower \<circ> fst) opts) \<and> list_all (\<lambda>(k, v). interp_before_set v = Inr v) opts"

definition cp_write_value :: "string \<Rightarrow> string" where
  "cp_write_value v = concat (map (\<lambda>c. if c = newline then [newline, CHR 0x09] else [c]) v)"

definition cp_write_section :: "string \<Rightarrow> table \<Rightarrow> string" where
  "cp_write_section name items =
     ''['' @ name @ '']'' @ [newline]
     @ concat (map (\<lambda>(k, v). k @ '' = '' @ cp_write_value v @ [newline]) items) @ [newline]"

definition cp_write :: "config_parser \<Rightarrow> string" where
  "cp_write cfg = concat (map (\<lambda>(s, t). cp_write_section s t) cfg)"

section \<open>Section contents\<close>

definition add_pair :: "table \<Rightarrow> string \<Rightarrow> string \<Rightarrow> table" where
  "add_pair data kname v =
     (if v \<noteq> [] then dict_set data (''  '' @ kname) (dquote # v @ [dquote]) else data)"

definition add_pairs :: "table \<Rightarrow> table \<Rightarrow> table" where
  "add_pairs data kvs = fold (\<lambda>(k, v) d. add_pair d k v) kvs data"

text \<open>
  The shape of an option as \<open>write\<close> renders it, \<open>  <key> = "<value>"\<close>: the key is the
  two-space indent and a lower-case name, the value is quoted and not empty.
\<close>

definition rendered_option :: "string \<times> string \<Rightarrow> bool" where
  "rendered_option e \<longleftrightarrow>
     (case e of (k, v) \<Rightarrow>
        py_startswith k ''  '' \<and> py_lower k = k \<and> 2 < length v \<and> hd v = dquote \<and> last v = dquote)"

text \<open>Tables \<open>save\<close> renders without a parser error: no upper-case letter in a key, no
  percent sign in a value.\<close>

definition plain_table :: "table \<Rightarrow> bool" where
  "plain_table t \<longleftrightarrow> list_all (\<lambda>(k, v). \<not> list_ex is_upper k \<and> CHR ''%'' \<notin> set v) t"

definition section_name :: "string \<Rightarrow> string" where
  "section_name n = ''ot_device '' @ [dquote] @ n @ [dquote]"

text \<open>\<open>if socid: nameargs.append(...)\<close>: an empty identifier counts as absent.\<close>

definition socid_args :: "string option \<Rightarrow> string list" where
  "socid_args socid = (case socid of Some s \<Rightarrow> if s = [] then [] else [s] | None \<Rightarrow> [])"

definition rom_name :: "string option \<Rightarrow> int \<Rightarrow> nat \<Rightarrow> nat option \<Rightarrow> string" where
  "rom_name socid count cnt rom =
     py_join ''.'' ([''ot-rom_ctrl'']
       @ map (\<lambda>s. if 1 < count then s @ py_str_nat cnt else s) (socid_args socid)
       @ (case rom of Some r \<Rightarrow> [''rom'' @ py_str_nat r] | None \<Rightarrow> []))"

definition rom_data :: "table \<Rightarrow> table" where
  "rom_data data = add_pairs [] (sort data)"

definition generate_roms ::
  "ot_configuration \<Rightarrow> config_parser \<Rightarrow> string option \<Rightarrow> int \<Rightarrow> config_parser result" where
  "generate_roms c cfg socid count =
     rfold (\<lambda>cnt. rfold (\<lambda>(rom, data) cfg.
                         cp_setitem cfg (section_name (rom_name socid count cnt rom)) (rom_data data))
                       (roms c))
       [0..<nat count] cfg"

definition otp_name :: "string \<Rightarrow> string option \<Rightarrow> string" where
  "otp_name variant socid = py_join ''.'' ((''ot-otp-'' @ variant) # socid_args socid)"

definition generate_otp ::
  "ot_configuration \<Rightarrow> config_parser \<Rightarrow> string \<Rightarrow> string option \<Rightarrow> config_parser result" where
  "generate_otp c cfg variant socid =
     cp_setitem cfg (section_name (otp_name variant socid)) (sort (add_pairs [] (otp c)))"

definition lc_name :: "string option \<Rightarrow> string" where
  "lc_name socid = py_join ''.'' (''ot-lc_ctrl'' # socid_args socid)"

definition lc_range_pairs :: "ot_configuration \<Rightarrow> table" where
  "lc_range_pairs c =
     [(''lc_state_first'', fst (lc_states c)), (''lc_state_last'', snd (lc_states c)),
      (''lc_trscnt_first'', fst (lc_transitions c)), (''lc_trscnt_last'', snd (lc_transitions c)),
      (''ownership_first'', fst (ownership c)), (''ownership_last'', snd (ownership c)),
      (''socdbg_first'', fst (socdbg c)), (''socdbg_last'', snd (socdbg c))]"

definition lc_data :: "ot_configuration \<Rightarrow> table" where
  "lc_data c = add_pairs (add_pairs [] (lc_range_pairs c)) (lc c)"

definition generate_life_cycle ::
  "ot_configuration \<Rightarrow> config_parser \<Rightarrow> string option \<Rightarrow> config_parser result" where
  "generate_life_cycle c cfg socid =
     cp_setitem cfg (section_name (lc_name socid)) (sort (lc_data c))"

text \<open>The parser \<open>save\<close> fills before writing it; \<open>count or 1\<close> maps None and 0 to 1.\<close>

definition build_parser ::
  "ot_configuration \<Rightarrow> string \<Rightarrow> string option \<Rightarrow> int option \<Rightarrow> config_parser result" where
  "build_parser c variant socid count =
     rbind (generate_roms c [] socid (case count of Some n \<Rightarrow> if n = 0 then 1 else n | None \<Rightarrow> 1))
       (\<lambda>cfg. rbind (generate_otp c cfg variant socid) (\<lambda>cfg. generate_life_cycle c cfg socid))"

definition save :: "ot_configuration \<Rightarrow> string \<Rightarrow> string option \<Rightarrow> int option \<Rightarrow> string result" where
  "save c variant socid count = rbind (build_parser c variant socid count) (\<lambda>cfg. Inr (cp_write cfg))"


text \<open>A configuration used by the examples: two ROM banks, one OTP value, a lifecycle range
  and one token.\<close>

definition demo_render_cfg :: ot_configuration where
  "demo_render_cfg =
     OtConfiguration\<lparr>lc_states := (''1'', ''2''), lc_transitions := (''1'', ''18''),
       roms := [(Some 0, [(''scr_key'', ''1A2B'')]), (Some 1, [(''scr_nonce'', ''42'')])],
       otp := [(''digest_init'', ''CAFE'')], lc := [(''test_unlock_token'', ''0x1234'')]\<rparr>"

section \<open>Lemmas\<close>

lemma interp_before_set_Inr: "interp_before_set v = Inr v' \<Longrightarrow> v' = v"
  by (simp add: interp_before_set_def split: if_split_asm)

lemma rfold_cp_set_option:
  "distinct (dict_keys acc) \<Longrightarrow>
   rfold (cp_set_option sec) opts acc = Inr r \<longleftrightarrow>
     distinct (dict_keys acc @ map (py_lower \<circ> fst) opts) \<and>
     list_all (\<lambda>(k, v). interp_before_set v = Inr v) opts \<and> r = acc @ map (apfst py_lower) opts"
proof (induction opts arbitrary: acc)
  case Nil
  then show ?case by auto
next
  case (Cons kv opts)
  obtain k v where kv: "kv = (k, v)" by fastforce
  show ?case
  proof (cases "py_lower k \<in> fst ` set acc")
    case True
    then show ?thesis by (simp add: kv cp_set_option_def)
  next
    case False
    then show ?thesis
      using Cons.prems Cons.IH [of "acc @ [(py_lower k, v)]"]
      by (auto simp: kv cp_set_option_def dict_set_new rbind_eq_Inr dest: interp_before_set_Inr)
  qed
qed

lemma cp_setitem_Inr:
  "cp_setitem cfg sec opts = Inr cfg' \<longleftrightarrow>
     options_ok opts \<and> cfg' = dict_set cfg sec (map (apfst py_lower) opts)"
  using rfold_cp_set_option [of "[]" sec opts]
  by (auto simp: cp_setitem_def options_ok_def rbind_eq_Inr)

lemma drop_escaped_pct_subset: "set (drop_escaped_pct s) \<subseteq> set s"
  by (induction s rule: drop_escaped_pct.induct) auto

lemma drop_interp_refs_subset: "set (drop_interp_refs s) \<subseteq> set s"
proof (induction s rule: drop_interp_refs.induct)
  case (1 a b r)
  let ?rest = "dropWhile (\<lambda>x. x \<noteq> CHR '')'') r"
  show ?case
  proof (cases "a = CHR ''%'' \<and> b = CHR ''('' \<and> takeWhile (\<lambda>x. x \<noteq> CHR '')'') r \<noteq> [] \<and>
                take 2 ?rest = '')s''")
    case True
    have "set (drop 2 ?rest) \<subseteq> set r"
      using set_drop_subset set_dropWhileD by fastforce
    then show ?thesis using 1(1) [OF refl refl True] True by (auto simp: Let_def)
  next
    case False
    then show ?thesis using 1(2) [OF refl refl False] by (auto simp: Let_def)
  qed
qed auto

lemma interp_no_pct: "CHR ''%'' \<notin> set v \<Longrightarrow> interp_before_set v = Inr v"
  using drop_interp_refs_subset drop_escaped_pct_subset by (fastforce simp: interp_before_set_def)

lemma options_ok_plain:
  "distinct (dict_keys X) \<Longrightarrow> \<forall>(k, v)\<in>set X. py_lower k = k \<and> CHR ''%'' \<notin> set v \<Longrightarrow> options_ok X"
proof -
  assume d: "distinct (dict_keys X)" and p: "\<forall>(k, v)\<in>set X. py_lower k = k \<and> CHR ''%'' \<notin> set v"
  have "map (py_lower \<circ> fst) X = map fst X"
    using p by (auto intro: map_cong)
  with d have "distinct (map (py_lower \<circ> fst) X)" by (simp only:)
  with p show "options_ok X" by (auto simp: options_ok_def list_all_iff interp_no_pct)
qed

lemma sort_plain:
  "\<forall>(k, v)\<in>set X. py_lower k = k \<and> CHR ''%'' \<notin> set v \<Longrightarrow> distinct (dict_keys X) \<Longrightarrow>
   options_ok (sort X)"
  by (rule options_ok_plain) (simp_all add: distinct_map)

lemma section_name_inj [simp]: "section_name a = section_name b \<longleftrightarrow> a = b"
  by (simp add: section_name_def)

lemma rom_name_eq:
  "rom_name socid count cnt rom =
     ''ot-rom_ctrl'' @ concat (map (\<lambda>s. ''.'' @ (if 1 < count then s @ py_str_nat cnt else s))
                                   (socid_args socid))
     @ (case rom of Some r \<Rightarrow> ''.rom'' @ py_str_nat r | None \<Rightarrow> [])"
  by (simp add: rom_name_def py_join_Cons comp_def split: option.split)

lemma rom_suffix_inj:
  "(case r1 of Some r \<Rightarrow> ''.rom'' @ py_str_nat r | None \<Rightarrow> []) =
   (case r2 of Some r \<Rightarrow> ''.rom'' @ py_str_nat r | None \<Rightarrow> []) \<Longrightarrow> r1 = r2"
  by (auto split: option.splits dest: py_str_nat_inj)

lemma rom_name_inj_rom: "rom_name socid count cnt r1 = rom_name socid count cnt r2 \<Longrightarrow> r1 = r2"
  by (simp add: rom_name_eq rom_suffix_inj)

lemma rom_name_inj:
  assumes "socid_args socid \<noteq> []" "1 < count"
    and "rom_name socid count c1 r1 = rom_name socid count c2 r2"
  shows "c1 = c2 \<and> r1 = r2"
proof -
  obtain s where s: "socid_args socid = [s]"
    using assms(1) by (auto simp: socid_args_def split: option.splits if_splits)
  let ?X = "\<lambda>r1. case r1 of Some r \<Rightarrow> ''.rom'' @ py_str_nat r | None \<Rightarrow> []"
  have eq: "py_str_nat c1 @ ?X r1 = py_str_nat c2 @ ?X r2"
    using assms(2,3) by (simp add: rom_name_eq s)
  have "py_str_nat c1 = py_str_nat c2 \<and> ?X r1 = ?X r2"
    by (rule digits_append_inj [OF py_str_nat_is_digit py_str_nat_is_digit _ _ eq])
       (auto split: option.split simp: is_digit_def)
  then show ?thesis by (auto dest: py_str_nat_inj rom_suffix_inj)
qed

lemma rom_name_no_socid:
  "socid_args socid = [] \<or> \<not> 1 < count \<Longrightarrow> rom_name socid count c1 r = rom_name socid count c2 r"
  by (auto simp: rom_name_eq)

lemma otp_lc_names_differ [simp]: "otp_name variant s1 \<noteq> lc_name s2"
  by (simp add: otp_name_def lc_name_def py_join_Cons)

lemma rfold_setitem_keys:
  "rfold (\<lambda>x cfg. cp_setitem cfg (nm x) (od x)) xs cfg = Inr cfg' \<Longrightarrow>
   dict_keys cfg' = fold (\<lambda>k ks. if k \<in> set ks then ks else ks @ [k]) (map nm xs) (dict_keys cfg)"
proof (induction xs arbitrary: cfg)
  case (Cons x xs)
  then obtain c1 where c1: "cp_setitem cfg (nm x) (od x) = Inr c1"
    and rest: "rfold (\<lambda>x cfg. cp_setitem cfg (nm x) (od x)) xs c1 = Inr cfg'"
    by (auto simp: rbind_eq_Inr)
  have "dict_keys c1 = (if nm x \<in> set (dict_keys cfg) then dict_keys cfg else dict_keys cfg @ [nm x])"
    using c1 by (simp add: cp_setitem_Inr keys_dict_set)
  then show ?case using Cons.IH [OF rest] by simp
qed simp

lemma generate_roms_product:
  "generate_roms c cfg socid count =
     rfold (\<lambda>x cfg. cp_setitem cfg (case x of (cnt, rom, _) \<Rightarrow> section_name (rom_name socid count cnt rom))
                                    (case x of (_, _, data) \<Rightarrow> rom_data data))
       (List.product [0..<nat count] (roms c)) cfg"
  unfolding generate_roms_def rfold_nested by (simp add: case_prod_beta')

lemma generate_roms_keys:
  "generate_roms c cfg socid count = Inr cfg' \<Longrightarrow>
   dict_keys cfg' = fold (\<lambda>k ks. if k \<in> set ks then ks else ks @ [k])
     (map (\<lambda>(cnt, rom, _). section_name (rom_name socid count cnt rom)) (List.product [0..<nat count] (roms c)))
     (dict_keys cfg)"
  unfolding generate_roms_product by (rule rfold_setitem_keys)

lemma generate_roms_no_banks: "roms c = [] \<Longrightarrow> generate_roms c cfg socid count = Inr cfg"
  by (simp add: generate_roms_product)

lemma add_pairs_Nil [simp]: "add_pairs d [] = d"
  by (simp add: add_pairs_def)

lemma add_pairs_Cons [simp]: "add_pairs d ((k, v) # kvs) = add_pairs (add_pair d k v) kvs"
  by (simp add: add_pairs_def)

lemma add_pair_entry:
  "e \<in> set (add_pair d k v) \<Longrightarrow> e \<in> set d \<or> (v \<noteq> [] \<and> e = (''  '' @ k, dquote # v @ [dquote]))"
proof -
  assume e: "e \<in> set (add_pair d k v)"
  show ?thesis
  proof (cases "v = []")
    case True
    then show ?thesis using e by (simp add: add_pair_def)
  next
    case False
    then have "set (add_pair d k v) \<subseteq> insert (''  '' @ k, dquote # v @ [dquote]) (set d)"
      by (simp add: add_pair_def set_dict_set)
    then show ?thesis using e False by blast
  qed
qed

lemma add_pairs_entry:
  "(k, v) \<in> set (add_pairs d kvs) \<Longrightarrow>
   (k, v) \<in> set d \<or> (\<exists>k0 v0. k = ''  '' @ k0 \<and> v = dquote # v0 @ [dquote] \<and> v0 \<noteq> [] \<and> (k0, v0) \<in> set kvs)"
proof (induction kvs arbitrary: d)
  case (Cons kv kvs)
  obtain k1 v1 where kv: "kv = (k1, v1)" by fastforce
  have "(k, v) \<in> set (add_pair d k1 v1) \<or>
        (\<exists>k0 v0. k = ''  '' @ k0 \<and> v = dquote # v0 @ [dquote] \<and> v0 \<noteq> [] \<and> (k0, v0) \<in> set kvs)"
    using Cons.prems Cons.IH [of "add_pair d k1 v1"] by (simp add: kv)
  then show ?case
  proof
    assume "(k, v) \<in> set (add_pair d k1 v1)"
    then show ?thesis by (auto simp: kv dest: add_pair_entry)
  qed (auto simp: kv)
qed simp

lemma keys_add_pairs_mono: "fst ` set d \<subseteq> fst ` set (add_pairs d kvs)"
proof (induction kvs arbitrary: d)
  case (Cons kv kvs)
  obtain k v where kv: "kv = (k, v)" by fastforce
  have "fst ` set d \<subseteq> fst ` set (add_pair d k v)" by (auto simp: add_pair_def)
  then show ?case using Cons.IH [of "add_pair d k v"] by (simp add: kv)
qed simp

lemma keys_add_pairs:
  "(k, v) \<in> set kvs \<Longrightarrow> v \<noteq> [] \<Longrightarrow> ''  '' @ k \<in> fst ` set (add_pairs d kvs)"
proof (induction kvs arbitrary: d)
  case (Cons kv kvs)
  obtain k1 v1 where kv: "kv = (k1, v1)" by fastforce
  show ?case
  proof (cases "(k, v) \<in> set kvs")
    case True
    then show ?thesis using Cons.IH Cons.prems(2) by (simp add: kv)
  next
    case False
    then have "k1 = k" "v1 = v" using Cons.prems(1) by (simp_all add: kv)
    then have "''  '' @ k \<in> fst ` set (add_pair d k1 v1)" using Cons.prems(2) by (simp add: add_pair_def)
    then show ?thesis using keys_add_pairs_mono [of "add_pair d k1 v1" kvs] by (auto simp: kv)
  qed
qed simp

lemma distinct_add_pairs [simp]:
  "distinct (dict_keys d) \<Longrightarrow> distinct (dict_keys (add_pairs d kvs))"
proof (induction kvs arbitrary: d)
  case (Cons kv kvs)
  then show ?case by (cases kv) (simp add: add_pair_def)
qed simp

lemma add_pairs_shape:
  "(k, v) \<in> set (add_pairs (add_pairs [] r) kvs) \<Longrightarrow>
   \<exists>k0 v0. k = ''  '' @ k0 \<and> v = dquote # v0 @ [dquote] \<and> v0 \<noteq> []"
  by (auto dest!: add_pairs_entry)

lemma add_pairs_shape0:
  "(k, v) \<in> set (add_pairs [] kvs) \<Longrightarrow>
   \<exists>k0 v0. k = ''  '' @ k0 \<and> v = dquote # v0 @ [dquote] \<and> v0 \<noteq> []"
  by (auto dest!: add_pairs_entry)

lemma add_pairs_plain:
  assumes "\<forall>(k, v)\<in>set d. py_lower k = k \<and> CHR ''%'' \<notin> set v" and "plain_table kvs"
  shows "\<forall>(k, v)\<in>set (add_pairs d kvs). py_lower k = k \<and> CHR ''%'' \<notin> set v"
proof (clarify)
  fix k v
  assume "(k, v) \<in> set (add_pairs d kvs)"
  then consider "(k, v) \<in> set d"
    | k0 v0 where "k = ''  '' @ k0" "v = dquote # v0 @ [dquote]" "(k0, v0) \<in> set kvs"
    by (blast dest: add_pairs_entry)
  then show "py_lower k = k \<and> CHR ''%'' \<notin> set v"
  proof cases
    case 1
    then show ?thesis using assms(1) by blast
  next
    case 2
    then have "\<not> list_ex is_upper k0 \<and> CHR ''%'' \<notin> set v0"
      using assms(2) by (auto simp: plain_table_def list_all_iff)
    then show ?thesis using 2 by (simp add: py_lower_no_upper_id)
  qed
qed

lemma plain_sort [simp]: "plain_table (sort t) = plain_table t"
  by (simp add: plain_table_def list_all_iff)

lemma rendered_option_quoted:
  "v0 \<noteq> [] \<Longrightarrow> rendered_option (py_lower (''  '' @ k0), dquote # v0 @ [dquote])"
  by (simp add: rendered_option_def py_startswith_def)

lemma cp_setitem_rendered:
  assumes "cp_setitem cfg sec opts = Inr cfg'"
    and "\<forall>(s, t)\<in>set cfg. list_all rendered_option t"
    and "\<forall>(k, v)\<in>set opts. \<exists>k0 v0. k = ''  '' @ k0 \<and> v = dquote # v0 @ [dquote] \<and> v0 \<noteq> []"
  shows "\<forall>(s, t)\<in>set cfg'. list_all rendered_option t"
proof -
  have "set cfg' \<subseteq> insert (sec, map (apfst py_lower) opts) (set cfg)"
    using assms(1) set_dict_set by (simp add: cp_setitem_Inr)
  moreover have "rendered_option (apfst py_lower e)" if e: "e \<in> set opts" for e
  proof -
    obtain k v where kv: "e = (k, v)" by fastforce
    obtain k0 v0 where "k = ''  '' @ k0" "v = dquote # v0 @ [dquote]" "v0 \<noteq> []"
      using bspec [OF assms(3) e] kv by auto
    then show ?thesis using rendered_option_quoted [of v0 k0] by (simp add: kv)
  qed
  then have "list_all rendered_option (map (apfst py_lower) opts)"
    by (simp add: list_all_iff)
  ultimately show ?thesis using assms(2) by auto
qed

lemma generate_roms_rendered:
  assumes "generate_roms c cfg socid count = Inr cfg'"
    and "\<forall>(s, t)\<in>set cfg. list_all rendered_option t"
  shows "\<forall>(s, t)\<in>set cfg'. list_all rendered_option t"
proof (rule rfold_invariant [where P = "\<lambda>cfg. \<forall>(s, t)\<in>set cfg. list_all rendered_option t",
                             OF _ assms(2) assms(1) [unfolded generate_roms_product]])
  fix x s s'
  assume inv: "\<forall>(s, t)\<in>set s. list_all rendered_option t"
    and set: "cp_setitem s (case x of (cnt, rom, _) \<Rightarrow> section_name (rom_name socid count cnt rom))
                (case x of (_, _, data) \<Rightarrow> rom_data data) = Inr s'"
  obtain cnt rom data where x: "x = (cnt, rom, data)" by (cases x) auto
  show "\<forall>(s, t)\<in>set s'. list_all rendered_option t"
    by (rule cp_setitem_rendered [OF set [unfolded x prod.case] inv])
       (auto simp: rom_data_def dest: add_pairs_shape0)
qed

lemma lc_range_pairs_lower: "list_all (\<lambda>(k, _). \<not> list_ex is_upper k) (lc_range_pairs c)"
  by (simp add: lc_range_pairs_def is_upper_def)

lemma lc_data_keys:
  assumes "list_all (\<lambda>(k, _). \<not> list_ex is_upper k) (lc c)" and "(k, v) \<in> set (lc_data c)"
  shows "py_lower k = k"
proof -
  have "\<exists>k0 v0. k = ''  '' @ k0 \<and> ((k0, v0) \<in> set (lc_range_pairs c) \<or> (k0, v0) \<in> set (lc c))"
  proof (cases "(k, v) \<in> set (add_pairs [] (lc_range_pairs c))")
    case True
    then show ?thesis by (auto dest!: add_pairs_entry)
  next
    case False
    then show ?thesis using assms(2) unfolding lc_data_def by (auto dest!: add_pairs_entry)
  qed
  then obtain k0 v0 where k: "k = ''  '' @ k0"
    and "(k0, v0) \<in> set (lc_range_pairs c) \<or> (k0, v0) \<in> set (lc c)" by blast
  then have "\<not> list_ex is_upper k0"
    using assms(1) lc_range_pairs_lower [of c] by (auto simp: list_all_iff)
  then show ?thesis by (simp add: k py_lower_no_upper_id)
qed

lemma rom_names_distinct:
  assumes "distinct (dict_keys (roms c))" "socid_args socid \<noteq> [] \<or> count \<le> 1"
  shows "distinct (map (\<lambda>(cnt, rom, _::table). section_name (rom_name socid count cnt rom))
                    (List.product [0..<nat count] (roms c)))"
proof -
  let ?nm = "\<lambda>(cnt, rom, _::table). section_name (rom_name socid count cnt rom)"
  have "inj_on ?nm (set (List.product [0..<nat count] (roms c)))"
  proof (rule inj_onI, clarsimp)
    fix c1 r1 t1 c2 r2 t2
    assume m: "c1 < nat count" "(r1, t1) \<in> set (roms c)" "c2 < nat count" "(r2, t2) \<in> set (roms c)"
      and eq: "rom_name socid count c1 r1 = rom_name socid count c2 r2"
    have "c1 = c2 \<and> r1 = r2"
    proof (cases "1 < count")
      case True
      with assms(2) have "socid_args socid \<noteq> []" by simp
      then show ?thesis using rom_name_inj [OF _ True eq] by simp
    next
      case False
      with m have "c1 = 0" "c2 = 0" by simp_all
      then show ?thesis using eq by (simp add: rom_name_inj_rom)
    qed
    then show "c1 = c2 \<and> r1 = r2 \<and> t1 = t2"
      using eq_key_imp_eq_value [OF assms(1)] m by blast
  qed
  moreover have "distinct (List.product [0..<nat count] (roms c))"
    using assms(1) by (simp add: distinct_product distinct_map)
  ultimately show ?thesis by (simp add: distinct_map)
qed

lemma generate_roms_fresh_keys:
  assumes "distinct (dict_keys (roms c))" "socid_args socid \<noteq> [] \<or> count \<le> 1"
    and "generate_roms c [] socid count = Inr cfg"
  shows "dict_keys cfg = map (\<lambda>(cnt, rom, _). section_name (rom_name socid count cnt rom))
                          (List.product [0..<nat count] (roms c))"
  using generate_roms_keys [OF assms(3)] fold_add_new [of "[]"] rom_names_distinct [OF assms(1,2)]
  by simp

lemma rom_name_other_sections [simp]:
  "rom_name socid count cnt rom \<noteq> otp_name variant s" "rom_name socid count cnt rom \<noteq> lc_name s"
  "otp_name variant s \<noteq> rom_name socid count cnt rom" "lc_name s \<noteq> rom_name socid count cnt rom"
  "lc_name s \<noteq> otp_name variant s'"
  by (simp_all add: rom_name_eq otp_name_def lc_name_def py_join_Cons)

section \<open>Properties of the Configuration Assembler\<close>

text \<open>
  C16. With a SoC identifier, or with at most one instance, \<open>_generate_roms\<close> emits one
  section per ROM bank per instance, instance-major, bank order within an instance, with
  pairwise distinct names: \<open>count * banks\<close> sections.
\<close>

theorem generate_roms_sections:
  assumes "distinct (dict_keys (roms c))" "socid_args socid \<noteq> [] \<or> count \<le> 1"
    and "generate_roms c [] socid count = Inr cfg"
  shows "dict_keys cfg = map (\<lambda>(cnt, rom, _). section_name (rom_name socid count cnt rom))
                          (List.product [0..<nat count] (roms c)) \<and>
         distinct (dict_keys cfg) \<and> length cfg = nat count * length (roms c)"
proof -
  have k: "dict_keys cfg = map (\<lambda>(cnt, rom, _). section_name (rom_name socid count cnt rom))
                          (List.product [0..<nat count] (roms c))"
    by (rule generate_roms_fresh_keys [OF assms])
  then show ?thesis using rom_names_distinct [OF assms(1,2)]
    by (simp add: length_product flip: length_map [of fst cfg])
qed

theorem generate_roms_sections_witness:
  "dict_keys (projr (generate_roms demo_render_cfg [] (Some ''soc'') 2)) =
     map section_name [''ot-rom_ctrl.soc0.rom0'', ''ot-rom_ctrl.soc0.rom1'',
                       ''ot-rom_ctrl.soc1.rom0'', ''ot-rom_ctrl.soc1.rom1'']"
proof -
  have "\<not> isl (generate_roms demo_render_cfg [] (Some ''soc'') 2)" by code_simp
  then obtain cfg where r: "generate_roms demo_render_cfg [] (Some ''soc'') 2 = Inr cfg"
    by (cases "generate_roms demo_render_cfg [] (Some ''soc'') 2") auto
  have "distinct (dict_keys (roms demo_render_cfg))" "socid_args (Some ''soc'') \<noteq> [] \<or> (2::int) \<le> 1"
    by (simp_all add: demo_render_cfg_def OtConfiguration_def socid_args_def)
  then have k: "dict_keys cfg = map (\<lambda>(cnt, rom, _). section_name (rom_name (Some ''soc'') 2 cnt rom))
                                  (List.product [0..<nat 2] (roms demo_render_cfg))"
    using generate_roms_sections [OF _ _ r] by blast
  have e: "map (\<lambda>(cnt, rom, _). section_name (rom_name (Some ''soc'') 2 cnt rom))
             (List.product [0..<nat 2] (roms demo_render_cfg)) =
           map section_name [''ot-rom_ctrl.soc0.rom0'', ''ot-rom_ctrl.soc0.rom1'',
                             ''ot-rom_ctrl.soc1.rom0'', ''ot-rom_ctrl.soc1.rom1'']"
    by code_simp
  show ?thesis by (simp only: r sum.sel k e)
qed

text \<open>
  C17. Without a SoC identifier and with several instances, every instance writes the same
  section names: \<open>_generate_roms\<close> leaves one section per bank, not one per bank and
  instance.
\<close>

theorem generate_roms_collapse:
  assumes "distinct (dict_keys (roms c))" "socid_args socid = []" "1 < count"
    and "generate_roms c [] socid count = Inr cfg"
  shows "dict_keys cfg = map (\<lambda>(rom, _). section_name (rom_name socid count 0 rom)) (roms c)"
proof -
  let ?nm = "\<lambda>(cnt, rom, _::table). section_name (rom_name socid count cnt rom)"
  let ?first = "map (\<lambda>(rom, _). section_name (rom_name socid count 0 rom)) (roms c)"
  have first: "map ?nm (map (Pair 0) (roms c)) = ?first" by auto
  have "inj_on (\<lambda>(rom, _). section_name (rom_name socid count 0 rom)) (set (roms c))"
  proof (rule inj_onI, clarsimp)
    fix r1 t1 r2 t2
    assume "(r1, t1) \<in> set (roms c)" "(r2, t2) \<in> set (roms c)"
      and "rom_name socid count 0 r1 = rom_name socid count 0 r2"
    then show "r1 = r2 \<and> t1 = t2"
      using eq_key_imp_eq_value [OF assms(1)] rom_name_inj_rom by blast
  qed
  then have "distinct ?first"
    using assms(1) by (simp add: distinct_map)
  moreover have "set (map ?nm (List.product [1..<nat count] (roms c))) \<subseteq> set ?first"
    using rom_name_no_socid [of socid count] assms(2) by force
  ultimately have "fold (\<lambda>k ks. if k \<in> set ks then ks else ks @ [k])
      (map ?nm (List.product [1..<nat count] (roms c)))
      (fold (\<lambda>k ks. if k \<in> set ks then ks else ks @ [k]) ?first []) = ?first"
    using fold_add_new [of "[]" ?first] fold_add_old [of _ ?first] by simp
  moreover have "List.product [0..<nat count] (roms c) =
      map (Pair 0) (roms c) @ List.product [1..<nat count] (roms c)"
    using assms(3) by (simp add: product_upt_0)
  ultimately show ?thesis
    using generate_roms_keys [OF assms(4)] by (simp only: list.map map_append fold_append o_apply first)
qed

theorem generate_roms_collapse_witness:
  "dict_keys (projr (generate_roms demo_render_cfg [] None 3)) =
     map section_name [''ot-rom_ctrl.rom0'', ''ot-rom_ctrl.rom1'']"
proof -
  have "\<not> isl (generate_roms demo_render_cfg [] None 3)" by code_simp
  then obtain cfg where r: "generate_roms demo_render_cfg [] None 3 = Inr cfg"
    by (cases "generate_roms demo_render_cfg [] None 3") auto
  have "distinct (dict_keys (roms demo_render_cfg))" "socid_args None = []" "1 < (3::int)"
    by (simp_all add: demo_render_cfg_def OtConfiguration_def socid_args_def)
  then have k: "dict_keys cfg = map (\<lambda>(rom, _). section_name (rom_name None 3 0 rom)) (roms demo_render_cfg)"
    using generate_roms_collapse [OF _ _ _ r] by blast
  have e: "map (\<lambda>(rom, _). section_name (rom_name None 3 0 rom)) (roms demo_render_cfg) =
           map section_name [''ot-rom_ctrl.rom0'', ''ot-rom_ctrl.rom1'']"
    by code_simp
  show ?thesis by (simp only: r sum.sel k e)
qed

text \<open>
  C18. Every option \<open>save\<close> writes has the form \<open>  <key> = "<value>"\<close>: a two-space
  indent, a lower-case key and a non-empty quoted value; empty values are never written.
\<close>

theorem build_parser_rendered:
  "build_parser c variant socid count = Inr cfg \<Longrightarrow> list_all (\<lambda>(s, t). list_all rendered_option t) cfg"
proof -
  assume "build_parser c variant socid count = Inr cfg"
  then obtain c1 c2 where
    r: "generate_roms c [] socid (case count of Some n \<Rightarrow> if n = 0 then 1 else n | None \<Rightarrow> 1) = Inr c1"
    and o: "generate_otp c c1 variant socid = Inr c2" and l: "generate_life_cycle c c2 socid = Inr cfg"
    by (auto simp: build_parser_def rbind_eq_Inr)
  have "\<forall>(s, t)\<in>set c1. list_all rendered_option t"
    by (rule generate_roms_rendered [OF r]) simp
  then have "\<forall>(s, t)\<in>set c2. list_all rendered_option t"
    by (rule cp_setitem_rendered [OF o [unfolded generate_otp_def]]) (auto dest: add_pairs_shape0)
  then have "\<forall>(s, t)\<in>set cfg. list_all rendered_option t"
    by (rule cp_setitem_rendered [OF l [unfolded generate_life_cycle_def]])
       (auto simp: lc_data_def dest: add_pairs_shape)
  then show ?thesis by (simp add: list_all_iff)
qed

theorem build_parser_rendered_witness:
  "list_all (\<lambda>(s, t). list_all rendered_option t)
     (projr (build_parser demo_render_cfg ''eg'' (Some ''soc'') (Some 2)))"
proof -
  have "\<not> isl (build_parser demo_render_cfg ''eg'' (Some ''soc'') (Some 2))" by code_simp
  then obtain cfg where r: "build_parser demo_render_cfg ''eg'' (Some ''soc'') (Some 2) = Inr cfg"
    by (cases "build_parser demo_render_cfg ''eg'' (Some ''soc'') (Some 2)") auto
  show ?thesis using build_parser_rendered [OF r] by (simp only: r sum.sel)
qed

text \<open>
  C19. When no token name has an upper-case letter, the lifecycle section holds exactly the
  range keys and the tokens, sorted as one set: the range-derived keys interleave with the
  tokens, with no duplicate key.
\<close>

theorem generate_life_cycle_sorted:
  assumes "generate_life_cycle c cfg socid = Inr cfg'"
    and "list_all (\<lambda>(k, _). \<not> list_ex is_upper k) (lc c)"
  shows "\<exists>t. map_of cfg' (section_name (lc_name socid)) = Some t \<and>
             sorted (dict_keys t) \<and> distinct (dict_keys t) \<and> map_of t = map_of (lc_data c)"
proof -
  have "map (apfst py_lower) (sort (lc_data c)) = sort (lc_data c)"
    using lc_data_keys [OF assms(2)] by (auto intro!: map_idI simp: apfst_def map_prod_def)
  then have "cfg' = dict_set cfg (section_name (lc_name socid)) (sort (lc_data c))"
    using assms(1) by (simp add: generate_life_cycle_def cp_setitem_Inr)
  moreover have "distinct (dict_keys (lc_data c))" by (simp add: lc_data_def)
  ultimately show ?thesis using sort_dict [of "lc_data c"] by simp
qed

theorem generate_life_cycle_sorted_witness:
  "\<exists>t. map_of (projr (generate_life_cycle demo_render_cfg [] None)) (section_name (lc_name None)) = Some t \<and>
       sorted (dict_keys t) \<and> distinct (dict_keys t) \<and> map_of t = map_of (lc_data demo_render_cfg)"
proof -
  have "\<not> isl (generate_life_cycle demo_render_cfg [] None)" by code_simp
  then obtain cfg where r: "generate_life_cycle demo_render_cfg [] None = Inr cfg"
    by (cases "generate_life_cycle demo_render_cfg [] None") auto
  have "list_all (\<lambda>(k, _). \<not> list_ex is_upper k) (lc demo_render_cfg)"
    by (simp add: demo_render_cfg_def OtConfiguration_def is_upper_def)
  from generate_life_cycle_sorted [OF r this] show ?thesis by (simp only: r sum.sel)
qed

text \<open>
  C20. \<open>save\<close> on a configuration nothing was loaded into succeeds and writes only the
  two headers of the OTP and lifecycle sections, whatever the variant, SoC identifier and
  count.
\<close>

theorem save_fresh:
  "save OtConfiguration variant socid count =
     Inr (''['' @ section_name (otp_name variant socid) @ '']'' @ [newline, newline] @
          ''['' @ section_name (lc_name socid) @ '']'' @ [newline, newline])"
proof -
  have r: "generate_roms OtConfiguration [] socid n = Inr []" for n
    by (rule generate_roms_no_banks) (simp add: OtConfiguration_def)
  have o: "otp OtConfiguration = []" by (simp add: OtConfiguration_def)
  have l: "lc_data OtConfiguration = []"
    by (simp add: lc_data_def lc_range_pairs_def OtConfiguration_def add_pair_def)
  show ?thesis
    by (simp add: save_def build_parser_def r generate_otp_def o generate_life_cycle_def l
                  cp_setitem_def cp_write_def cp_write_section_def)
qed


text \<open>
  C21. Two lifecycle tokens whose names differ only in letter case make the lifecycle
  section fail: \<open>ConfigParser\<close> lower-cases option names and rejects the second one.
\<close>

theorem generate_life_cycle_case_clash:
  assumes "(k1, v1) \<in> set (lc c)" "(k2, v2) \<in> set (lc c)" "k1 \<noteq> k2" "py_lower k1 = py_lower k2"
    and "v1 \<noteq> []" "v2 \<noteq> []"
  shows "isl (generate_life_cycle c cfg socid)"
proof (rule ccontr)
  assume "\<not> isl (generate_life_cycle c cfg socid)"
  then obtain cfg' where "generate_life_cycle c cfg socid = Inr cfg'" by (cases "generate_life_cycle c cfg socid") auto
  then have "distinct (map (py_lower \<circ> fst) (sort (lc_data c)))"
    by (simp add: generate_life_cycle_def cp_setitem_Inr options_ok_def)
  then have inj: "inj_on (py_lower \<circ> fst) (set (lc_data c))" by (simp add: distinct_map)
  obtain w1 w2 where "(''  '' @ k1, w1) \<in> set (lc_data c)" "(''  '' @ k2, w2) \<in> set (lc_data c)"
    using keys_add_pairs [OF assms(1,5)] keys_add_pairs [OF assms(2,6)] unfolding lc_data_def by force
  moreover have "(py_lower \<circ> fst) (''  '' @ k1, w1) = (py_lower \<circ> fst) (''  '' @ k2, w2)"
    using assms(4) by simp
  ultimately show False using inj_onD [OF inj] assms(3) by blast
qed

theorem generate_life_cycle_case_clash_witness:
  "isl (generate_life_cycle (OtConfiguration\<lparr>lc := [(''Tok'', ''1''), (''tok'', ''2'')]\<rparr>) [] None)"
proof -
  have m: "(''Tok'', ''1'') \<in> set (lc (OtConfiguration\<lparr>lc := [(''Tok'', ''1''), (''tok'', ''2'')]\<rparr>))"
    "(''tok'', ''2'') \<in> set (lc (OtConfiguration\<lparr>lc := [(''Tok'', ''1''), (''tok'', ''2'')]\<rparr>))"
    and ne: "''Tok'' \<noteq> ''tok''" and v: "''1'' \<noteq> []" "''2'' \<noteq> []"
    by simp_all
  have lo: "py_lower ''Tok'' = py_lower ''tok''" by code_simp
  show ?thesis by (rule generate_life_cycle_case_clash [OF m ne lo v])
qed

text \<open>
  C22. \<open>save\<close> succeeds on every configuration whose keys have no upper-case letter and
  whose values have no percent sign.
\<close>

theorem save_succeeds:
  assumes "list_all (\<lambda>(_, t). plain_table t) (roms c)" "plain_table (otp c)"
    and "plain_table (lc_range_pairs c)" "plain_table (lc c)"
  shows "\<exists>txt. save c variant socid count = Inr txt"
proof -
  have rom: "options_ok (rom_data t)" if "(r, t) \<in> set (roms c)" for r t
  proof -
    have "plain_table (sort t)" using assms(1) that by (auto simp: list_all_iff)
    then show ?thesis unfolding rom_data_def
      by (intro options_ok_plain add_pairs_plain) simp_all
  qed
  have "\<exists>cfg. generate_roms c [] socid n = Inr cfg" for n
    unfolding generate_roms_product
    by (rule rfold_total) (auto simp: cp_setitem_Inr dest: rom)
  then obtain c1 where c1: "generate_roms c [] socid
      (case count of Some n \<Rightarrow> if n = 0 then 1 else n | None \<Rightarrow> 1) = Inr c1" by blast
  have "options_ok (sort (add_pairs [] (otp c)))"
    by (intro sort_plain add_pairs_plain assms(2)) simp_all
  then obtain c2 where c2: "generate_otp c c1 variant socid = Inr c2"
    by (simp add: generate_otp_def cp_setitem_Inr)
  have "options_ok (sort (lc_data c))"
    unfolding lc_data_def
    by (intro sort_plain add_pairs_plain assms(3,4)) simp_all
  then obtain c3 where "generate_life_cycle c c2 socid = Inr c3"
    by (simp add: generate_life_cycle_def cp_setitem_Inr)
  with c1 c2 show ?thesis by (simp add: save_def build_parser_def)
qed

theorem save_succeeds_witness: "\<exists>txt. save demo_render_cfg ''eg'' None None = Inr txt"
proof -
  have "list_all (\<lambda>(_, t). plain_table t) (roms demo_render_cfg)" "plain_table (otp demo_render_cfg)"
    "plain_table (lc_range_pairs demo_render_cfg)" "plain_table (lc demo_render_cfg)"
    by (simp_all add: demo_render_cfg_def OtConfiguration_def plain_table_def lc_range_pairs_def
                      is_upper_def)
  then show ?thesis by (rule save_succeeds)
qed

text \<open>
  C23. A lifecycle token value holding a percent sign that is neither escaped as \<open>%%\<close>
  nor part of a \<open>%(name)s\<close> reference makes \<open>save\<close> fail with \<open>ValueError\<close>
  (\<open>BasicInterpolation.before_set\<close>), whatever the variant, SoC identifier and count.
\<close>

theorem save_percent_error:
  "save (OtConfiguration\<lparr>lc := [(''tok'', ''50%'')]\<rparr>) variant socid count =
     Inl (ValueError ''invalid interpolation syntax'')"
proof -
  let ?c = "OtConfiguration\<lparr>lc := [(''tok'', ''50%'')]\<rparr>"
  have r: "generate_roms ?c [] socid n = Inr []" for n
    by (rule generate_roms_no_banks) (simp add: OtConfiguration_def)
  have o: "otp ?c = []" by (simp add: OtConfiguration_def)
  have l: "lc_data ?c = [(''  tok'', dquote # ''50%'' @ [dquote])]"
    by (simp add: lc_data_def lc_range_pairs_def OtConfiguration_def add_pair_def)
  have i: "interp_before_set (dquote # ''50%'' @ [dquote]) = Inl (ValueError ''invalid interpolation syntax'')"
    by code_simp
  show ?thesis
    by (simp add: save_def build_parser_def r generate_otp_def o generate_life_cycle_def l
                  cp_setitem_def cp_set_option_def i [simplified])
qed

text \<open>
  C33. The instance count is read as \<open>count or 1\<close> and then \<open>range(count)\<close>: a count of
  0 gives one instance, a negative count gives no ROM section at all, and any other count
  gives \<open>count\<close> instances. With a SoC identifier (or a single instance) the parser holds
  exactly that many ROM sections per bank, plus the OTP and the lifecycle sections.
\<close>

theorem build_parser_count_bound:
  assumes "distinct (dict_keys (roms c))" "socid_args socid \<noteq> [] \<or> n \<le> 1"
    and "build_parser c variant socid (Some n) = Inr cfg"
  shows "length cfg = (if n = 0 then 1 else nat n) * length (roms c) + 2"
proof -
  let ?k = "if n = 0 then 1 else n"
  obtain c1 c2 where r: "generate_roms c [] socid ?k = Inr c1"
    and o: "generate_otp c c1 variant socid = Inr c2" and l: "generate_life_cycle c c2 socid = Inr cfg"
    using assms(3) by (auto simp: build_parser_def rbind_eq_Inr)
  have "socid_args socid \<noteq> [] \<or> ?k \<le> 1" using assms(2) by auto
  then have k1: "dict_keys c1 = map (\<lambda>(cnt, rom, _). section_name (rom_name socid ?k cnt rom))
                                 (List.product [0..<nat ?k] (roms c))"
    and d1: "distinct (map (\<lambda>(cnt, rom, _::table). section_name (rom_name socid ?k cnt rom))
                         (List.product [0..<nat ?k] (roms c)))"
    using generate_roms_fresh_keys [OF assms(1) _ r] rom_names_distinct [OF assms(1)] by blast+
  have "section_name (otp_name variant socid) \<notin> set (dict_keys c1)"
    using k1 by auto
  then have k2: "dict_keys c2 = dict_keys c1 @ [section_name (otp_name variant socid)]"
    using o by (auto simp: generate_otp_def cp_setitem_Inr keys_dict_set)
  have "section_name (lc_name socid) \<notin> set (dict_keys c2)"
    using k1 k2 by auto
  then have "dict_keys cfg = dict_keys c2 @ [section_name (lc_name socid)]"
    using l by (auto simp: generate_life_cycle_def cp_setitem_Inr keys_dict_set)
  then have "length cfg = length (dict_keys c1) + 2"
    using k2 by (simp flip: length_map [of fst cfg] length_map [of fst c2])
  then show ?thesis using k1 by (simp add: length_product)
qed

theorem build_parser_count_bound_witness:
  "length (projr (build_parser demo_render_cfg ''eg'' (Some ''soc'') (Some 0))) = 1 * 2 + 2"
proof -
  have "\<not> isl (build_parser demo_render_cfg ''eg'' (Some ''soc'') (Some 0))" by code_simp
  then obtain cfg where r: "build_parser demo_render_cfg ''eg'' (Some ''soc'') (Some 0) = Inr cfg"
    by (cases "build_parser demo_render_cfg ''eg'' (Some ''soc'') (Some 0)") auto
  have "distinct (dict_keys (roms demo_render_cfg))" "socid_args (Some ''soc'') \<noteq> [] \<or> (0::int) \<le> 1"
    "length (roms demo_render_cfg) = 2"
    by (simp_all add: demo_render_cfg_def OtConfiguration_def socid_args_def)
  then show ?thesis using build_parser_count_bound [OF _ _ r] r by simp
qed

end
