(* ===== verification/OtRoot.thy ===== *)
theory OtRoot
  imports PyStr
begin

text \<open>
  The search for the OpenTitan root in \<open>main\<close> (\<open>cfggen.py\<close> lines 306-316): starting
  from the directory of the top file, walk up with \<open>os.path.dirname\<close> until a directory
  holding \<open>hw/top_<name>/data\<close> is found or the path becomes empty. \<open>posixpath.dirname\<close>
  and \<open>posixpath.join\<close> are modelled from the standard library. The loop is a
  \<open>partial_function (option)\<close>: \<open>None\<close> is a loop that never ends, which happens on
  absolute paths because \<open>dirname('/')\<close> is \<open>'/'\<close>. \<open>path_chain\<close> lists the directories
  the loop visits and gives the reference definition the loop is proved equal to.
\<close>

section \<open>\<open>posixpath\<close>\<close>

text \<open>
  \<open>i = p.rfind('/') + 1; head = p[:i]; if head and head != '/' * len(head):
  head = head.rstrip('/')\<close>.
\<close>

definition py_dirname :: "string \<Rightarrow> string" where
  "py_dirname p =
     (let head = rev (dropWhile (\<lambda>c. c \<noteq> CHR ''/'') (rev p)) in
      if head \<noteq> [] \<and> list_ex (\<lambda>c. c \<noteq> CHR ''/'') head
      then rev (dropWhile (\<lambda>c. c = CHR ''/'') (rev head)) else head)"

text \<open>\<open>posixpath.join(a, b)\<close>: an absolute \<open>b\<close> or an empty \<open>a\<close> gives \<open>b\<close>.\<close>

definition py_joinpath :: "string \<Rightarrow> string \<Rightarrow> string" where
  "py_joinpath a b =
     (if py_startswith b ''/'' \<or> a = [] then b
      else if last a = CHR ''/'' then a @ b else a @ ''/'' @ b)"

section \<open>The search loop\<close>

text \<open>
  \<open>while cur_dir: if isdir(joinpath(cur_dir, check_dir)): ot_dir = cur_dir; break;
  cur_dir = dirname(cur_dir)\<close>. \<open>Some None\<close>: the loop ended without a match;
  \<open>Some (Some d)\<close>: it stopped at \<open>d\<close>.
\<close>

partial_function (option) find_ot_root ::
  "(string \<Rightarrow> bool) \<Rightarrow> string \<Rightarrow> string \<Rightarrow> string option option" where
  "find_ot_root isdir check_dir cur_dir =
     (if cur_dir = [] then Some None
      else if isdir (py_joinpath cur_dir check_dir) then Some (Some cur_dir)
      else find_ot_root isdir check_dir (py_dirname cur_dir))"

declare find_ot_root.simps [code]

text \<open>The directories \<open>dirname\<close> leads through, up to the empty path or a fixed point.\<close>

function path_chain :: "string \<Rightarrow> string list" where
  "path_chain p =
     (if p = [] then [] else if py_dirname p = p then [p] else p # path_chain (py_dirname p))"
  by pat_completeness auto
termination
proof (relation "measure length")
  fix p :: string
  assume ne: "py_dirname p \<noteq> p"
  define head where "head = rev (dropWhile (\<lambda>c. c \<noteq> CHR ''/'') (rev p))"
  have p: "p = head @ rev (takeWhile (\<lambda>c. c \<noteq> CHR ''/'') (rev p))"
    unfolding head_def by (simp flip: rev_append)
  have h: "head = rev (dropWhile (\<lambda>c. c = CHR ''/'') (rev head))
                  @ rev (takeWhile (\<lambda>c. c = CHR ''/'') (rev head))"
    by (simp flip: rev_append)
  have "\<exists>r. p = py_dirname p @ r"
  proof (cases "head \<noteq> [] \<and> list_ex (\<lambda>c. c \<noteq> CHR ''/'') head")
    case True
    then have "py_dirname p = rev (dropWhile (\<lambda>c. c = CHR ''/'') (rev head))"
      by (simp add: py_dirname_def head_def Let_def)
    then show ?thesis using p h by (metis append_assoc)
  next
    case False
    then have "py_dirname p = head"
      by (auto simp: py_dirname_def head_def Let_def)
    then show ?thesis using p by blast
  qed
  then obtain r where r: "p = py_dirname p @ r" by blast
  with ne have "r \<noteq> []" by auto
  then have "length (py_dirname p) < length (py_dirname p @ r)" by simp
  then show "(py_dirname p, p) \<in> measure length" using r by simp
qed simp


declare path_chain.simps [simp del]

section \<open>Lemmas\<close>

lemma startswith_slash: "py_startswith p ''/'' \<longleftrightarrow> p \<noteq> [] \<and> hd p = CHR ''/''"
  by (cases p) (auto simp: py_startswith_def)

lemma dirname_split:
  fixes p :: string
  defines "head \<equiv> rev (dropWhile (\<lambda>c. c \<noteq> CHR ''/'') (rev p))"
  shows "p = head @ rev (takeWhile (\<lambda>c. c \<noteq> CHR ''/'') (rev p))"
    and "head = rev (dropWhile (\<lambda>c. c = CHR ''/'') (rev head))
                @ rev (takeWhile (\<lambda>c. c = CHR ''/'') (rev head))"
    and "head \<noteq> [] \<Longrightarrow> last head = CHR ''/''"
proof -
  show "p = head @ rev (takeWhile (\<lambda>c. c \<noteq> CHR ''/'') (rev p))"
    unfolding head_def by (simp flip: rev_append)
  show "head = rev (dropWhile (\<lambda>c. c = CHR ''/'') (rev head))
                @ rev (takeWhile (\<lambda>c. c = CHR ''/'') (rev head))"
    by (simp flip: rev_append)
  assume "head \<noteq> []"
  then have "dropWhile (\<lambda>c. c \<noteq> CHR ''/'') (rev p) \<noteq> []" by (simp add: head_def)
  then have "hd (dropWhile (\<lambda>c. c \<noteq> CHR ''/'') (rev p)) = CHR ''/''"
    using hd_dropWhile by blast
  then show "last head = CHR ''/''"
    unfolding head_def by (simp add: last_rev)
qed

lemma dirname_prefix: "\<exists>r. p = py_dirname p @ r"
proof -
  let ?head = "rev (dropWhile (\<lambda>c. c \<noteq> CHR ''/'') (rev p))"
  show ?thesis
  proof (cases "?head \<noteq> [] \<and> list_ex (\<lambda>c. c \<noteq> CHR ''/'') ?head")
    case True
    then have "py_dirname p = rev (dropWhile (\<lambda>c. c = CHR ''/'') (rev ?head))"
      by (simp add: py_dirname_def Let_def)
    then show ?thesis using dirname_split(1,2) [of p] by (metis append_assoc)
  next
    case False
    then have "py_dirname p = ?head" by (auto simp: py_dirname_def Let_def)
    then show ?thesis using dirname_split(1) [of p] by metis
  qed
qed

lemma hd_prefix: "p = d @ r \<Longrightarrow> d \<noteq> [] \<Longrightarrow> hd p = hd d"
  by simp

lemma dirname_relative: "\<not> py_startswith p ''/'' \<Longrightarrow> \<not> py_startswith (py_dirname p) ''/''"
proof -
  assume rel: "\<not> py_startswith p ''/''"
  obtain r where r: "p = py_dirname p @ r" using dirname_prefix by blast
  show ?thesis
  proof (cases "py_dirname p = []")
    case False
    then have "hd p = hd (py_dirname p)" using r by (metis hd_append2)
    then show ?thesis using rel r False by (auto simp: startswith_slash)
  qed (simp add: startswith_slash)
qed

lemma dirname_absolute: "py_startswith p ''/'' \<Longrightarrow> py_startswith (py_dirname p) ''/''"
proof -
  assume abs: "py_startswith p ''/''"
  define head where "head = rev (dropWhile (\<lambda>c. c \<noteq> CHR ''/'') (rev p))"
  define x where "x = rev (dropWhile (\<lambda>c. c = CHR ''/'') (rev head))"
  have p: "p = head @ rev (takeWhile (\<lambda>c. c \<noteq> CHR ''/'') (rev p))"
    and h: "head = x @ rev (takeWhile (\<lambda>c. c = CHR ''/'') (rev head))"
    using dirname_split(1,2) [of p] by (simp_all add: head_def x_def)
  have "CHR ''/'' \<in> set p" using abs by (metis hd_in_set startswith_slash)
  then have hne: "head \<noteq> []" by (auto simp: head_def dropWhile_eq_Nil_conv)
  then have hh: "hd head = CHR ''/''" using p abs by (metis hd_append2 startswith_slash)
  show ?thesis
  proof (cases "list_ex (\<lambda>c. c \<noteq> CHR ''/'') head")
    case True
    have "x \<noteq> []"
    proof
      assume "x = []"
      then have "head = rev (takeWhile (\<lambda>c. c = CHR ''/'') (rev head))" using h by simp
      then have "\<forall>c\<in>set head. c = CHR ''/''" by (metis set_rev set_takeWhileD)
      with True show False by (auto simp: list_ex_iff)
    qed
    moreover have "py_dirname p = x"
      using True hne by (simp add: py_dirname_def head_def x_def Let_def)
    ultimately show ?thesis using h hh by (metis hd_append2 startswith_slash)
  next
    case False
    then have "py_dirname p = head" by (simp add: py_dirname_def head_def Let_def)
    then show ?thesis using hne hh by (simp add: startswith_slash)
  qed
qed

lemma dirname_fixpoint: "p \<noteq> [] \<Longrightarrow> py_dirname p = p \<Longrightarrow> py_startswith p ''/''"
proof (rule ccontr)
  assume ne: "p \<noteq> []" and fx: "py_dirname p = p" and rel: "\<not> py_startswith p ''/''"
  define head where "head = rev (dropWhile (\<lambda>c. c \<noteq> CHR ''/'') (rev p))"
  define x where "x = rev (dropWhile (\<lambda>c. c = CHR ''/'') (rev head))"
  have p: "p = head @ rev (takeWhile (\<lambda>c. c \<noteq> CHR ''/'') (rev p))"
    and h: "head = x @ rev (takeWhile (\<lambda>c. c = CHR ''/'') (rev head))"
    using dirname_split(1,2) [of p] by (simp_all add: head_def x_def)
  show False
  proof (cases "head = []")
    case True
    then have "py_dirname p = []" by (simp add: py_dirname_def head_def Let_def)
    with fx ne show False by simp
  next
    case False
    then have "hd head \<noteq> CHR ''/''" using p rel ne by (metis hd_append2 startswith_slash)
    with False have "list_ex (\<lambda>c. c \<noteq> CHR ''/'') head" by (cases head) auto
    with False have d: "py_dirname p = x" by (simp add: py_dirname_def head_def x_def Let_def)
    have "last head = CHR ''/''" using dirname_split(3) [of p] False by (simp add: head_def)
    then have "takeWhile (\<lambda>c. c = CHR ''/'') (rev head) \<noteq> []"
      using False by (cases "rev head") (auto simp flip: last_rev)
    then have "length x < length head" using h by (metis length_append length_rev length_greater_0_conv less_add_same_cancel1)
    moreover have "length head \<le> length p" using p by (metis le_add1 length_append)
    ultimately show False using d fx by simp
  qed
qed

text \<open>At a fixed point of \<open>dirname\<close> with no match the loop calls itself on the same
  directory for ever: it cannot return.\<close>

lemma find_ot_root_fixpoint:
  assumes ne: "p \<noteq> []" and fx: "py_dirname p = p" and no: "\<not> isdir (py_joinpath p cd)"
  shows "find_ot_root isdir cd p = None"
proof (rule ccontr)
  assume "find_ot_root isdir cd p \<noteq> None"
  then obtain r where ret: "find_ot_root isdir cd p = Some r" by blast
  have "isdir' = isdir \<longrightarrow> cd' = cd \<longrightarrow> p' = p \<longrightarrow> False" if "find_ot_root isdir' cd' p' = Some r"
    for isdir' cd' p'
  proof (rule find_ot_root.raw_induct
           [where P = "\<lambda>isdir' cd' p' r. isdir' = isdir \<longrightarrow> cd' = cd \<longrightarrow> p' = p \<longrightarrow> False",
            OF _ that])
    fix f :: "(string \<Rightarrow> bool) \<Rightarrow> string \<Rightarrow> string \<Rightarrow> string option option" and isdir' cd' p' r
    assume IH: "\<And>isdir' cd' p' r. f isdir' cd' p' = Some r \<Longrightarrow>
                  isdir' = isdir \<longrightarrow> cd' = cd \<longrightarrow> p' = p \<longrightarrow> False"
      and eq: "(if p' = [] then Some None
               else if isdir' (py_joinpath p' cd') then Some (Some p')
               else f isdir' cd' (py_dirname p')) = Some r"
    show "isdir' = isdir \<longrightarrow> cd' = cd \<longrightarrow> p' = p \<longrightarrow> False"
    proof (intro impI)
      assume "isdir' = isdir" "cd' = cd" "p' = p"
      with eq ne no fx have "f isdir cd p = Some r" by simp
      then show False using IH by blast
    qed
  qed
  with ret show False by blast
qed

lemma find_ot_root_chain:
  "find_ot_root isdir cd p =
     (case find (\<lambda>d. isdir (py_joinpath d cd)) (path_chain p) of
        Some d \<Rightarrow> Some (Some d)
      | None \<Rightarrow> if py_startswith p ''/'' then None else Some None)"
proof (induction p rule: path_chain.induct)
  case (1 p)
  show ?case
  proof (cases "p = []")
    case True
    then show ?thesis
      by (simp add: find_ot_root.simps path_chain.simps startswith_slash)
  next
    case ne: False
    show ?thesis
    proof (cases "isdir (py_joinpath p cd)")
      case True
      with ne show ?thesis
        by (simp add: find_ot_root.simps [of _ _ p] path_chain.simps [of p])
    next
      case no: False
      show ?thesis
      proof (cases "py_dirname p = p")
        case True
        then show ?thesis
          using find_ot_root_fixpoint [where isdir = isdir and cd = cd, OF ne True no] dirname_fixpoint [OF ne True] no
          by (simp add: path_chain.simps [of p])
      next
        case False
        have "py_startswith (py_dirname p) ''/'' \<longleftrightarrow> py_startswith p ''/''"
          using dirname_absolute dirname_relative by blast
        then show ?thesis
          using 1 [OF ne False] ne no False
          by (simp add: find_ot_root.simps [of _ _ p] path_chain.simps [of p])
      qed
    qed
  qed
qed

section \<open>Properties of the OT-root search\<close>

text \<open>
  C24. Started from a relative path (one that does not begin with \<open>/\<close>, the empty path
  included), the search loop of \<open>main\<close> always ends: every \<open>dirname\<close> step shortens the path
  until it is empty.
\<close>

theorem find_ot_root_relative_terminates:
  "\<not> py_startswith cur ''/'' \<Longrightarrow> \<exists>r. find_ot_root isdir cd cur = Some r"
  by (simp add: find_ot_root_chain split: option.split)

theorem find_ot_root_relative_terminates_witness:
  "\<not> py_startswith ''top/data/top.hjson'' ''/'' \<and>
   (\<exists>r. find_ot_root (\<lambda>_. False) ''hw/top_earlgrey/data'' ''top/data/top.hjson'' = Some r)"
proof -
  have "\<not> py_startswith ''top/data/top.hjson'' ''/''" by (simp add: py_startswith_def)
  then show ?thesis using find_ot_root_relative_terminates by blast
qed

text \<open>
  C25. Started from an absolute path none of whose ancestors holds the top's data
  directory, the loop never ends: \<open>dirname('/')\<close> is \<open>'/'\<close>, so the loop spins on the root
  directory and the error \<open>Cannot find OT root directory\<close> is never reached.
\<close>

theorem find_ot_root_absolute_diverges:
  "py_startswith cur ''/'' \<Longrightarrow> list_all (\<lambda>d. \<not> isdir (py_joinpath d cd)) (path_chain cur) \<Longrightarrow>
   find_ot_root isdir cd cur = None"
  by (simp add: find_ot_root_chain find_None_iff list_all_iff split: option.split)

theorem find_ot_root_absolute_diverges_witness:
  "find_ot_root (\<lambda>d. d = ''/srv/hw/top_earlgrey/data'') ''hw/top_earlgrey/data'' ''/ot/hw'' = None"
proof -
  have "py_startswith ''/ot/hw'' ''/''" by (simp add: py_startswith_def)
  moreover have "list_all (\<lambda>d. \<not> (\<lambda>d. d = ''/srv/hw/top_earlgrey/data'')
                          (py_joinpath d ''hw/top_earlgrey/data'')) (path_chain ''/ot/hw'')"
    by code_simp
  ultimately show ?thesis by (rule find_ot_root_absolute_diverges)
qed

text \<open>
  C26. When the loop finds a root, it is the first directory, from the top file's
  directory upwards, that holds the data directory: the loop is the search \<open>find\<close> along
  the \<open>dirname\<close> chain.
\<close>

theorem find_ot_root_first_match:
  "find_ot_root isdir cd cur = Some (Some d) \<longleftrightarrow>
   find (\<lambda>d. isdir (py_joinpath d cd)) (path_chain cur) = Some d"
  by (simp add: find_ot_root_chain split: option.split)

end
