(* ===== verification/Driver.thy ===== *)
theory Driver
  imports Lifecycle TopConfig Render OtRoot
begin

text \<open>
  The driver \<open>main\<close> (\<open>cfggen.py\<close> lines 231-348) after \<open>argparse\<close> has parsed the
  command line: the parsed arguments are a record, and the file system and the external
  readers (the HJSON loader, \<open>OtpLifecycle\<close>, \<open>OtpConstants\<close>, \<open>os.path.isfile\<close>,
  \<open>isdir\<close>, \<open>abspath\<close>) are the record \<open>main_env\<close>. \<open>main\<close> returns how the run ends:
  the text written to the output (\<open>Saved\<close>), \<open>argparser.error\<close> (\<open>UsageError\<close>, exit
  status 2), an exception caught by the \<open>except (IOError, ValueError, ImportError)\<close>
  clause (\<open>Failed\<close>, status 1) or one that escapes (\<open>Crashed\<close>, a traceback and status 1);
  \<open>None\<close> is a run that never ends (the OT-root search loop).
\<close>

section \<open>Arguments, environment and outcome\<close>

record main_args =
  a_opentitan :: "string option"
  a_top :: "string option"
  a_out :: "string option"
  a_otpconst :: "string option"
  a_lifecycle :: "string option"
  a_topcfg :: "string option"
  a_socid :: "string option"
  a_count :: int

record main_env =
  hjson_error :: "string option"
  isfile :: "string \<Rightarrow> bool"
  isdir :: "string \<Rightarrow> bool"
  abspath :: "string \<Rightarrow> string"
  read_hjson :: "string \<Rightarrow> hval result"
  lc_reader :: "string \<Rightarrow> lc_ext"
  otp_reader :: "string \<Rightarrow> otp_const_ext"

datatype outcome =
    Saved "string option" string
  | UsageError string
  | Failed pyerr
  | Crashed pyerr

definition exit_code :: "outcome \<Rightarrow> nat" where
  "exit_code res = (case res of Saved _ _ \<Rightarrow> 0 | UsageError _ \<Rightarrow> 2 | Failed _ \<Rightarrow> 1 | Crashed _ \<Rightarrow> 1)"

text \<open>\<open>if not x\<close> on an optional string argument: \<open>None\<close> and \<open>''\<close> are both absent.\<close>

definition opt_str :: "string option \<Rightarrow> string option" where
  "opt_str a = (case a of Some s \<Rightarrow> if s = [] then None else Some s | None \<Rightarrow> None)"

definition quoted :: "string \<Rightarrow> string" where
  "quoted s = CHR 0x27 # s @ [CHR 0x27]"

definition top_map :: "(string \<times> string) list" where
  "top_map = [(''darjeeling'', ''dj''), (''earlgrey'', ''eg'')]"

section \<open>Running with exceptions and non-termination\<close>

type_synonym 'a run = "(outcome + 'a) option"

text \<open>The \<open>except\<close> clause of \<open>main\<close>: \<open>IOError\<close> and \<open>ValueError\<close> are caught.\<close>

definition raise_exc :: "pyerr \<Rightarrow> outcome" where
  "raise_exc e = (case e of ValueError _ \<Rightarrow> Failed e | IOError _ \<Rightarrow> Failed e | _ \<Rightarrow> Crashed e)"

definition lift :: "'a result \<Rightarrow> 'a run" where
  "lift r = Some (case r of Inl e \<Rightarrow> Inl (raise_exc e) | Inr x \<Rightarrow> Inr x)"

definition stop :: "outcome \<Rightarrow> 'a run" where
  "stop res = Some (Inl res)"

definition run_bind :: "'a run \<Rightarrow> ('a \<Rightarrow> 'b run) \<Rightarrow> 'b run" where
  "run_bind m f = (case m of None \<Rightarrow> None | Some (Inl res) \<Rightarrow> Some (Inl res) | Some (Inr x) \<Rightarrow> f x)"

section \<open>The steps of \<open>main\<close>\<close>

text \<open>\<open>cfg.load_top_config(topcfg)\<close>: open and parse the HJSON file, then correlate.\<close>

definition load_top :: "main_env \<Rightarrow> string \<Rightarrow> ot_configuration \<Rightarrow> ot_configuration run" where
  "load_top env topcfg c = run_bind (lift (read_hjson env topcfg)) (\<lambda>doc. lift (load_top_config doc c))"

text \<open>Lines 278-292: no top file, an OpenTitan directory and a top name.\<close>

definition top_from_dir :: "main_env \<Rightarrow> main_args \<Rightarrow> (string \<times> string \<times> string) run" where
  "top_from_dir env args =
     (case opt_str (a_opentitan args) of
        None \<Rightarrow> stop (UsageError ''OTDIR is required is no top file is specified'')
      | Some d \<Rightarrow>
          if \<not> isdir env d then stop (UsageError ''Invalid OpenTitan root directory'') else
          let ot_dir = abspath env d in
          case opt_str (a_top args) of
            None \<Rightarrow> stop (UsageError ''Top name is required if no top file is specified'')
          | Some t \<Rightarrow>
              let topnm = ''top_'' @ t in
              case map_of top_map t of
                None \<Rightarrow> stop (Crashed KeyError)
              | Some topvar \<Rightarrow>
                  let topcfg = py_joinpath ot_dir (''hw/'' @ topnm @ ''/data/autogen/'' @ topnm @ ''.gen.hjson'') in
                  if \<not> isfile env topcfg then stop (UsageError (''No such file '' @ quoted topcfg)) else
                  run_bind (load_top env topcfg OtConfiguration) (\<lambda>_. Some (Inr (ot_dir, topnm, topvar))))"

text \<open>Lines 297-305: the variant from the top name the top file declares.\<close>

definition resolve_top_name :: "hval \<Rightarrow> (string \<times> string) run" where
  "resolve_top_name ltop =
     (if \<not> py_truthy ltop then stop (UsageError ''Unknown top name'') else
      case ltop of
        HStr s \<Rightarrow>
          (case map_of (map (\<lambda>(k, v). (py_lower k, v)) top_map) (py_lower s) of
             Some topvar \<Rightarrow> if topvar = [] then stop (UsageError (''Unsupported top name: '' @ s))
                            else Some (Inr (topvar, ''top_'' @ py_lower s))
           | None \<Rightarrow> stop (UsageError (''Unsupported top name: '' @ s)))
      | _ \<Rightarrow> stop (Crashed AttributeError))"

text \<open>Lines 306-319: the OpenTitan directory, given or searched for from the top file.\<close>

definition locate_ot_dir :: "main_env \<Rightarrow> main_args \<Rightarrow> string \<Rightarrow> string \<Rightarrow> string run" where
  "locate_ot_dir env args topcfg topnm =
     (case opt_str (a_opentitan args) of
        None \<Rightarrow>
          map_option (\<lambda>r. case r of None \<Rightarrow> Inl (UsageError ''Cannot find OT root directory'')
                                  | Some d \<Rightarrow> Inr (abspath env d))
            (find_ot_root (isdir env) (''hw/'' @ topnm @ ''/data'') (py_dirname topcfg))
      | Some d \<Rightarrow>
          if \<not> isdir env d then stop (UsageError ''Invalid OpenTitan root directory'')
          else Some (Inr (abspath env d)))"

text \<open>Lines 293-320: a top file is given.\<close>

definition top_from_file :: "main_env \<Rightarrow> main_args \<Rightarrow> string \<Rightarrow> (string \<times> string \<times> string) run" where
  "top_from_file env args topcfg =
     (if \<not> isfile env topcfg then stop (UsageError (''No such top file: '' @ topcfg)) else
      run_bind (load_top env topcfg OtConfiguration) (\<lambda>c.
      run_bind (resolve_top_name (top_name c)) (\<lambda>(topvar, topnm).
      run_bind (locate_ot_dir env args topcfg topnm) (\<lambda>ot_dir. Some (Inr (ot_dir, topnm, topvar))))))"

text \<open>\<open>open(ocpath)\<close> in \<open>load_otp_constants\<close>: a missing file raises \<open>FileNotFoundError\<close>.\<close>

definition open_otp :: "main_env \<Rightarrow> string \<Rightarrow> otp_const_ext result" where
  "open_otp env ocpath =
     (if isfile env ocpath then Inr (otp_reader env ocpath) else Inl (IOError ocpath))"

text \<open>
  Lines 322-340: the two RTL files, then a new \<open>OtConfiguration\<close> (line 337) loaded with
  the lifecycle and the OTP constants and saved. The check at line 334 tests
  \<open>lcpath\<close>, as the code does.
\<close>

definition generate_output :: "main_env \<Rightarrow> main_args \<Rightarrow> string \<Rightarrow> string \<Rightarrow> string \<Rightarrow> outcome run" where
  "generate_output env args ot_dir topnm topvar =
     (let lcpath = (case opt_str (a_lifecycle args) of
                      None \<Rightarrow> py_joinpath ot_dir ''hw/ip/lc_ctrl/rtl/lc_ctrl_state_pkg.sv''
                    | Some p \<Rightarrow> p) in
      if \<not> isfile env lcpath then stop (UsageError (''No such file '' @ quoted lcpath)) else
      let ocpath = (case opt_str (a_otpconst args) of
                      None \<Rightarrow> py_joinpath (py_joinpath (py_joinpath ot_dir ''hw'') topnm)
                               ''ip_autogen/otp_ctrl/rtl/otp_ctrl_part_pkg.sv''
                    | Some p \<Rightarrow> p) in
      if \<not> isfile env lcpath then stop (UsageError (''No such file '' @ quoted ocpath)) else
      run_bind (lift (load_lifecycle (lc_reader env lcpath) OtConfiguration)) (\<lambda>c.
      run_bind (lift (open_otp env ocpath)) (\<lambda>oc.
      run_bind (lift (save (load_otp_constants oc c) topvar (a_socid args) (Some (a_count args)))) (\<lambda>txt.
      Some (Inr (Saved (opt_str (a_out args)) txt))))))"

definition main :: "main_env \<Rightarrow> main_args \<Rightarrow> outcome option" where
  "main env args =
     (if hjson_error env \<noteq> None then Some (UsageError ''Missing HJSON module: {_HJSON_ERROR}'') else
      map_option (\<lambda>r. case r of Inl res \<Rightarrow> res | Inr res \<Rightarrow> res)
        (run_bind
           (case opt_str (a_topcfg args) of
              None \<Rightarrow> top_from_dir env args
            | Some topcfg \<Rightarrow> top_from_file env args topcfg)
           (\<lambda>(ot_dir, topnm, topvar). generate_output env args ot_dir topnm topvar)))"

text \<open>
  A run used by the examples: the top file of \<open>TopConfig.demo_top_doc\<close> at an absolute
  path under \<open>/ot\<close>, the lifecycle and OTP readers of the other theories' examples.
\<close>

definition demo_env :: main_env where
  "demo_env =
     \<lparr>hjson_error = None,
      isfile = (\<lambda>p. p \<in> {''/ot/hw/top_earlgrey/data/autogen/top_earlgrey.gen.hjson'',
                         ''/ot/hw/ip/lc_ctrl/rtl/lc_ctrl_state_pkg.sv'',
                         ''/ot/hw/top_earlgrey/ip_autogen/otp_ctrl/rtl/otp_ctrl_part_pkg.sv''}),
      isdir = (\<lambda>p. p \<in> {''/ot'', ''/ot/hw/top_earlgrey/data''}),
      abspath = id,
      read_hjson = (\<lambda>_. Inr demo_top_doc),
      lc_reader = (\<lambda>_. demo_lc_ext),
      otp_reader = (\<lambda>_. demo_otp_ext)\<rparr>"

definition demo_args :: main_args where
  "demo_args =
     \<lparr>a_opentitan = None, a_top = None, a_out = None, a_otpconst = None, a_lifecycle = None,
      a_topcfg = Some ''/ot/hw/top_earlgrey/data/autogen/top_earlgrey.gen.hjson'',
      a_socid = None, a_count = 1\<rparr>"


text \<open>
  The top file with its module list emptied: a document whose \<open>module\<close> entry is an empty
  list, in every file the environment reads.
\<close>

definition drop_modules :: "hval \<Rightarrow> hval" where
  "drop_modules v =
     (case v of HDict d \<Rightarrow> HDict (map (\<lambda>(k, x). (k, if k = ''module'' then HList [] else x)) d)
              | _ \<Rightarrow> v)"

definition env_drop_modules :: "main_env \<Rightarrow> main_env" where
  "env_drop_modules env = env\<lparr>read_hjson := (\<lambda>p. map_sum id drop_modules (read_hjson env p))\<rparr>"


section \<open>Lemmas\<close>

lemma run_bind_Inr:
  "run_bind m f = Some (Inr y) \<longleftrightarrow> (\<exists>x. m = Some (Inr x) \<and> f x = Some (Inr y))"
  by (auto simp: run_bind_def split: option.splits sum.splits)

lemma run_bind_Inl:
  "run_bind m f = Some (Inl r) \<longleftrightarrow> m = Some (Inl r) \<or> (\<exists>x. m = Some (Inr x) \<and> f x = Some (Inl r))"
  by (auto simp: run_bind_def split: option.splits sum.splits)

lemma run_bind_Some_Inr [simp]: "run_bind (Some (Inr x)) f = f x"
  by (simp add: run_bind_def)

lemma run_bind_Some_Inl [simp]: "run_bind (Some (Inl r)) f = Some (Inl r)"
  by (simp add: run_bind_def)

lemma run_bind_stop [simp]: "run_bind (stop r) f = stop r"
  by (simp add: run_bind_def stop_def)

lemma lift_Inr [simp]: "lift (Inr x) = Some (Inr x)"
  by (simp add: lift_def)

lemma lift_Inl [simp]: "lift (Inl e) = stop (raise_exc e)"
  by (simp add: lift_def stop_def)

lemma lift_not_saved: "lift r \<noteq> Some (Inl (Saved out t))"
  by (auto simp: lift_def raise_exc_def split: sum.splits pyerr.splits)

lemma lift_eq_Inr [simp]: "lift r = Some (Inr x) \<longleftrightarrow> r = Inr x"
  by (auto simp: lift_def split: sum.splits)

lemma stop_ne_Inr [simp]: "stop r \<noteq> Some (Inr x)"
  by (simp add: stop_def)

lemma stop_eq [simp]: "stop r = Some (Inl r') \<longleftrightarrow> r = r'"
  by (simp add: stop_def)

lemma load_top_not_saved: "load_top env tc c \<noteq> Some (Inl (Saved out t))"
  by (auto simp: load_top_def run_bind_Inl lift_not_saved)

lemma top_from_dir_not_saved: "top_from_dir env args \<noteq> Some (Inl (Saved out t))"
  by (auto simp: top_from_dir_def Let_def run_bind_Inl load_top_not_saved
           split: option.splits)

lemma resolve_top_name_not_saved: "resolve_top_name v \<noteq> Some (Inl (Saved out t))"
  by (auto simp: resolve_top_name_def split: option.splits hval.splits)

lemma locate_ot_dir_not_saved: "locate_ot_dir env args tc tn \<noteq> Some (Inl (Saved out t))"
  by (auto simp: locate_ot_dir_def split: option.splits)

lemma top_from_file_not_saved: "top_from_file env args tc \<noteq> Some (Inl (Saved out t))"
  by (auto simp: top_from_file_def run_bind_Inl load_top_not_saved resolve_top_name_not_saved
                 locate_ot_dir_not_saved)

lemma generate_output_cases:
  "generate_output env args d t v \<noteq> Some (Inl (Saved out txt))"
  "generate_output env args d t v = Some (Inr r) \<Longrightarrow>
     \<exists>lcp oc c txt. load_lifecycle (lc_reader env lcp) OtConfiguration = Inr c \<and>
       save (load_otp_constants oc c) v (a_socid args) (Some (a_count args)) = Inr txt \<and>
       r = Saved (opt_str (a_out args)) txt"
  by (auto simp: generate_output_def Let_def run_bind_Inl run_bind_Inr lift_not_saved
           split: if_splits)

lemma main_Saved_stages:
  assumes "main env args = Some (Saved out txt)"
  shows "\<exists>y. (case opt_str (a_topcfg args) of None \<Rightarrow> top_from_dir env args
              | Some topcfg \<Rightarrow> top_from_file env args topcfg) = Some (Inr y) \<and>
           (case y of (ot_dir, topnm, topvar) \<Rightarrow> generate_output env args ot_dir topnm topvar) =
             Some (Inr (Saved out txt))"
proof -
  let ?pre = "case opt_str (a_topcfg args) of None \<Rightarrow> top_from_dir env args
              | Some topcfg \<Rightarrow> top_from_file env args topcfg"
  let ?R = "run_bind ?pre (\<lambda>(ot_dir, topnm, topvar). generate_output env args ot_dir topnm topvar)"
  have pre: "?pre \<noteq> Some (Inl (Saved out txt))"
    by (simp add: top_from_dir_not_saved top_from_file_not_saved split: option.split)
  from assms obtain x where R: "?R = Some x" and x: "(case x of Inl res \<Rightarrow> res | Inr res \<Rightarrow> res) = Saved out txt"
    by (auto simp: main_def split: if_splits)
  have "?R = Some (Inr (Saved out txt))"
  proof (cases x)
    case (Inl res)
    with R x have "?R = Some (Inl (Saved out txt))" by simp
    then show ?thesis using pre generate_output_cases(1) by (auto simp: run_bind_Inl)
  next
    case (Inr res)
    with R x show ?thesis by simp
  qed
  then show ?thesis by (simp add: run_bind_Inr)
qed

lemma main_Saved:
  assumes "main env args = Some (Saved out txt)"
  shows "\<exists>lcp oc c. load_lifecycle (lc_reader env lcp) OtConfiguration = Inr c \<and>
           (\<exists>v. save (load_otp_constants oc c) v (a_socid args) (Some (a_count args)) = Inr txt)"
proof -
  from main_Saved_stages [OF assms] obtain d t v
    where g: "generate_output env args d t v = Some (Inr (Saved out txt))" by (auto split: prod.splits)
  show ?thesis using generate_output_cases(2) [OF g] by blast
qed

subsection \<open>The top file's modules do not reach the output\<close>

lemma load_top_config_drop_modules:
  assumes "load_top_config d c = Inr c'"
  shows "load_top_config (drop_modules d) c = Inr (c\<lparr>top_name := top_name c'\<rparr>)"
proof -
  obtain kv where d: "d = HDict kv"
    using assms by (cases d) (auto simp: load_top_config_def)
  have "hget d ''name'' = Inr (top_name c')" by (rule load_top_config_name [OF assms])
  moreover obtain m where "hget d ''module'' = Inr m"
    using assms by (auto simp: load_top_config_def rbind_eq_Inr)
  ultimately show ?thesis
    by (simp add: d drop_modules_def load_top_config_def map_of_map_keyed split: option.splits)
qed

lemma env_drop_modules_sel [simp]:
  "isfile (env_drop_modules env) = isfile env" "isdir (env_drop_modules env) = isdir env"
  "abspath (env_drop_modules env) = abspath env" "hjson_error (env_drop_modules env) = hjson_error env"
  "lc_reader (env_drop_modules env) = lc_reader env" "otp_reader (env_drop_modules env) = otp_reader env"
  by (simp_all add: env_drop_modules_def)

lemma load_top_drop_modules:
  "load_top env p c = Some (Inr c') \<Longrightarrow>
   load_top (env_drop_modules env) p c = Some (Inr (c\<lparr>top_name := top_name c'\<rparr>))"
  by (auto simp: load_top_def env_drop_modules_def run_bind_Inr lift_def load_top_config_drop_modules
           split: sum.splits)

lemma load_top_drop_modules_const:
  "run_bind (load_top env p c) (\<lambda>_. r) = Some (Inr x) \<Longrightarrow>
   run_bind (load_top (env_drop_modules env) p c) (\<lambda>_. r) = Some (Inr x)"
  by (auto simp: run_bind_Inr dest: load_top_drop_modules)

lemma top_from_dir_drop_modules:
  "top_from_dir env args = Some (Inr x) \<Longrightarrow> top_from_dir (env_drop_modules env) args = Some (Inr x)"
  unfolding top_from_dir_def Let_def
  by (auto split: option.splits if_splits intro: load_top_drop_modules_const)

lemma top_from_file_drop_modules:
  assumes "top_from_file env args p = Some (Inr x)"
  shows "top_from_file (env_drop_modules env) args p = Some (Inr x)"
proof -
  have loc: "locate_ot_dir (env_drop_modules env) = locate_ot_dir env"
    by (simp add: locate_ot_dir_def fun_eq_iff split: option.split)
  from assms obtain c where f: "isfile env p" and l: "load_top env p OtConfiguration = Some (Inr c)"
    and r: "run_bind (resolve_top_name (top_name c)) (\<lambda>(topvar, topnm).
              run_bind (locate_ot_dir env args p topnm) (\<lambda>ot_dir. Some (Inr (ot_dir, topnm, topvar)))) = Some (Inr x)"
    by (auto simp: top_from_file_def run_bind_Inr split: if_splits)
  show ?thesis
    using f r load_top_drop_modules [OF l] by (simp add: top_from_file_def loc)
qed

subsection \<open>Totality\<close>

lemma run_bind_total:
  "m \<noteq> None \<Longrightarrow> (\<And>x. f x \<noteq> None) \<Longrightarrow> run_bind m f \<noteq> None"
  by (auto simp: run_bind_def split: option.splits sum.splits)

lemma load_top_total: "load_top env p c \<noteq> None"
  by (simp add: load_top_def lift_def run_bind_def split: sum.split)

lemma top_from_dir_total: "top_from_dir env args \<noteq> None"
  by (simp add: top_from_dir_def Let_def load_top_def lift_def stop_def run_bind_def
           split: option.split sum.split)

lemma resolve_top_name_total: "resolve_top_name v \<noteq> None"
  by (auto simp: resolve_top_name_def stop_def split: hval.split option.split)

lemma locate_ot_dir_total:
  assumes "opt_str (a_opentitan args) \<noteq> None \<or> \<not> py_startswith p ''/''"
  shows "locate_ot_dir env args p t \<noteq> None"
proof (cases "opt_str (a_opentitan args)")
  case None
  with assms have "\<not> py_startswith (py_dirname p) ''/''" by (simp add: dirname_relative)
  with None show ?thesis
    by (simp add: locate_ot_dir_def find_ot_root_chain split: option.split)
qed (simp add: locate_ot_dir_def stop_def)

lemma top_from_file_total:
  assumes "opt_str (a_opentitan args) \<noteq> None \<or> \<not> py_startswith p ''/''"
  shows "top_from_file env args p \<noteq> None"
proof -
  have "run_bind (load_top env p OtConfiguration) (\<lambda>c.
          run_bind (resolve_top_name (top_name c)) (\<lambda>(topvar, topnm).
          run_bind (locate_ot_dir env args p topnm) (\<lambda>ot_dir. Some (Inr (ot_dir, topnm, topvar))))) \<noteq> None"
  proof (rule run_bind_total [OF load_top_total])
    fix c
    show "run_bind (resolve_top_name (top_name c)) (\<lambda>(topvar, topnm).
            run_bind (locate_ot_dir env args p topnm) (\<lambda>ot_dir. Some (Inr (ot_dir, topnm, topvar)))) \<noteq> None"
    proof (rule run_bind_total [OF resolve_top_name_total])
      fix x :: "string \<times> string"
      show "(case x of (topvar, topnm) \<Rightarrow>
              run_bind (locate_ot_dir env args p topnm) (\<lambda>ot_dir. Some (Inr (ot_dir, topnm, topvar)))) \<noteq> None"
        by (cases x) (simp add: run_bind_total [OF locate_ot_dir_total [OF assms]])
    qed
  qed
  then show ?thesis by (simp add: top_from_file_def stop_def)
qed

lemma generate_output_total: "generate_output env args d t v \<noteq> None"
  by (simp add: generate_output_def Let_def stop_def lift_def run_bind_def split: sum.split)

lemma main_pre_total:
  assumes "case opt_str (a_topcfg args) of None \<Rightarrow> True
             | Some p \<Rightarrow> opt_str (a_opentitan args) \<noteq> None \<or> \<not> py_startswith p ''/''"
  shows "(case opt_str (a_topcfg args) of None \<Rightarrow> top_from_dir env args
          | Some topcfg \<Rightarrow> top_from_file env args topcfg) \<noteq> None"
proof (cases "opt_str (a_topcfg args)")
  case None
  then show ?thesis by (simp add: top_from_dir_total)
next
  case (Some p)
  with assms show ?thesis by (simp add: top_from_file_total del: not_None_eq)
qed

lemma py_lower_top_names [simp]:
  "py_lower ''earlgrey'' = ''earlgrey''" "py_lower ''darjeeling'' = ''darjeeling''"
  by (simp_all add: py_lower_no_upper_id is_upper_def)

section \<open>Properties of the driver\<close>

text \<open>
  C27. Whatever modules the top file declares, they do not reach the output: a run of
  \<open>main\<close> that writes a file writes the same file when every top file read has an empty
  module list. Line 337 replaces the configuration \<open>load_top_config\<close> filled by a new
  \<open>OtConfiguration\<close>, so no ROM bank and no top-level OTP value is ever written.
\<close>

theorem main_discards_top_config:
  assumes "Driver.main env args = Some (Saved out txt)"
  shows "Driver.main (env_drop_modules env) args = Some (Saved out txt)"
proof -
  have gen: "generate_output (env_drop_modules env) = generate_output env"
    by (simp add: generate_output_def open_otp_def fun_eq_iff Let_def split: option.split)
  from main_Saved_stages [OF assms] obtain y where
    p: "(case opt_str (a_topcfg args) of None \<Rightarrow> top_from_dir env args
          | Some topcfg \<Rightarrow> top_from_file env args topcfg) = Some (Inr y)"
    and g: "(case y of (ot_dir, topnm, topvar) \<Rightarrow> generate_output env args ot_dir topnm topvar) =
             Some (Inr (Saved out txt))" by blast
  have p': "(case opt_str (a_topcfg args) of None \<Rightarrow> top_from_dir (env_drop_modules env) args
          | Some topcfg \<Rightarrow> top_from_file (env_drop_modules env) args topcfg) = Some (Inr y)"
    using p by (auto split: option.splits intro: top_from_dir_drop_modules top_from_file_drop_modules)
  have "hjson_error env = None" using assms by (auto simp: main_def split: if_splits)
  then show ?thesis using p' g by (simp add: main_def gen split: prod.splits)
qed

theorem main_discards_top_config_witness:
  "\<exists>out t. Driver.main demo_env demo_args = Some (Saved out t) \<and>
           Driver.main (env_drop_modules demo_env) demo_args = Some (Saved out t)"
proof -
  have "case Driver.main demo_env demo_args of Some (Saved out txt) \<Rightarrow> True | _ \<Rightarrow> False"
    by code_simp
  then obtain out t where m: "Driver.main demo_env demo_args = Some (Saved out t)"
    by (auto split: option.splits outcome.splits)
  show ?thesis using m main_discards_top_config [OF m] by blast
qed

text \<open>
  C28. A missing OTP constants file is not reported by the existence check (line 334 tests
  the lifecycle path again): the run goes on to \<open>open\<close> it and ends with the
  \<open>IOError\<close> caught by the \<open>except\<close> clause.
\<close>

theorem generate_output_otpconst_unchecked:
  assumes "opt_str (a_lifecycle args) = Some lp" "opt_str (a_otpconst args) = Some op"
    and "isfile env lp" "\<not> isfile env op"
    and "load_lifecycle (lc_reader env lp) OtConfiguration = Inr c"
  shows "generate_output env args d t v = Some (Inl (Failed (IOError op)))"
  using assms by (simp add: generate_output_def open_otp_def stop_def raise_exc_def)

theorem generate_output_otpconst_unchecked_witness:
  "generate_output (demo_env\<lparr>isfile := (\<lambda>p. p = ''lc.sv'')\<rparr>)
     (demo_args\<lparr>a_lifecycle := Some ''lc.sv'', a_otpconst := Some ''otp.sv''\<rparr>)
     ''/ot'' ''top_earlgrey'' ''eg'' = Some (Inl (Failed (IOError ''otp.sv'')))"
proof -
  let ?a = "demo_args\<lparr>a_lifecycle := Some ''lc.sv'', a_otpconst := Some ''otp.sv''\<rparr>"
  let ?e = "demo_env\<lparr>isfile := (\<lambda>p. p = ''lc.sv'')\<rparr>"
  have "opt_str (a_lifecycle ?a) = Some ''lc.sv''" "opt_str (a_otpconst ?a) = Some ''otp.sv''"
    "isfile ?e ''lc.sv''" "\<not> isfile ?e ''otp.sv''"
    by (simp_all add: opt_str_def)
  moreover have "\<not> isl (load_lifecycle (lc_reader ?e ''lc.sv'') OtConfiguration)"
    by code_simp
  then obtain c where "load_lifecycle (lc_reader ?e ''lc.sv'') OtConfiguration = Inr c"
    by (cases "load_lifecycle (lc_reader ?e ''lc.sv'') OtConfiguration") auto
  ultimately show ?thesis by (rule generate_output_otpconst_unchecked)
qed

text \<open>
  C29. A missing lifecycle file ends the run through \<open>argparser.error\<close>, with exit status
  2, not the status 1 the other data and I/O errors give.
\<close>

theorem generate_output_missing_lifecycle:
  "\<not> isfile env (case opt_str (a_lifecycle args) of
                     None \<Rightarrow> py_joinpath d ''hw/ip/lc_ctrl/rtl/lc_ctrl_state_pkg.sv'' | Some p \<Rightarrow> p) \<Longrightarrow>
   map_option (\<lambda>r. case r of Inl res \<Rightarrow> exit_code res | Inr res \<Rightarrow> exit_code res)
     (generate_output env args d t v) = Some 2"
  by (simp add: generate_output_def stop_def exit_code_def)

theorem generate_output_missing_lifecycle_witness:
  "map_option (\<lambda>r. case r of Inl res \<Rightarrow> exit_code res | Inr res \<Rightarrow> exit_code res)
     (generate_output (demo_env\<lparr>isfile := (\<lambda>_. False)\<rparr>) demo_args ''/ot'' ''top_earlgrey'' ''eg'') = Some 2"
proof -
  have "\<not> isfile (demo_env\<lparr>isfile := (\<lambda>_. False)\<rparr>)
           (case opt_str (a_lifecycle demo_args) of
              None \<Rightarrow> py_joinpath ''/ot'' ''hw/ip/lc_ctrl/rtl/lc_ctrl_state_pkg.sv'' | Some p \<Rightarrow> p)"
    by simp
  then show ?thesis by (rule generate_output_missing_lifecycle)
qed

text \<open>
  C30. A top name the top file declares is accepted only as Darjeeling or Earl Grey, in any
  letter case, and selects the variant \<open>dj\<close> or \<open>eg\<close> and the directory \<open>top_darjeeling\<close>
  or \<open>top_earlgrey\<close>.
\<close>

theorem resolve_top_name_variants:
  "resolve_top_name ltop = Some (Inr (topvar, topnm)) \<Longrightarrow>
   (topvar, topnm) \<in> {(''dj'', ''top_darjeeling''), (''eg'', ''top_earlgrey'')}"
  by (auto simp: resolve_top_name_def top_map_def stop_def
           split: if_splits hval.splits option.splits)

theorem resolve_top_name_variants_witness:
  "resolve_top_name (HStr ''EarlGrey'') = Some (Inr (''eg'', ''top_earlgrey'')) \<and>
   (''eg'', ''top_earlgrey'') \<in> {(''dj'', ''top_darjeeling''), (''eg'', ''top_earlgrey'')}"
proof -
  have r: "resolve_top_name (HStr ''EarlGrey'') = Some (Inr (''eg'', ''top_earlgrey''))" by code_simp
  show ?thesis using resolve_top_name_variants [OF r] r by simp
qed

text \<open>
  C31. Given a top file at an absolute path and no OpenTitan directory, if no ancestor of the
  top file holds the top's \<open>data\<close> directory then \<open>main\<close> never returns: the search
  loop spins on \<open>/\<close> instead of reporting \<open>Cannot find OT root directory\<close>.
\<close>

theorem main_absolute_hang:
  assumes "hjson_error env = None" "opt_str (a_topcfg args) = Some tc" "opt_str (a_opentitan args) = None"
    and "isfile env tc" "load_top env tc OtConfiguration = Some (Inr c)"
    and "resolve_top_name (top_name c) = Some (Inr (topvar, topnm))"
    and "py_startswith tc ''/''"
    and "list_all (\<lambda>d. \<not> isdir env (py_joinpath d (''hw/'' @ topnm @ ''/data''))) (path_chain (py_dirname tc))"
  shows "Driver.main env args = None"
proof -
  have "find_ot_root (isdir env) (''hw/'' @ topnm @ ''/data'') (py_dirname tc) = None"
    using assms(7,8) dirname_absolute [OF assms(7)]
    by (simp add: find_ot_root_chain find_None_iff list_all_iff split: option.split)
  then have "locate_ot_dir env args tc topnm = None"
    using assms(3) by (simp add: locate_ot_dir_def)
  then have "top_from_file env args tc = None"
    using assms(4,5,6) by (simp add: top_from_file_def run_bind_def)
  then show ?thesis using assms(1,2) by (simp add: main_def run_bind_def)
qed

theorem main_absolute_hang_witness:
  "Driver.main (demo_env\<lparr>isdir := (\<lambda>p. p = ''/ot'')\<rparr>) demo_args = None"
proof -
  let ?e = "demo_env\<lparr>isdir := (\<lambda>p. p = ''/ot'')\<rparr>"
  let ?tc = "''/ot/hw/top_earlgrey/data/autogen/top_earlgrey.gen.hjson''"
  let ?c = "projr (load_top_config demo_top_doc OtConfiguration)"
  have h: "hjson_error ?e = None" "opt_str (a_topcfg demo_args) = Some ?tc"
    "opt_str (a_opentitan demo_args) = None" "isfile ?e ?tc"
    by (simp_all add: demo_env_def demo_args_def opt_str_def)
  have l: "load_top ?e ?tc OtConfiguration = Some (Inr ?c)" by code_simp
  have r: "resolve_top_name (top_name ?c) = Some (Inr (''eg'', ''top_earlgrey''))" by code_simp
  have p: "py_startswith ?tc ''/''" by (simp add: py_startswith_def)
  have c: "list_all (\<lambda>d. \<not> isdir ?e (py_joinpath d (''hw/'' @ ''top_earlgrey'' @ ''/data'')))
             (path_chain (py_dirname ?tc))"
    by code_simp
  show ?thesis by (rule main_absolute_hang [OF h l r p c])
qed

text \<open>
  C32. \<open>main\<close> returns (with an output, a usage error or an exception) whenever the top is
  given by name, or the OpenTitan root is given, or the top file's path is relative: the
  root search is the only loop, and it ends on a relative path.
\<close>

theorem main_terminates:
  assumes "case opt_str (a_topcfg args) of None \<Rightarrow> True
             | Some p \<Rightarrow> opt_str (a_opentitan args) \<noteq> None \<or> \<not> py_startswith p ''/''"
  shows "\<exists>res. Driver.main env args = Some res"
proof -
  have "run_bind (case opt_str (a_topcfg args) of None \<Rightarrow> top_from_dir env args
          | Some topcfg \<Rightarrow> top_from_file env args topcfg)
         (\<lambda>(ot_dir, topnm, topvar). generate_output env args ot_dir topnm topvar) \<noteq> None"
    by (rule run_bind_total [OF main_pre_total [OF assms]])
      (simp add: generate_output_total split: prod.split del: not_None_eq)
  then show ?thesis by (auto simp: main_def)
qed

theorem main_terminates_witness:
  "\<exists>res. Driver.main (demo_env\<lparr>isdir := (\<lambda>_. False)\<rparr>)
            (demo_args\<lparr>a_topcfg := Some ''top_earlgrey.gen.hjson''\<rparr>) = Some res"
proof -
  have "case opt_str (a_topcfg (demo_args\<lparr>a_topcfg := Some ''top_earlgrey.gen.hjson''\<rparr>)) of None \<Rightarrow> True
          | Some p \<Rightarrow> opt_str (a_opentitan (demo_args\<lparr>a_topcfg := Some ''top_earlgrey.gen.hjson''\<rparr>)) \<noteq> None
                     \<or> \<not> py_startswith p ''/''"
    by code_simp
  then show ?thesis by (rule main_terminates)
qed

end
