(* ===== verification/Spec2Isabelle.thy ===== *)
theory Spec2Isabelle
  imports Driver
begin

text \<open>
  \<^bold>\<open>A model of the OpenTitan QEMU configuration generator\<close>
  (\<open>src/scripts/opentitan/cfggen.py\<close>).

  \<^bold>\<open>The program.\<close> \<open>cfggen.py\<close> reads three inputs and writes one INI-like file for
  QEMU's \<open>-readconfig\<close>: the HJSON top-level description of a chip (its modules and
  their parameters), the RTL package that lists the lifecycle states and transition
  counters, and the RTL package of the OTP controller. The class \<open>OtConfiguration\<close>
  holds what is extracted; \<open>main\<close> resolves the paths, loads, and calls \<open>save\<close>.

  \<^bold>\<open>Theories and what they model.\<close>
  \<^item> \<open>Prelude\<close>: Python exceptions (\<open>pyerr\<close>) and results \<open>pyerr + 'a\<close> with \<open>rbind\<close>
    and the monadic loop \<open>rfold\<close>; Python dicts as insertion-ordered association
    lists (\<open>dict_set\<close>, \<open>dict_del\<close>, \<open>dict_update\<close>) and their lemmas.
  \<^item> \<open>PyStr\<close>: \<open>str.lower\<close>, \<open>startswith\<close>, \<open>strip\<close>, \<open>str.join\<close>, \<open>str(n)\<close> and
    \<open>int(s, base)\<close> with CPython's grammar (sign, \<open>0x\<close>, underscores), on ASCII.
  \<^item> \<open>Hjson\<close>: HJSON values, Python truthiness, \<open>.get\<close>, subscription and iteration with
    the exceptions they raise.
  \<^item> \<open>Config\<close>: the record \<open>ot_configuration\<close> of \<open>OtConfiguration\<close> (lines 44-61)
    and its constructor; the two parts of the state the loaders write.
  \<^item> \<open>Lifecycle\<close>: the Range Extractor \<open>load_lifecycle\<close> (lines 80-121): zero-keyed
    entries dropped, first and last surviving keys, tokens merged; the reader
    \<open>OtpLifecycle\<close> is the record \<open>lc_ext\<close> of its answers.
  \<^item> \<open>TopConfig\<close>: the Parameter Correlator \<open>load_top_config\<close> and
    \<open>_load_top_values\<close> (lines 63-78, 153-178): \<open>re.match\<close> of \<open>prefix(.*)suffix\<close>,
    \<open>camel_to_snake_case\<close>, the bank index from \<open>re.search(r'(\d+)$')\<close>, the
    \<open>0x\<close> strip and the storage into the ROM or OTP map.
  \<^item> \<open>OtpConst\<close>: the Digest/Key Extractor \<open>load_otp_constants\<close> (lines 123-129);
    \<open>OtpConstants\<close> is the record of its \<open>get_digest_pair\<close> answers.
  \<^item> \<open>Render\<close>: the Configuration Assembler \<open>save\<close>, \<open>add_pair\<close> and the three
    \<open>_generate_*\<close> (lines 131-151, 180-228), and \<open>configparser.ConfigParser\<close> as far as
    they use it: \<open>cfg[section] = dict\<close> clears the section in place, lower-cases option
    names, rejects a repeated one and checks \<open>%\<close> interpolation; \<open>write\<close> renders text.
  \<^item> \<open>OtRoot\<close>: \<open>posixpath.dirname\<close> and \<open>join\<close>, and the search loop of \<open>main\<close> for
    the OpenTitan root (lines 306-316) as a \<open>partial_function (option)\<close>.
  \<^item> \<open>Driver\<close>: \<open>main\<close> (lines 231-348) after \<open>argparse\<close>: the parsed arguments and the
    file system are records, and the result says how the run ends (output written,
    \<open>argparser.error\<close>, a caught or an escaping exception) or \<open>None\<close> if it never ends.
  \<^item> This theory: properties of the whole pipeline.

  \<^bold>\<open>What the lemmas show.\<close> The Range Extractor is total on hexadecimal tables with a
  non-zero key and returns the table-order ends, merges the tokens and leaves the other
  fields; its errors: no state table, an all-zero table, a non-decimal transition value
  reaching the log statement's \<open>int()\<close> (C1-C7). The regex match is the longest
  newline-free group, bank indices round-trip through \<open>str\<close>, stored values are
  stripped of \<open>0x\<close>, every matching expression stores (no \<open>break\<close>), and the correlator
  touches only the ROM, OTP and top-name fields (C8-C14). The OTP constants override the
  top-level OTP values in source order (C15). \<open>save\<close>: the ROM sections, their names
  and number, the rendered shape of each option, the sorting of the lifecycle section,
  the output on an empty configuration, the \<open>ConfigParser\<close> errors and a sufficient
  condition for success (C16-C23), and the instance count at its boundaries (C33). The
  root search terminates on relative paths, never ends on absolute paths without a
  match, and finds the first matching ancestor (C24-C26). \<open>main\<close>: the top file's
  modules never reach the output, the OTP constants file is not checked, a missing
  lifecycle file exits with status 2, the accepted top names, non-termination on an
  absolute path and termination otherwise (C27-C32). C34 shows that the lifecycle and
  top-level loads commute: they write disjoint fields of the configuration.

  \<^bold>\<open>Loops and fuel.\<close> Every loop over data is structural (\<open>rfold\<close>, \<open>fold\<close>). The only
  loop that may not end is the root search; it is a \<open>partial_function (option)\<close>, whose
  termination on relative paths is proved (C24, and for \<open>main\<close> C32) and whose
  non-termination on absolute paths is proved as the value \<open>None\<close> (C25, C31). The \<open>dirname\<close> chain \<open>path_chain\<close>
  is a \<open>function\<close> with a length measure. No fuel is used.

  \<^bold>\<open>Not modelled.\<close> The readers \<open>OtpLifecycle\<close> and \<open>OtpConstants\<close> (they parse RTL
  text outside \<open>src/\<close>) and the HJSON parser are environment functions; the file
  system (\<open>isfile\<close>, \<open>isdir\<close>, \<open>abspath\<close>) too. \<open>argparse\<close> (option parsing, usage
  text), \<open>logging\<close> and the \<open>KeyboardInterrupt\<close> exit are not modelled; the log
  statement at line 101 is kept only for the \<open>int()\<close> it evaluates. Strings are
  ASCII: Unicode case mapping and whitespace are not modelled. The choice of output
  file or standard output is recorded, not performed. \<open>ConfigParser\<close>'s key checks
  added in later Python versions (\<open>InvalidWriteError\<close>) are not modelled.
\<close>

text \<open>The update \<open>load_lifecycle\<close> makes: the five life-cycle fields, nothing else.\<close>

definition set_lc_part ::
  "string \<times> string \<Rightarrow> string \<times> string \<Rightarrow> table \<Rightarrow> string \<times> string \<Rightarrow> string \<times> string \<Rightarrow> ot_configuration \<Rightarrow> ot_configuration" where
  "set_lc_part a b l s w c = c\<lparr>lc_states := a, lc_transitions := b, lc := l, socdbg := s, ownership := w\<rparr>"

section \<open>Properties of the whole pipeline\<close>

subsection \<open>Life-cycle and top-level loading are independent\<close>

lemma top_module_set_lc_part:
  "top_module md (set_lc_part a b l s w c) = map_sum id (set_lc_part a b l s w) (top_module md c)"
  by (simp add: top_module_def set_lc_part_def rbind_def split: sum.split odict.split)

lemma load_top_config_set_lc_part:
  "load_top_config d (set_lc_part a b l s w c) = map_sum id (set_lc_part a b l s w) (load_top_config d c)"
proof -
  have "set_lc_part a b l s w c\<lparr>top_name := n\<rparr> = set_lc_part a b l s w (c\<lparr>top_name := n\<rparr>)" for n
    by (simp add: set_lc_part_def)
  then show ?thesis
    by (simp add: load_top_config_def rbind_def rfold_commute top_module_set_lc_part split: sum.split)
qed


lemma set_lc_part_self:
  "set_lc_part (lc_states c) (lc_transitions c) (lc c) (socdbg c) (ownership c) c = c"
  by (simp add: set_lc_part_def)

lemma load_top_config_keeps_lc:
  assumes "load_top_config d c = Inr c'"
  shows "lc c' = lc c" "socdbg c' = socdbg c" "ownership c' = ownership c"
proof -
  have k: "set_lc_part (lc_states c) (lc_transitions c) (lc c) (socdbg c) (ownership c) c' = c'"
    using load_top_config_set_lc_part [of d "lc_states c" "lc_transitions c" "lc c" "socdbg c" "ownership c" c]
    unfolding set_lc_part_self assms by simp
  show "lc c' = lc c" "socdbg c' = socdbg c" "ownership c' = ownership c"
    by (subst k [symmetric], simp add: set_lc_part_def)+
qed

lemma load_lifecycle_set_lc_part:
  assumes "load_lifecycle e c = Inr c'" "socdbg c0 = socdbg c" "ownership c0 = ownership c"
  shows "\<exists>st tr sd ow. c' = set_lc_part st tr (dict_update (lc c) (lc_tokens e)) sd ow c \<and>
     load_lifecycle e c0 = Inr (set_lc_part st tr (dict_update (lc c0) (lc_tokens e)) sd ow c0)"
proof -
  from assms(1) obtain t1 st t2 tr sd ow where
    "py_table (get_configuration e ''LC_STATE'') \<noteq> []"
    "lc_range (py_table (get_configuration e ''LC_STATE'')) = Inr (t1, st)"
    "py_table (get_configuration e ''LC_TRANSITION_CNT'') \<noteq> []"
    "lc_range (py_table (get_configuration e ''LC_TRANSITION_CNT'')) = Inr (t2, tr)"
    "log_int_values t2 tr = Inr ()"
    "load_optional_range (get_configuration e ''SOCDBG'') (socdbg c) = Inr sd"
    "load_optional_range (get_configuration e ''OWNERSHIP'') (ownership c) = Inr ow"
    "c' = set_lc_part st tr (dict_update (lc c) (lc_tokens e)) sd ow c"
    unfolding load_lifecycle_Inr set_lc_part_def by blast
  with assms(2,3) show ?thesis
    unfolding load_lifecycle_Inr set_lc_part_def
    by (intro exI [of _ st] exI [of _ tr] exI [of _ sd] exI [of _ ow] conjI) simp_all
qed

text \<open>
  C34. The Range Extractor and the Parameter Correlator write disjoint fields and read
  none of the other's: when the top configuration and then the lifecycle load, loading
  them in the opposite order succeeds with the same configuration.
\<close>

theorem lifecycle_top_config_commute:
  assumes "load_top_config d c = Inr c1" and "load_lifecycle e c1 = Inr c2"
  shows "rbind (load_lifecycle e c) (load_top_config d) = Inr c2"
proof -
  note same = load_top_config_keeps_lc [OF assms(1)]
  from load_lifecycle_set_lc_part [OF assms(2) same(2,3)[symmetric]] obtain st tr sd ow where
    c2: "c2 = set_lc_part st tr (dict_update (lc c) (lc_tokens e)) sd ow c1" and
    lc0: "load_lifecycle e c = Inr (set_lc_part st tr (dict_update (lc c) (lc_tokens e)) sd ow c)"
    using same(1) by auto
  show ?thesis
    using lc0 c2 by (simp add: load_top_config_set_lc_part assms(1))
qed

theorem lifecycle_top_config_commute_witness:
  "\<not> isl (rbind (load_top_config demo_top_doc OtConfiguration) (load_lifecycle demo_lc_ext)) \<and>
   rbind (load_lifecycle demo_lc_ext OtConfiguration) (load_top_config demo_top_doc) =
   rbind (load_top_config demo_top_doc OtConfiguration) (load_lifecycle demo_lc_ext)"
proof -
  have ok: "\<not> isl (rbind (load_top_config demo_top_doc OtConfiguration) (load_lifecycle demo_lc_ext))"
    by code_simp
  then obtain c1 where r1: "load_top_config demo_top_doc OtConfiguration = Inr c1"
    by (cases "load_top_config demo_top_doc OtConfiguration") auto
  with ok obtain c2 where r2: "load_lifecycle demo_lc_ext c1 = Inr c2"
    by (cases "load_lifecycle demo_lc_ext c1") auto
  show ?thesis using ok lifecycle_top_config_commute [OF r1 r2] r1 r2 by simp
qed

end
